(* ===== verification/Prelude.thy ===== *)
theory Prelude
  imports Main "HOL-Library.AList" "HOL-Library.Word"
begin

text \<open>
  Shared vocabulary of the development: the \<open>model_simps\<close> collection, the
  insertion-ordered association lists that hold the metric series, and the pieces of
  the Rust standard library that the modelled code relies on (splitting a string at a
  character, ASCII case folding, decimal printing and parsing of unsigned integers).
  Every definition here computes, so concrete requests and environments evaluate by
  \<open>simp\<close>.
\<close>

named_theorems model_simps "equations of the model that the component proofs unfold"

type_synonym env = "string \<rightharpoonup> string"
type_synonym nanos = nat

subsection \<open>Association lists with a default value\<close>

text \<open>
  A metric family of the Prometheus recorder is a table from label sets to values;
  a series that was never touched reads as zero. The table keeps the order in which
  series were first recorded, as the recorder's map does when it is rendered.
\<close>

definition al_get :: "('k \<times> 'v) list \<Rightarrow> 'v \<Rightarrow> 'k \<Rightarrow> 'v" where
  "al_get ps d k = (case map_of ps k of None \<Rightarrow> d | Some v \<Rightarrow> v)"

definition al_upd :: "('k \<times> 'v) list \<Rightarrow> 'k \<Rightarrow> 'v \<Rightarrow> ('v \<Rightarrow> 'v) \<Rightarrow> ('k \<times> 'v) list" where
  "al_upd ps k d f = AList.update_with_aux d k f ps"

subsection \<open>Strings\<close>

text \<open>\<open>str::split(c)\<close>: the pieces between occurrences of \<open>c\<close>; never empty.\<close>

fun split_on :: "char \<Rightarrow> string \<Rightarrow> string list" where
  "split_on c [] = [[]]"
| "split_on c (x # xs) =
     (let r = split_on c xs in if x = c then [] # r else (x # hd r) # tl r)"

fun join_on :: "char \<Rightarrow> string list \<Rightarrow> string" where
  "join_on c [] = []"
| "join_on c [w] = w"
| "join_on c (w # ws) = w @ c # join_on c ws"

definition ascii_lower :: "char \<Rightarrow> char" where
  "ascii_lower c =
     (let n = (of_char c :: nat) in if 65 \<le> n \<and> n \<le> 90 then char_of (n + 32) else c)"

text \<open>\<open>str::eq_ignore_ascii_case\<close>.\<close>

definition eq_ignore_ascii_case :: "string \<Rightarrow> string \<Rightarrow> bool" where
  "eq_ignore_ascii_case a b \<longleftrightarrow> map ascii_lower a = map ascii_lower b"

subsection \<open>Unsigned decimals\<close>

definition digit_char :: "nat \<Rightarrow> char" where
  "digit_char d = char_of (48 + d)"

definition is_digit :: "char \<Rightarrow> bool" where
  "is_digit c \<longleftrightarrow> (let n = (of_char c :: nat) in 48 \<le> n \<and> n \<le> 57)"

definition digit_val :: "char \<Rightarrow> nat" where
  "digit_val c = (of_char c :: nat) - 48"

text \<open>\<open>Display\<close> of an unsigned integer: its decimal digits, no leading zero.\<close>

fun dec_string :: "nat \<Rightarrow> string" where
  "dec_string n =
     (if n < 10 then [digit_char n] else dec_string (n div 10) @ [digit_char (n mod 10)])"

definition dec_value :: "string \<Rightarrow> nat" where
  "dec_value s = foldl (\<lambda>n c. 10 * n + digit_val c) 0 s"

text \<open>
  \<open>str::parse::<usize>()\<close> on a 64-bit target: an optional \<open>+\<close>, then at least one
  digit and nothing else; a value of \<open>2^64\<close> or more is an overflow error.
\<close>

definition parse_usize :: "string \<Rightarrow> nat option" where
  "parse_usize s =
     (let ds = (case s of c # r \<Rightarrow> if c = CHR ''+'' then r else s | [] \<Rightarrow> [])
      in if ds \<noteq> [] \<and> list_all is_digit ds \<and> dec_value ds < 2 ^ 64
         then Some (dec_value ds) else None)"

declare dec_string.simps [simp del]

subsection \<open>Lemmas on association lists\<close>

lemma al_get_Nil [simp]: "al_get [] d k = d"
  by (simp add: al_get_def)

lemma al_get_upd [simp, model_simps]:
  "al_get (al_upd ps k d f) d k' = (if k' = k then f (al_get ps d k) else al_get ps d k')"
  by (auto simp: al_get_def al_upd_def map_of_update_with_aux split: option.splits)

lemma al_upd_keys [simp]: "fst ` set (al_upd ps k d f) = insert k (fst ` set ps)"
  by (simp add: al_upd_def dom_update_with_aux)

lemma al_upd_distinct [simp]:
  "distinct (map fst (al_upd ps k d f)) = distinct (map fst ps)"
  by (simp add: al_upd_def)

lemma al_get_notin: "k \<notin> fst ` set ps \<Longrightarrow> al_get ps d k = d"
  by (metis al_get_def map_of_eq_None_iff option.simps(4))

lemma map_of_Some_key [intro]: "map_of ps k = Some v \<Longrightarrow> k \<in> fst ` set ps"
  by (force dest: map_of_SomeD)

lemma al_get_in: "distinct (map fst ps) \<Longrightarrow> (k, v) \<in> set ps \<Longrightarrow> al_get ps d k = v"
  by (simp add: al_get_def)

lemma length_filter_delete:
  "distinct (map fst xs) \<Longrightarrow> map_of xs i = Some f \<Longrightarrow>
     length (filter P xs) = length (filter P (AList.delete i xs)) + (if P (i, f) then 1 else 0)"
proof (induction xs)
  case Nil
  then show ?case by simp
next
  case (Cons a xs)
  show ?case
  proof (cases "fst a = i")
    case True
    with Cons.prems have "a = (i, f)" and "i \<notin> fst ` set xs" by (auto simp: prod_eq_iff)
    then show ?thesis by simp
  next
    case False
    with Cons show ?thesis by (auto simp: prod_eq_iff)
  qed
qed

lemma length_filter_update:
  "map_of xs i = Some f \<Longrightarrow> P (i, f') = P (i, f) \<Longrightarrow>
     length (filter P (AList.update i f' xs)) = length (filter P xs)"
  by (induction xs) (auto split: if_splits)

lemma length_delete_in:
  "distinct (map fst xs) \<Longrightarrow> map_of xs i = Some f \<Longrightarrow> length (AList.delete i xs) = length xs - 1"
  using length_filter_delete [of xs i f "\<lambda>_. True"] by simp

lemma set_update_subset: "set (AList.update k v al) \<subseteq> insert (k, v) (set al)"
  by (induction al) auto

lemma set_delete_subset: "set (AList.delete k al) \<subseteq> set al"
  by (induction al) auto

subsection \<open>Lemmas on strings\<close>

lemma filter_eq_notin: "c \<notin> set xs \<Longrightarrow> filter (\<lambda>x. x = c) xs = []"
  by (induction xs) auto

lemma split_on_not_Nil [simp]: "split_on c s \<noteq> []"
  by (induction s) (auto simp: Let_def)

lemma join_on_split_on [simp]: "join_on c (split_on c s) = s"
proof (induction s)
  case Nil
  then show ?case by simp
next
  case (Cons x xs)
  obtain w ws where r: "split_on c xs = w # ws"
    using split_on_not_Nil by (metis list.exhaust)
  with Cons.IH have "join_on c (w # ws) = xs" by simp
  with r show ?case by (cases ws) (auto simp: Let_def)
qed

lemma split_on_pieces: "w \<in> set (split_on c s) \<Longrightarrow> c \<notin> set w"
proof (induction s arbitrary: w)
  case Nil
  then show ?case by simp
next
  case (Cons x xs)
  obtain v vs where r: "split_on c xs = v # vs"
    using split_on_not_Nil by (metis list.exhaust)
  with Cons show ?case by (auto simp: Let_def split: if_splits)
qed

lemma split_on_no_sep: "c \<notin> set s \<Longrightarrow> split_on c s = [s]"
  by (induction s) (auto simp: Let_def)

lemma split_on_append_sep: "c \<notin> set a \<Longrightarrow> split_on c (a @ c # b) = a # split_on c b"
  by (induction a) (auto simp: Let_def)

subsection \<open>Lemmas on characters\<close>

lemma char_of_eq_iff: "(n::nat) < 256 \<Longrightarrow> (char_of n = c) = (n = of_char c)"
  by (auto simp: of_char_of)

lemma ascii_lower_fixed:
  assumes "ascii_lower c = d" "\<not> (97 \<le> (of_char d :: nat) \<and> (of_char d :: nat) \<le> 122)"
  shows "c = d"
proof (cases "65 \<le> (of_char c :: nat) \<and> (of_char c :: nat) \<le> 90")
  case True
  with assms(1) have "d = char_of (of_char c + 32 :: nat)" by (simp add: ascii_lower_def)
  then have "(of_char d :: nat) = of_char c + 32" using True by (simp add: of_char_of)
  with True assms(2) show ?thesis by simp
next
  case False
  with assms(1) show ?thesis by (simp add: ascii_lower_def)
qed

lemma eq_ignore_case_char:
  "eq_ignore_ascii_case s n \<Longrightarrow> c \<in> set s \<Longrightarrow> (of_char c :: nat) < 65 \<Longrightarrow> c \<in> set n"
proof -
  assume e: "eq_ignore_ascii_case s n" and c: "c \<in> set s" and lt: "(of_char c :: nat) < 65"
  then have nl: "\<not> (97 \<le> (of_char c :: nat) \<and> (of_char c :: nat) \<le> 122)" by simp
  have "ascii_lower c = c" using lt by (simp add: ascii_lower_def)
  with c have "c \<in> set (map ascii_lower s)" by (metis image_eqI set_map)
  with e have "c \<in> set (map ascii_lower n)" by (simp add: eq_ignore_ascii_case_def)
  then obtain c' where c': "c' \<in> set n" "ascii_lower c' = c" by auto
  from c'(2) nl have "c' = c" by (rule ascii_lower_fixed)
  with c'(1) show "c \<in> set n" by simp
qed

subsection \<open>Lemmas on decimals\<close>

lemma digit_char_digit [simp]: "d < 10 \<Longrightarrow> is_digit (digit_char d)"
  by (simp add: digit_char_def is_digit_def)

lemma digit_char_values [simp]:
  "digit_char 0 = CHR ''0''" "digit_char 1 = CHR ''1''" "digit_char 2 = CHR ''2''"
  "digit_char 3 = CHR ''3''" "digit_char 4 = CHR ''4''" "digit_char 5 = CHR ''5''"
  "digit_char 6 = CHR ''6''" "digit_char 7 = CHR ''7''" "digit_char 8 = CHR ''8''"
  "digit_char 9 = CHR ''9''" "digit_char (Suc 0) = CHR ''1''"
  by (simp_all add: digit_char_def) code_simp+

lemma digit_val_digit_char [simp]: "d < 10 \<Longrightarrow> digit_val (digit_char d) = d"
  by (simp add: digit_char_def digit_val_def)

lemma dec_value_snoc [simp]: "dec_value (s @ [c]) = 10 * dec_value s + digit_val c"
  by (simp add: dec_value_def)

lemma dec_string_not_Nil [simp]: "dec_string n \<noteq> []"
  by (subst dec_string.simps) simp

lemma dec_value_dec_string [simp]: "dec_value (dec_string n) = n"
proof (induction n rule: dec_string.induct)
  case (1 n)
  show ?case
  proof (cases "n < 10")
    case True
    then show ?thesis by (subst dec_string.simps) (simp add: dec_value_def)
  next
    case False
    with "1.IH" show ?thesis by (subst dec_string.simps) simp
  qed
qed

lemma dec_string_digits: "list_all is_digit (dec_string n)"
proof (induction n rule: dec_string.induct)
  case (1 n)
  then show ?case by (subst dec_string.simps) simp
qed

lemma dec_value_map_digit_char:
  "list_all (\<lambda>x. x < 10) ds \<Longrightarrow> dec_value (map digit_char ds) = foldl (\<lambda>n d. 10 * n + d) 0 ds"
proof (induction ds rule: rev_induct)
  case Nil
  then show ?case by (simp add: dec_value_def)
next
  case (snoc x xs)
  then show ?case by (simp add: dec_value_def [symmetric])
qed

lemma dec_string_no_char: "\<not> is_digit c \<Longrightarrow> c \<notin> set (dec_string n)"
  using dec_string_digits [of n] by (auto simp: list_all_iff)

lemma dec_string_hd_nonzero: "0 < n \<Longrightarrow> hd (dec_string n) \<noteq> CHR ''0''"
proof (induction n rule: dec_string.induct)
  case (1 n)
  show ?case
  proof (cases "n < 10")
    case True
    have "digit_val (digit_char n) = n" using True by simp
    then have "digit_char n \<noteq> CHR ''0''" using "1.prems" by (auto simp: digit_val_def)
    with True show ?thesis by (subst dec_string.simps) simp
  next
    case False
    with "1.IH" show ?thesis by (subst dec_string.simps) simp
  qed
qed

lemma length_dec_string: "n < 10 ^ k \<Longrightarrow> 0 < k \<Longrightarrow> length (dec_string n) \<le> k"
proof (induction n arbitrary: k rule: dec_string.induct)
  case (1 n)
  show ?case
  proof (cases "n < 10")
    case True
    with "1.prems" show ?thesis by (subst dec_string.simps) simp
  next
    case False
    then obtain k' where k: "k = Suc k'" using "1.prems" by (cases k) auto
    have "n div 10 < 10 ^ k'" using "1.prems"(1) k by (simp add: div_less_iff_less_mult mult.commute)
    moreover have "0 < k'" using False "1.prems"(1) k by (cases k') auto
    ultimately have "length (dec_string (n div 10)) \<le> k'" using "1.IH" False by blast
    with False k show ?thesis by (subst dec_string.simps) simp
  qed
qed

lemma dec_string_hd: "hd (dec_string n) \<noteq> CHR ''+''"
proof (induction n rule: dec_string.induct)
  case (1 n)
  show ?case
  proof (cases "n < 10")
    case True
    then have "is_digit (digit_char n)" by simp
    moreover have "\<not> is_digit CHR ''+''" by (simp add: is_digit_def)
    ultimately have "digit_char n \<noteq> CHR ''+''" by auto
    with True show ?thesis by (subst dec_string.simps) simp
  next
    case False
    with "1.IH" show ?thesis by (subst dec_string.simps) simp
  qed
qed

lemma parse_usize_dec_string: "n < 2 ^ 64 \<Longrightarrow> parse_usize (dec_string n) = Some n"
proof -
  assume "n < 2 ^ 64"
  moreover obtain c r where cr: "dec_string n = c # r"
    using dec_string_not_Nil by (metis list.exhaust)
  moreover have "c \<noteq> CHR ''+''" using dec_string_hd [of n] cr by simp
  moreover have "dec_value (c # r) = n" using cr dec_value_dec_string [of n] by simp
  ultimately show ?thesis
    using dec_string_digits [of n] by (simp add: parse_usize_def Let_def)
qed

end
