(* ===== verification/Http.thy ===== *)
theory Http
  imports Prelude
begin

text \<open>
  The HTTP data the program handles: request methods (\<open>http::Method\<close>), the parts of a
  request the pipeline reads, and responses with a status code, headers and a body.
  The constructors of response values are the ones the code reaches: \<open>IntoResponse\<close>
  for a string (the two handlers of \<open>src/main.rs\<close> return \<open>&'static str\<close> and
  \<open>String\<close>), the empty 404 of the router's default fallback, and the 405 of a
  method router without a matching method. Every response of a route then passes through
  axum's route future, which adds \<open>content-length\<close> (the body's exact size) when the
  response has no such header (\<open>set_content_length\<close>), and drops the body of the answer
  to a \<open>HEAD\<close> request (\<open>strip_body\<close>).
\<close>

datatype http_method = GET | HEAD | POST | PUT | DELETE | PATCH | OPTIONS | CONNECT | TRACE
  | Extension string

text \<open>\<open>Method::as_str\<close>, the label the metrics layer records.\<close>

fun method_str :: "http_method \<Rightarrow> string" where
  "method_str GET = ''GET''"
| "method_str HEAD = ''HEAD''"
| "method_str POST = ''POST''"
| "method_str PUT = ''PUT''"
| "method_str DELETE = ''DELETE''"
| "method_str PATCH = ''PATCH''"
| "method_str OPTIONS = ''OPTIONS''"
| "method_str CONNECT = ''CONNECT''"
| "method_str TRACE = ''TRACE''"
| "method_str (Extension s) = s"

record request =
  req_method :: http_method
  req_path :: string
  req_query :: "string option"
  req_headers :: "(string \<times> string) list"
  req_body :: string

record response =
  status :: nat
  resp_headers :: "(string \<times> string) list"
  resp_body :: string

definition content_type_text :: "string \<times> string" where
  "content_type_text = (''content-type'', ''text/plain; charset=utf-8'')"

text \<open>
  \<open>impl IntoResponse for &'static str\<close> and \<open>for String\<close> (both go through
  \<open>Cow<'static, str>\<close>): status 200, a \<open>text/plain\<close> content type, the string as body.
\<close>

definition str_into_response :: "string \<Rightarrow> response" where
  "str_into_response s = \<lparr>status = 200, resp_headers = [content_type_text], resp_body = s\<rparr>"

text \<open>\<open>StatusCode::into_response\<close>: the status alone, no header, an empty body.\<close>

definition status_response :: "nat \<Rightarrow> response" where
  "status_response c = \<lparr>status = c, resp_headers = [], resp_body = []\<rparr>"

text \<open>
  \<open>set_content_length\<close> of \<open>RouteFuture::poll\<close>: unless the response already has a
  \<open>content-length\<close> header, the exact size of its body (every body here is a fixed string,
  whose size hint is exact) is added as one, in decimal; it runs before the body of a
  \<open>HEAD\<close> response is dropped.
\<close>

definition set_content_length :: "response \<Rightarrow> response" where
  "set_content_length r =
     (if list_ex (\<lambda>(n, v). n = ''content-length'') (resp_headers r) then r
      else r\<lparr>resp_headers := resp_headers r @ [(''content-length'', dec_string (length (resp_body r)))]\<rparr>)"

text \<open>The body of a response to \<open>HEAD\<close> is dropped (\<open>RouteFuture::strip_body\<close>).\<close>

definition strip_body :: "bool \<Rightarrow> response \<Rightarrow> response" where
  "strip_body b r = (if b then r\<lparr>resp_body := []\<rparr> else r)"

definition is_success :: "response \<Rightarrow> bool" where
  "is_success r \<longleftrightarrow> 200 \<le> status r \<and> status r < 300"

lemma strip_body_status [simp]: "status (strip_body b r) = status r"
  by (simp add: strip_body_def)

lemma strip_body_headers [simp]: "resp_headers (strip_body b r) = resp_headers r"
  by (simp add: strip_body_def)

lemma strip_body_False [simp]: "strip_body False r = r"
  by (simp add: strip_body_def)

lemma set_content_length_sel [simp]:
  "status (set_content_length r) = status r"
  "resp_body (set_content_length r) = resp_body r"
  by (simp_all add: set_content_length_def)

lemma set_content_length_str:
  "set_content_length (str_into_response s) =
     \<lparr>status = 200,
      resp_headers = [(''content-type'', ''text/plain; charset=utf-8''),
                      (''content-length'', dec_string (length s))],
      resp_body = s\<rparr>"
  by (simp add: set_content_length_def str_into_response_def content_type_text_def)

lemma str_into_response_sel [simp]:
  "status (str_into_response s) = 200"
  "resp_body (str_into_response s) = s"
  "resp_headers (str_into_response s) = [content_type_text]"
  by (simp_all add: str_into_response_def)

lemma status_response_sel [simp]:
  "status (status_response c) = c"
  "resp_body (status_response c) = []"
  "resp_headers (status_response c) = []"
  by (simp_all add: status_response_def)

end
