(* ===== verification/Router.thy ===== *)
theory Router
  imports Http
begin

text \<open>
  The route dispatcher of \<open>axum::Router\<close> (axum 0.6) as \<open>src/main.rs\<close> uses it:
  \<open>Router::new\<close>, \<open>.route(path, get(handler))\<close> and the dispatch of a request to
  the method router of the route whose path matches, or to the default fallback.
  Handlers are a type parameter \<open>'h\<close> and run through a function the caller supplies,
  so the router's lemmas hold for any handlers; the application instantiates them in
  theory \<open>App\<close>. Route paths are static (no \<open>:param\<close> or \<open>*wildcard\<close>
  segments: the program registers none), so a path matches exactly when it is equal.
  The method router's answer, and the default fallback's 404 (itself a route), go
  through the route future: \<open>content-length\<close>, then the body stripped for \<open>HEAD\<close>.
\<close>

datatype route_error =
    EmptyPath
  | PathWithoutSlash string
  | OverlappingMethodRoute string string

text \<open>
  A \<open>MethodRouter\<close>: its endpoints by method, and the methods it lists in the
  \<open>allow\<close> header of a 405.
\<close>

datatype 'h method_router = MethodRouter "(http_method \<times> 'h) list" "string list"

text \<open>\<open>routing::get(handler)\<close>: a \<open>GET\<close> endpoint, allowed for \<open>GET\<close> and \<open>HEAD\<close>.\<close>

definition get :: "'h \<Rightarrow> 'h method_router" where
  "get h = MethodRouter [(GET, h)] [''GET'', ''HEAD'']"

fun mr_endpoints :: "'h method_router \<Rightarrow> (http_method \<times> 'h) list" where
  "mr_endpoints (MethodRouter eps _) = eps"

fun mr_allow :: "'h method_router \<Rightarrow> string list" where
  "mr_allow (MethodRouter _ al) = al"

text \<open>
  \<open>MethodRouter::merge_for_path\<close>: two method routers for the same path are merged;
  a method served by both panics with "Overlapping method route".
\<close>

definition mr_merge ::
  "string \<Rightarrow> 'h method_router \<Rightarrow> 'h method_router \<Rightarrow> route_error + 'h method_router" where
  "mr_merge path a b =
     (case find (\<lambda>m. m \<in> fst ` set (mr_endpoints b)) (map fst (mr_endpoints a)) of
        Some m \<Rightarrow> Inl (OverlappingMethodRoute (method_str m) path)
      | None \<Rightarrow> Inr (MethodRouter (mr_endpoints a @ mr_endpoints b) (mr_allow a @ mr_allow b)))"

text \<open>
  The handler a method router runs (\<open>MethodRouter::call_with_state\<close>): \<open>HEAD\<close> goes
  to an explicit \<open>HEAD\<close> endpoint, else to the \<open>GET\<close> endpoint; every other method
  to its own endpoint; \<open>None\<close> sends the request to the fallback.
\<close>

definition mr_target :: "'h method_router \<Rightarrow> http_method \<Rightarrow> 'h option" where
  "mr_target mr m =
     (if m = HEAD
      then (case map_of (mr_endpoints mr) HEAD of
              Some h \<Rightarrow> Some h
            | None \<Rightarrow> map_of (mr_endpoints mr) GET)
      else map_of (mr_endpoints mr) m)"

text \<open>
  The method router's fallback: 405 Method Not Allowed, whose \<open>allow\<close> header lists
  the allowed methods joined by commas.
\<close>

definition method_not_allowed :: "'h method_router \<Rightarrow> response" where
  "method_not_allowed mr =
     \<lparr>status = 405, resp_headers = [(''allow'', join_on CHR '','' (mr_allow mr))],
      resp_body = []\<rparr>"

definition mr_call ::
  "('h \<Rightarrow> request \<Rightarrow> response) \<Rightarrow> 'h method_router \<Rightarrow> request \<Rightarrow> response" where
  "mr_call run mr req =
     strip_body (req_method req = HEAD)
       (set_content_length
         (case mr_target mr (req_method req) of
            Some h \<Rightarrow> run h req
          | None \<Rightarrow> method_not_allowed mr))"

text \<open>
  A \<open>Router\<close>: its routes by path, in the order they were added; the fallback is
  axum's default (404).
\<close>

datatype 'h router = Router "(string \<times> 'h method_router) list"

fun routes :: "'h router \<Rightarrow> (string \<times> 'h method_router) list" where
  "routes (Router rs) = rs"

definition router_new :: "'h router" where
  "router_new = Router []"

text \<open>
  \<open>Router::route\<close>: an empty path or one without a leading slash panics; a path that
  already has a method router gets the new one merged into it; any other path is added.
\<close>

definition route ::
  "string \<Rightarrow> 'h method_router \<Rightarrow> 'h router \<Rightarrow> route_error + 'h router" where
  "route path mr r =
     (if path = [] then Inl EmptyPath
      else if hd path \<noteq> CHR ''/'' then Inl (PathWithoutSlash path)
      else (case map_of (routes r) path of
              Some prev \<Rightarrow>
                (case mr_merge path prev mr of
                   Inl e \<Rightarrow> Inl e
                 | Inr m \<Rightarrow> Inr (Router (AList.update path m (routes r))))
            | None \<Rightarrow> Inr (Router (routes r @ [(path, mr)]))))"

text \<open>
  Dispatch: the matched route's path (axum inserts it into the request as
  \<open>MatchedPath\<close>, which the metrics layer reads) and the response. No route matches:
  the default fallback, a \<open>Route\<close> whose \<open>RouteFuture\<close> also sets the content length,
  answers 404 with an empty body and \<open>content-length: 0\<close>, and there is no matched path.
\<close>

definition not_found :: response where
  "not_found = set_content_length (status_response 404)"

definition dispatch ::
  "('h \<Rightarrow> request \<Rightarrow> response) \<Rightarrow> 'h router \<Rightarrow> request \<Rightarrow> string option \<times> response" where
  "dispatch run r req =
     (case map_of (routes r) (req_path req) of
        Some mr \<Rightarrow> (Some (req_path req), mr_call run mr req)
      | None \<Rightarrow> (None, not_found))"

subsection \<open>Lemmas\<close>

lemma not_found_sel [simp]:
  "status not_found = 404" "resp_body not_found = []"
  "resp_headers not_found = [(''content-length'', ''0'')]"
  by (simp_all add: not_found_def set_content_length_def status_response_def dec_string.simps)

lemma mr_target_get [simp]:
  "mr_target (get h) m = (if m = GET \<or> m = HEAD then Some h else None)"
  by (simp add: mr_target_def get_def)

lemma mr_call_get:
  "mr_call run (get h) req =
     (if req_method req = GET then set_content_length (run h req)
      else if req_method req = HEAD then strip_body True (set_content_length (run h req))
      else set_content_length (method_not_allowed (get h)))"
  by (auto simp: mr_call_def strip_body_def method_not_allowed_def)

lemma method_not_allowed_get [simp]:
  "method_not_allowed (get h) =
     \<lparr>status = 405, resp_headers = [(''allow'', ''GET,HEAD'')], resp_body = []\<rparr>"
  by (simp add: method_not_allowed_def get_def)

lemma dispatch_matched:
  "map_of (routes r) (req_path req) = Some mr \<Longrightarrow>
     dispatch run r req = (Some (req_path req), mr_call run mr req)"
  by (simp add: dispatch_def)

lemma dispatch_unmatched:
  "map_of (routes r) (req_path req) = None \<Longrightarrow> dispatch run r req = (None, not_found)"
  by (simp add: dispatch_def)

lemma dispatch_matched_path:
  "fst (dispatch run r req) = Some p \<Longrightarrow> p = req_path req \<and> p \<in> fst ` set (routes r)"
  by (auto simp: dispatch_def split: option.splits)

lemma route_fresh:
  "path \<noteq> [] \<Longrightarrow> hd path = CHR ''/'' \<Longrightarrow> path \<notin> fst ` set (routes r) \<Longrightarrow>
     route path mr r = Inr (Router (routes r @ [(path, mr)]))"
proof -
  assume "path \<noteq> []" "hd path = CHR ''/''" "path \<notin> fst ` set (routes r)"
  moreover from this(3) have "map_of (routes r) path = None" by (simp add: map_of_eq_None_iff)
  ultimately show ?thesis by (simp add: route_def)
qed

lemma route_keeps_paths:
  assumes "route path mr r = Inr r'"
  shows "fst ` set (routes r') = insert path (fst ` set (routes r))"
proof (cases "map_of (routes r) path")
  case None
  with assms show ?thesis by (auto simp: route_def split: if_splits)
next
  case (Some prev)
  then have "path \<in> fst ` set (routes r)" by blast
  moreover from Some assms obtain m where "r' = Router (AList.update path m (routes r))"
    by (auto simp: route_def split: if_splits sum.splits)
  ultimately show ?thesis by (simp add: dom_update insert_absorb)
qed

lemma route_distinct:
  "route path mr r = Inr r' \<Longrightarrow> distinct (map fst (routes r)) \<Longrightarrow> distinct (map fst (routes r'))"
  by (auto simp: route_def distinct_update map_of_eq_None_iff
      split: if_splits option.splits sum.splits)

text \<open>
  C23: registering a second \<open>GET\<close> handler on a path that already has one panics with
  an overlapping method route, naming the method and the path.
\<close>

theorem route_twice_panics:
  assumes "p \<noteq> []" "hd p = CHR ''/''" "map_of (routes r) p = Some (get h1)"
  shows "route p (get h2) r = Inl (OverlappingMethodRoute ''GET'' p)"
  using assms by (simp add: route_def mr_merge_def get_def)

theorem route_twice_panics_witness:
  "route ''/'' (get (2::nat)) (Router [(''/'', get 1)]) = Inl (OverlappingMethodRoute ''GET'' ''/'')"
  using route_twice_panics [of "''/''" "Router [(''/'', get (1::nat))]" 1 2] by simp

end
