(* ===== verification/Metrics.thy ===== *)
theory Metrics
  imports Http
begin

text \<open>
  The metrics collector behind \<open>PrometheusMetricLayer::pair()\<close> (\<open>src/main.rs\<close>
  line 60): the layer's two callbacks, which record every request that passes through
  it, and the handle's \<open>render()\<close>, which the \<open>/metrics\<close> route returns (line 65).
  Three metric families, labelled by strings as the recorder keys them:
  \<^item> \<open>axum_http_requests_total\<close>, a counter per method, status and endpoint: a 64-bit
    atomic incremented by one per response (so it wraps at \<open>2^64\<close>);
  \<^item> \<open>axum_http_requests_pending\<close>, a gauge per method and endpoint: plus one when a
    request enters the layer, minus one when its response leaves it;
  \<^item> \<open>axum_http_requests_duration_seconds\<close>, a histogram per method, status and
    endpoint of the latencies, kept here as the list of observations in nanoseconds.
  The endpoint label is the route's path when the router matched one, else the exact
  request path. Each family is a table in the order its series were first recorded.
\<close>

type_synonym series_key = "string \<times> string \<times> string"
type_synonym gauge_key = "string \<times> string"
type_synonym counter = "64 word"

record metrics =
  requests_total :: "(series_key \<times> counter) list"
  requests_pending :: "(gauge_key \<times> int) list"
  requests_duration :: "(series_key \<times> nanos list) list"

definition metrics_empty :: metrics where
  "metrics_empty = \<lparr>requests_total = [], requests_pending = [], requests_duration = []\<rparr>"

subsection \<open>Recording\<close>

text \<open>
  The layer's \<open>prepare\<close> callback: the endpoint label (matched path, else the exact
  path), the method label, and the pending gauge raised by one. It returns the labels it
  recorded under, which the response callback reuses.
\<close>

definition endpoint_label :: "request \<Rightarrow> string option \<Rightarrow> string" where
  "endpoint_label req matched = (case matched of Some p \<Rightarrow> p | None \<Rightarrow> req_path req)"

definition metrics_prepare :: "request \<Rightarrow> string option \<Rightarrow> metrics \<Rightarrow> gauge_key \<times> metrics" where
  "metrics_prepare req matched m =
     (let g = (method_str (req_method req), endpoint_label req matched)
      in (g, m\<lparr>requests_pending := al_upd (requests_pending m) g 0 (\<lambda>v. v + 1)\<rparr>))"

text \<open>
  The layer's response callback: the pending gauge lowered by one, the latency
  observed in the histogram and the counter incremented, both under the response's
  status code.
\<close>

definition metrics_on_response :: "gauge_key \<Rightarrow> response \<Rightarrow> nanos \<Rightarrow> metrics \<Rightarrow> metrics" where
  "metrics_on_response g resp lat m =
     (let k = (fst g, dec_string (status resp), snd g)
      in m\<lparr>requests_pending := al_upd (requests_pending m) g 0 (\<lambda>v. v - 1),
           requests_duration := al_upd (requests_duration m) k [] (\<lambda>xs. xs @ [lat]),
           requests_total := al_upd (requests_total m) k 0 (\<lambda>v. v + 1)\<rparr>)"

definition total_of :: "metrics \<Rightarrow> series_key \<Rightarrow> counter" where
  "total_of m k = al_get (requests_total m) 0 k"

definition pending_of :: "metrics \<Rightarrow> gauge_key \<Rightarrow> int" where
  "pending_of m g = al_get (requests_pending m) 0 g"

definition observations_of :: "metrics \<Rightarrow> series_key \<Rightarrow> nanos list" where
  "observations_of m k = al_get (requests_duration m) [] k"

text \<open>Every table has one row per label set.\<close>

definition metrics_wf :: "metrics \<Rightarrow> bool" where
  "metrics_wf m \<longleftrightarrow>
     distinct (map fst (requests_total m)) \<and> distinct (map fst (requests_pending m)) \<and>
     distinct (map fst (requests_duration m))"

subsection \<open>Rendering\<close>

text \<open>
  The exporter's text format. A label value is escaped (backslash, double quote and
  newline get a backslash); a label is \<open>name="value"\<close>; a sample line is the metric
  name, an optional suffix, the labels in braces and the value; a family is its
  \<open># TYPE\<close> line, its samples and an empty line. A family with no series is not
  written.
\<close>

fun escape_label :: "string \<Rightarrow> string" where
  "escape_label [] = []"
| "escape_label (c # cs) =
     (if c = CHR 0x5C then CHR 0x5C # CHR 0x5C # escape_label cs
      else if c = CHR 0x22 then CHR 0x5C # CHR 0x22 # escape_label cs
      else if c = CHR 0x0A then CHR 0x5C # CHR ''n'' # escape_label cs
      else c # escape_label cs)"

definition label :: "string \<Rightarrow> string \<Rightarrow> string" where
  "label n v = n @ [CHR ''='', CHR 0x22] @ escape_label v @ [CHR 0x22]"

definition series_labels :: "series_key \<Rightarrow> string list" where
  "series_labels k =
     (case k of (me, st, ep) \<Rightarrow> [label ''method'' me, label ''status'' st, label ''endpoint'' ep])"

definition gauge_labels :: "gauge_key \<Rightarrow> string list" where
  "gauge_labels g = (case g of (me, ep) \<Rightarrow> [label ''method'' me, label ''endpoint'' ep])"

definition type_line :: "string \<Rightarrow> string \<Rightarrow> string" where
  "type_line name ty = ''# TYPE '' @ name @ '' '' @ ty @ [CHR 0x0A]"

definition metric_line :: "string \<Rightarrow> string \<Rightarrow> string list \<Rightarrow> string \<Rightarrow> string" where
  "metric_line name suffix labels v =
     name @ suffix @ (if labels = [] then [] else ''{'' @ join_on CHR '','' labels @ ''}'')
       @ '' '' @ v @ [CHR 0x0A]"

definition int_string :: "int \<Rightarrow> string" where
  "int_string i = (if i < 0 then CHR ''-'' # dec_string (nat (- i)) else dec_string (nat i))"

definition family :: "string \<Rightarrow> string \<Rightarrow> string list \<Rightarrow> string" where
  "family name ty samples =
     (if samples = [] then [] else type_line name ty @ concat samples @ [CHR 0x0A])"

definition total_name :: string where "total_name = ''axum_http_requests_total''"
definition pending_name :: string where "pending_name = ''axum_http_requests_pending''"
definition duration_name :: string where
  "duration_name = ''axum_http_requests_duration_seconds''"

text \<open>
  The histogram's buckets (\<open>SECONDS_DURATION_BUCKETS\<close>) as an upper bound in
  nanoseconds and the \<open>le\<close> label the exporter prints for it.
\<close>

definition duration_buckets :: "(nanos \<times> string) list" where
  "duration_buckets =
     [(5000000, ''0.005''), (10000000, ''0.01''), (25000000, ''0.025''), (50000000, ''0.05''),
      (100000000, ''0.1''), (250000000, ''0.25''), (500000000, ''0.5''), (1000000000, ''1''),
      (2500000000, ''2.5''), (5000000000, ''5''), (10000000000, ''10'')]"

definition bucket_count :: "nanos list \<Rightarrow> nanos \<Rightarrow> nat" where
  "bucket_count obs b = length (filter (\<lambda>x. x \<le> b) obs)"

definition histogram_samples :: "series_key \<Rightarrow> nanos list \<Rightarrow> string list" where
  "histogram_samples k obs =
     map (\<lambda>(b, le). metric_line duration_name ''_bucket'' (series_labels k @ [label ''le'' le])
                      (dec_string (bucket_count obs b))) duration_buckets
     @ [metric_line duration_name ''_bucket'' (series_labels k @ [label ''le'' ''+Inf''])
          (dec_string (length obs)),
        metric_line duration_name ''_count'' (series_labels k) (dec_string (length obs))]"

definition render :: "metrics \<Rightarrow> string" where
  "render m =
     family total_name ''counter''
       (map (\<lambda>(k, v). metric_line total_name [] (series_labels k) (dec_string (unat v)))
          (requests_total m))
     @ family pending_name ''gauge''
       (map (\<lambda>(g, v). metric_line pending_name [] (gauge_labels g) (int_string v))
          (requests_pending m))
     @ family duration_name ''histogram''
       (concat (map (\<lambda>(k, obs). histogram_samples k obs) (requests_duration m)))"

text \<open>
  The reading side of the text format (a scraper's unescaping), used to show that the
  escaping loses nothing: distinct label values render as distinct labels.
\<close>

fun unescape_label :: "string \<Rightarrow> string" where
  "unescape_label [] = []"
| "unescape_label (c # cs) =
     (if c = CHR 0x5C
      then (case cs of
              [] \<Rightarrow> [c]
            | d # ds \<Rightarrow> (if d = CHR ''n'' then CHR 0x0A else d) # unescape_label ds)
      else c # unescape_label cs)"

subsection \<open>Lemmas on recording\<close>

lemma metrics_prepare_key [simp]:
  "fst (metrics_prepare req mp m) = (method_str (req_method req), endpoint_label req mp)"
  by (simp add: metrics_prepare_def Let_def)

lemma metrics_prepare_pending [model_simps]:
  "pending_of (snd (metrics_prepare req mp m)) g' =
     pending_of m g' + (if g' = fst (metrics_prepare req mp m) then 1 else 0)"
  by (simp add: metrics_prepare_def pending_of_def Let_def)

lemma metrics_prepare_total [simp, model_simps]:
  "total_of (snd (metrics_prepare req mp m)) k = total_of m k"
  by (simp add: metrics_prepare_def total_of_def Let_def)

lemma metrics_prepare_observations [simp, model_simps]:
  "observations_of (snd (metrics_prepare req mp m)) k = observations_of m k"
  by (simp add: metrics_prepare_def observations_of_def Let_def)

lemma metrics_on_response_total [model_simps]:
  "total_of (metrics_on_response g resp lat m) k =
     total_of m k + (if k = (fst g, dec_string (status resp), snd g) then 1 else 0)"
  by (simp add: metrics_on_response_def total_of_def Let_def)

lemma metrics_on_response_pending [model_simps]:
  "pending_of (metrics_on_response g resp lat m) g' =
     pending_of m g' - (if g' = g then 1 else 0)"
  by (simp add: metrics_on_response_def pending_of_def Let_def)

lemma metrics_on_response_observations [model_simps]:
  "observations_of (metrics_on_response g resp lat m) k =
     observations_of m k @ (if k = (fst g, dec_string (status resp), snd g) then [lat] else [])"
  by (simp add: metrics_on_response_def observations_of_def Let_def)

lemma metrics_prepare_total_table [simp]:
  "requests_total (snd (metrics_prepare req mp m)) = requests_total m"
  by (simp add: metrics_prepare_def Let_def)

lemma metrics_on_response_total_keys [simp]:
  "fst ` set (requests_total (metrics_on_response g resp lat m)) =
     insert (fst g, dec_string (status resp), snd g) (fst ` set (requests_total m))"
  by (simp add: metrics_on_response_def Let_def)

lemma metrics_wf_empty [simp]: "metrics_wf metrics_empty"
  by (simp add: metrics_wf_def metrics_empty_def)

lemma metrics_prepare_wf [simp]: "metrics_wf (snd (metrics_prepare req mp m)) = metrics_wf m"
  by (simp add: metrics_wf_def metrics_prepare_def Let_def)

lemma metrics_on_response_wf [simp]:
  "metrics_wf (metrics_on_response g resp lat m) = metrics_wf m"
  by (simp add: metrics_wf_def metrics_on_response_def Let_def)

subsection \<open>Lemmas on rendering\<close>

lemma escape_label_quote:
  "escape_label a @ CHR 0x22 # r = escape_label b @ CHR 0x22 # r' \<Longrightarrow> a = b \<and> r = r'"
proof (induction a arbitrary: b)
  case Nil
  then show ?case by (cases b) (auto split: if_splits)
next
  case (Cons c cs)
  then show ?case by (cases b) (auto split: if_splits)
qed


lemma dec_string_inj: "dec_string a = dec_string b \<Longrightarrow> a = b"
  by (metis dec_value_dec_string)

lemma counter_line_inj:
  "metric_line total_name [] (series_labels k1) (dec_string n1) =
     metric_line total_name [] (series_labels k2) (dec_string n2) \<longleftrightarrow> k1 = k2 \<and> n1 = n2"
proof
  assume eq: "metric_line total_name [] (series_labels k1) (dec_string n1) =
     metric_line total_name [] (series_labels k2) (dec_string n2)"
  obtain m1 st1 ep1 m2 st2 ep2 where k: "k1 = (m1, st1, ep1)" "k2 = (m2, st2, ep2)"
    by (cases k1; cases k2) auto
  from eq have "escape_label m1 @ CHR 0x22 # CHR '','' # ''status='' @ CHR 0x22 # escape_label st1 @
      CHR 0x22 # CHR '','' # ''endpoint='' @ CHR 0x22 # escape_label ep1 @ CHR 0x22 # ''} '' @ dec_string n1 @ [CHR 0x0A] =
    escape_label m2 @ CHR 0x22 # CHR '','' # ''status='' @ CHR 0x22 # escape_label st2 @
      CHR 0x22 # CHR '','' # ''endpoint='' @ CHR 0x22 # escape_label ep2 @ CHR 0x22 # ''} '' @ dec_string n2 @ [CHR 0x0A]"
    by (simp add: k metric_line_def series_labels_def label_def total_name_def)
  then have "m1 = m2" and r1: "escape_label st1 @ CHR 0x22 # CHR '','' # ''endpoint='' @ CHR 0x22 # escape_label ep1 @ CHR 0x22 # ''} '' @ dec_string n1 @ [CHR 0x0A] =
      escape_label st2 @ CHR 0x22 # CHR '','' # ''endpoint='' @ CHR 0x22 # escape_label ep2 @ CHR 0x22 # ''} '' @ dec_string n2 @ [CHR 0x0A]"
    by (auto dest!: escape_label_quote)
  from r1 have "st1 = st2" and r2: "escape_label ep1 @ CHR 0x22 # ''} '' @ dec_string n1 @ [CHR 0x0A] =
      escape_label ep2 @ CHR 0x22 # ''} '' @ dec_string n2 @ [CHR 0x0A]"
    by (auto dest!: escape_label_quote)
  from r2 have "ep1 = ep2" "dec_string n1 = dec_string n2" by (auto dest!: escape_label_quote)
  with \<open>m1 = m2\<close> \<open>st1 = st2\<close> k show "k1 = k2 \<and> n1 = n2" by (auto dest: dec_string_inj)
qed simp


lemma unescape_escape_label [simp]: "unescape_label (escape_label s) = s"
  by (induction s) auto

lemma escape_label_inj: "escape_label a = escape_label b \<Longrightarrow> a = b"
  by (metis unescape_escape_label)

lemma family_member:
  "x \<in> set samples \<Longrightarrow> \<exists>pre suf. family name ty samples = pre @ x @ suf"
proof -
  assume "x \<in> set samples"
  then obtain xs ys where "samples = xs @ x # ys" by (meson split_list)
  then have "family name ty samples =
      (type_line name ty @ concat xs) @ x @ (concat ys @ [CHR 0x0A])"
    by (simp add: family_def)
  then show ?thesis by blast
qed

lemma render_total_line:
  assumes "(k, v) \<in> set (requests_total m)"
  shows "\<exists>pre suf. render m =
           pre @ metric_line total_name [] (series_labels k) (dec_string (unat v)) @ suf"
proof -
  let ?f = "\<lambda>(k, v). metric_line total_name [] (series_labels k) (dec_string (unat v))"
  from assms have "?f (k, v) \<in> set (map ?f (requests_total m))" by force
  then obtain pre suf where "family total_name ''counter'' (map ?f (requests_total m)) =
      pre @ ?f (k, v) @ suf"
    using family_member by blast
  then show ?thesis unfolding render_def by (metis (no_types, lifting) append.assoc case_prod_conv)
qed

end
