(* ===== verification/Duration.thy ===== *)
theory Duration
  imports Prelude
begin

text \<open>
  The latency the trace layer logs: \<open>on_response\<close> in \<open>src/main.rs\<close> (line 83) writes
  \<open>"response generated in {:?}"\<close> with the request's \<open>latency: Duration\<close>. A
  \<open>Duration\<close> is whole seconds (\<open>u64\<close>) and nanoseconds below a second (\<open>u32\<close>); its
  \<open>Debug\<close> format picks the largest unit among \<open>s\<close>, \<open>ms\<close>, \<open>\<mu>s\<close> and \<open>ns\<close> in which
  the value is at least one, prints the whole part and then the fraction digit by digit
  in a loop (\<open>fmt_decimal\<close>) that stops when the rest is zero or after nine digits, and
  rounds the last digit up if what is left is at least half of it. Without a precision
  (as here) the loop always exhausts the fraction, so the rounding never fires:
  \<open>frac_loop_exact\<close> below.
\<close>

record duration =
  dur_secs :: nat
  dur_nanos :: nat

definition nanos_per_sec :: nat where "nanos_per_sec = 1000000000"

text \<open>The latency of a request as \<open>Instant::elapsed\<close> returns it.\<close>

definition duration_of_nanos :: "nanos \<Rightarrow> duration" where
  "duration_of_nanos n = \<lparr>dur_secs = n div nanos_per_sec, dur_nanos = n mod nanos_per_sec\<rparr>"

text \<open>
  The digit loop of \<open>fmt_decimal\<close>: while the fraction is non-zero and fewer than
  nine digits are written, write \<open>fraction / divisor\<close>, keep \<open>fraction % divisor\<close>
  and divide the divisor by ten. It returns the digits, the fraction left over and the
  divisor reached.
\<close>

function frac_loop :: "nat \<Rightarrow> nat \<Rightarrow> nat \<Rightarrow> nat list \<times> nat \<times> nat" where
  "frac_loop frac d pos =
     (if 0 < frac \<and> pos < 9
      then (case frac_loop (frac mod d) (d div 10) (Suc pos) of
              (ds, r, d') \<Rightarrow> (frac div d # ds, r, d'))
      else ([], frac, d))"
  by pat_completeness auto
termination
  by (relation "measure (\<lambda>(frac, d, pos). 9 - pos)") auto

declare frac_loop.simps [simp del]

text \<open>Rounding up the written digits: a carry from the last digit towards the first.\<close>

fun carry_digits :: "nat list \<Rightarrow> nat list \<times> bool" where
  "carry_digits [] = ([], True)"
| "carry_digits (d # ds) =
     (if d < 9 then (Suc d # ds, False)
      else (case carry_digits ds of (ds', c) \<Rightarrow> (0 # ds', c)))"

definition micro_s :: string where
  "micro_s = [CHR 0xC2, CHR 0xB5, CHR ''s'']"

definition fmt_decimal :: "nat \<Rightarrow> nat \<Rightarrow> nat \<Rightarrow> string \<Rightarrow> string" where
  "fmt_decimal ip frac d unit =
     (case frac_loop frac d 0 of
        (ds, r, d') \<Rightarrow>
          (let (ds2, ip2) =
             (if 0 < r \<and> d' * 5 \<le> r
              then (case carry_digits (rev ds) of
                      (rs, c) \<Rightarrow> (rev rs, if c then ip + 1 else ip))
              else (ds, ip))
           in dec_string ip2 @ (if ds2 = [] then [] else CHR ''.'' # map digit_char ds2) @ unit))"

text \<open>\<open>impl Debug for Duration\<close>.\<close>

definition duration_debug :: "duration \<Rightarrow> string" where
  "duration_debug dur =
     (if 0 < dur_secs dur then fmt_decimal (dur_secs dur) (dur_nanos dur) 100000000 ''s''
      else if 1000000 \<le> dur_nanos dur
        then fmt_decimal (dur_nanos dur div 1000000) (dur_nanos dur mod 1000000) 100000 ''ms''
      else if 1000 \<le> dur_nanos dur
        then fmt_decimal (dur_nanos dur div 1000) (dur_nanos dur mod 1000) 100 micro_s
      else fmt_decimal (dur_nanos dur) 0 1 ''ns'')"

subsection \<open>Reading a latency back\<close>

text \<open>
  What a reader of the log recovers from a latency: the number before the unit, read as
  a decimal, scaled by the unit.
\<close>

definition digits_val :: "nat list \<Rightarrow> nat" where
  "digits_val ds = foldl (\<lambda>n d. 10 * n + d) 0 ds"

definition duration_units :: "(string \<times> nat) list" where
  "duration_units = [(''s'', 1000000000), (''ms'', 1000000), (micro_s, 1000), (''ns'', 1)]"

definition is_num_char :: "char \<Rightarrow> bool" where
  "is_num_char c \<longleftrightarrow> is_digit c \<or> c = CHR ''.''"

definition parse_duration_debug :: "string \<Rightarrow> nat option" where
  "parse_duration_debug s =
     (let num = takeWhile is_num_char s; unit = dropWhile is_num_char s
      in case map_of duration_units unit of
           None \<Rightarrow> None
         | Some scale \<Rightarrow>
             (case split_on CHR ''.'' num of
                [ip] \<Rightarrow> if ip \<noteq> [] then Some (dec_value ip * scale) else None
              | [ip, fp] \<Rightarrow>
                  if ip \<noteq> [] \<and> fp \<noteq> []
                  then Some (dec_value ip * scale + dec_value fp * scale div 10 ^ length fp)
                  else None
              | _ \<Rightarrow> None))"

subsection \<open>The digit loop is exact\<close>

lemma frac_loop_zero [simp]: "frac_loop 0 d pos = ([], 0, d)"
  by (simp add: frac_loop.simps)

lemma foldl_digits_acc:
  "foldl (\<lambda>n d. 10 * n + d) (a::nat) ds = a * 10 ^ length ds + foldl (\<lambda>n d. 10 * n + d) 0 ds"
proof (induction ds arbitrary: a)
  case Nil
  then show ?case by simp
next
  case (Cons x xs)
  have "foldl (\<lambda>n d. 10 * n + d) (10 * a + x) xs = (10 * a + x) * 10 ^ length xs + foldl (\<lambda>n d. 10 * n + d) 0 xs"
    by (rule Cons.IH)
  moreover have "foldl (\<lambda>n d. 10 * n + d) x xs = x * 10 ^ length xs + foldl (\<lambda>n d. 10 * n + d) 0 xs"
    by (rule Cons.IH)
  ultimately show ?case by (simp add: algebra_simps)
qed

lemma digits_val_Cons [simp]: "digits_val (d # ds) = d * 10 ^ length ds + digits_val ds"
  using foldl_digits_acc [of d ds] by (simp add: digits_val_def)

lemma digits_val_Nil [simp]: "digits_val [] = 0"
  by (simp add: digits_val_def)

text \<open>
  Started on a fraction below \<open>10 * 10^k\<close> with divisor \<open>10^k\<close> and room for
  \<open>k + 1\<close> more digits, the loop writes at most \<open>k + 1\<close> decimal digits that denote
  the fraction exactly, and leaves nothing over.
\<close>

lemma frac_loop_exact:
  "frac < 10 ^ Suc k \<Longrightarrow> k + pos < 9 \<Longrightarrow> frac_loop frac (10 ^ k) pos = (ds, r, d') \<Longrightarrow>
     r = 0 \<and> length ds \<le> Suc k \<and> list_all (\<lambda>x. x < 10) ds \<and>
     digits_val ds * 10 ^ (Suc k - length ds) = frac"
proof (induction k arbitrary: frac pos ds r d')
  case 0
  then show ?case
    by (cases "frac = 0") (auto simp: frac_loop.simps [of frac])
next
  case (Suc k)
  show ?case
  proof (cases "frac = 0")
    case True
    with Suc.prems show ?thesis by simp
  next
    case False
    obtain ds0 r0 d0 where rec: "frac_loop (frac mod 10 ^ Suc k) (10 ^ k) (Suc pos) = (ds0, r0, d0)"
      by (metis prod_cases3)
    with False Suc.prems(2,3) have ds: "ds = frac div 10 ^ Suc k # ds0" and "r = r0"
      by (auto simp: frac_loop.simps [of frac])
    have "frac mod 10 ^ Suc k < 10 ^ Suc k" by simp
    with Suc.prems(2) rec have ih: "r0 = 0 \<and> length ds0 \<le> Suc k \<and> list_all (\<lambda>x. x < 10) ds0 \<and>
        digits_val ds0 * 10 ^ (Suc k - length ds0) = frac mod 10 ^ Suc k"
      by (intro Suc.IH) auto
    have q: "frac div 10 ^ Suc k < 10"
      using Suc.prems(1) by (simp add: div_less_iff_less_mult mult.commute)
    have "10 ^ length ds0 * 10 ^ (Suc k - length ds0) = (10::nat) ^ Suc k"
      using ih by (simp add: power_add [symmetric])
    then have "digits_val ds * 10 ^ (Suc (Suc k) - length ds) =
        frac div 10 ^ Suc k * 10 ^ Suc k + digits_val ds0 * 10 ^ (Suc k - length ds0)"
      by (simp add: ds algebra_simps)
    also have "\<dots> = frac div 10 ^ Suc k * 10 ^ Suc k + frac mod 10 ^ Suc k"
      using ih by simp
    also have "\<dots> = frac" by (rule div_mult_mod_eq)
    finally show ?thesis using ih q ds \<open>r = r0\<close> by simp
  qed
qed

text \<open>So the rounding branch of \<open>fmt_decimal\<close> is dead and the output is exact.\<close>

lemma fmt_decimal_exact:
  assumes "frac < 10 ^ Suc k" and "k < 9"
  shows "\<exists>ds. fmt_decimal ip frac (10 ^ k) unit =
           dec_string ip @ (if ds = [] then [] else CHR ''.'' # map digit_char ds) @ unit \<and>
           length ds \<le> Suc k \<and> list_all (\<lambda>x. x < 10) ds \<and>
           digits_val ds * 10 ^ (Suc k - length ds) = frac"
proof -
  obtain ds r d' where l: "frac_loop frac (10 ^ k) 0 = (ds, r, d')"
    by (metis prod_cases3)
  with assms have "r = 0 \<and> length ds \<le> Suc k \<and> list_all (\<lambda>x. x < 10) ds \<and>
      digits_val ds * 10 ^ (Suc k - length ds) = frac"
    by (intro frac_loop_exact) auto
  with l show ?thesis by (auto simp: fmt_decimal_def)
qed

subsection \<open>The logged latency reads back as the measured one\<close>

lemma digits_are_num_chars:
  "list_all (\<lambda>x. x < 10) ds \<Longrightarrow> \<forall>c \<in> set (map digit_char ds). is_num_char c"
  by (auto simp: list_all_iff is_num_char_def)

lemma dot_not_digit [simp]: "\<not> is_digit CHR ''.''"
  by (simp add: is_digit_def)

lemma parse_number_unit:
  assumes unit: "map_of duration_units unit = Some scale" "unit \<noteq> []" "\<not> is_num_char (hd unit)"
    and ds: "list_all (\<lambda>x. x < 10) ds"
  shows "parse_duration_debug
           (dec_string ip @ (if ds = [] then [] else CHR ''.'' # map digit_char ds) @ unit) =
         Some (ip * scale + digits_val ds * scale div 10 ^ length ds)"
proof -
  let ?num = "dec_string ip @ (if ds = [] then [] else CHR ''.'' # map digit_char ds)"
  have num: "\<forall>c \<in> set ?num. is_num_char c"
    using dec_string_digits [of ip] digits_are_num_chars [OF ds]
    by (auto simp: list_all_iff is_num_char_def)
  from unit(2,3) obtain u us where u: "unit = u # us" "\<not> is_num_char u"
    by (cases unit) auto
  have tw: "takeWhile is_num_char (?num @ unit) = ?num"
    using num u by (simp add: takeWhile_append2)
  have dw: "dropWhile is_num_char (?num @ unit) = unit"
    using num u by (simp add: dropWhile_append2)
  have nodot: "CHR ''.'' \<notin> set (dec_string ip)" by (simp add: dec_string_no_char)
  have nodot2: "CHR ''.'' \<notin> set (map digit_char ds)"
  proof
    assume "CHR ''.'' \<in> set (map digit_char ds)"
    then obtain x where "x \<in> set ds" "CHR ''.'' = digit_char x" by auto
    with ds have "is_digit CHR ''.''" by (simp add: list_all_iff)
    then show False by simp
  qed
  have dv: "dec_value (map digit_char ds) = digits_val ds"
    using ds by (simp add: dec_value_map_digit_char digits_val_def)
  show ?thesis
  proof (cases "ds = []")
    case True
    with tw dw unit(1) nodot show ?thesis
      by (simp add: parse_duration_debug_def split_on_no_sep)
  next
    case False
    with tw dw unit(1) nodot nodot2 dv show ?thesis
      by (simp add: parse_duration_debug_def split_on_append_sep split_on_no_sep)
  qed
qed

lemma parse_fmt_decimal:
  assumes "frac < 10 ^ Suc k" "k < 9" "map_of duration_units unit = Some (10 ^ Suc k)"
    "unit \<noteq> []" "\<not> is_num_char (hd unit)"
  shows "parse_duration_debug (fmt_decimal ip frac (10 ^ k) unit) = Some (ip * 10 ^ Suc k + frac)"
proof -
  obtain ds where f: "fmt_decimal ip frac (10 ^ k) unit =
        dec_string ip @ (if ds = [] then [] else CHR ''.'' # map digit_char ds) @ unit"
      and len: "length ds \<le> Suc k" and dig: "list_all (\<lambda>x. x < 10) ds"
      and val: "digits_val ds * 10 ^ (Suc k - length ds) = frac"
    using fmt_decimal_exact [OF assms(1,2)] by blast
  have "(10::nat) ^ Suc k = 10 ^ length ds * 10 ^ (Suc k - length ds)"
    using len by (simp add: power_add [symmetric])
  then have "digits_val ds * 10 ^ Suc k div 10 ^ length ds = frac"
    using val by simp
  with f dig assms(3-5) show ?thesis by (simp add: parse_number_unit)
qed

lemma duration_units_ok:
  "map_of duration_units ''s'' = Some (10 ^ Suc 8)"
  "map_of duration_units ''ms'' = Some (10 ^ Suc 5)"
  "map_of duration_units micro_s = Some (10 ^ Suc 2)"
  "map_of duration_units ''ns'' = Some 1"
  "\<not> is_num_char (hd ''s'')" "\<not> is_num_char (hd ''ms'')"
  "\<not> is_num_char (hd micro_s)" "\<not> is_num_char (hd ''ns'')"
  by (simp_all add: duration_units_def micro_s_def is_num_char_def is_digit_def)

lemma parse_duration_debug_of_nanos:
  "parse_duration_debug (duration_debug (duration_of_nanos n)) = Some n"
proof -
  let ?s = "n div 1000000000" and ?ns = "n mod 1000000000"
  have d: "dur_secs (duration_of_nanos n) = ?s" "dur_nanos (duration_of_nanos n) = ?ns"
    by (simp_all add: duration_of_nanos_def nanos_per_sec_def)
  show ?thesis
  proof (cases "0 < ?s")
    case True
    have "parse_duration_debug (fmt_decimal ?s ?ns (10 ^ 8) ''s'') = Some (?s * 10 ^ Suc 8 + ?ns)"
      by (rule parse_fmt_decimal) (simp_all add: duration_units_def is_num_char_def is_digit_def micro_s_def)
    with True d show ?thesis by (simp add: duration_debug_def)
  next
    case False
    then have n: "?ns = n" by simp
    consider (ms) "1000000 \<le> n" | (us) "n < 1000000" "1000 \<le> n" | (ns) "n < 1000"
      by linarith
    then show ?thesis
    proof cases
      case ms
      have "parse_duration_debug (fmt_decimal (n div 1000000) (n mod 1000000) (10 ^ 5) ''ms'') =
          Some (n div 1000000 * 10 ^ Suc 5 + n mod 1000000)"
        by (rule parse_fmt_decimal) (simp_all add: duration_units_def is_num_char_def is_digit_def micro_s_def)
      with ms False d n show ?thesis by (simp add: duration_debug_def)
    next
      case us
      have "parse_duration_debug (fmt_decimal (n div 1000) (n mod 1000) (10 ^ 2) micro_s) =
          Some (n div 1000 * 10 ^ Suc 2 + n mod 1000)"
        by (rule parse_fmt_decimal) (simp_all add: duration_units_def is_num_char_def is_digit_def micro_s_def)
      with us False d n show ?thesis by (simp add: duration_debug_def)
    next
      case ns
      have "fmt_decimal n 0 1 ''ns'' = dec_string n @ ''ns''"
        by (simp add: fmt_decimal_def)
      moreover have "parse_duration_debug (dec_string n @ ''ns'') = Some n"
        using parse_number_unit [where ds = "[]" and scale = 1 and unit = "''ns''" and ip = n]
        by (simp add: duration_units_def is_num_char_def is_digit_def micro_s_def)
      ultimately show ?thesis using ns False d n by (simp add: duration_debug_def)
    qed
  qed
qed

text \<open>
  C9: the latency that the trace layer writes to the log, \<open>{:?}\<close> of the
  \<open>Duration\<close> measured for a request, reads back as exactly the measured number of
  nanoseconds, whatever unit it is printed in.
\<close>

theorem duration_debug_roundtrip:
  "parse_duration_debug (duration_debug (duration_of_nanos n)) = Some n"
  by (rule parse_duration_debug_of_nanos)

subsection \<open>The characters of a printed latency\<close>

lemma fmt_decimal_chars:
  assumes "frac < 10 ^ Suc k" "k < 9" "c \<in> set (fmt_decimal ip frac (10 ^ k) unit)"
  shows "is_num_char c \<or> c \<in> set unit"
proof -
  obtain ds where f: "fmt_decimal ip frac (10 ^ k) unit =
      dec_string ip @ (if ds = [] then [] else CHR ''.'' # map digit_char ds) @ unit"
    and ds: "list_all (\<lambda>x. x < 10) ds"
    using fmt_decimal_exact [OF assms(1,2)] by blast
  have "\<forall>c \<in> set (dec_string ip). is_num_char c"
    using dec_string_digits [of ip] by (auto simp: list_all_iff is_num_char_def)
  with digits_are_num_chars [OF ds] assms(3) show ?thesis
    by (auto simp: f is_num_char_def split: if_splits)
qed

lemma duration_debug_chars:
  assumes "c \<in> set (duration_debug (duration_of_nanos n))"
  shows "is_num_char c \<or> c \<in> set (''smn'' @ micro_s)"
proof -
  let ?s = "n div 1000000000" and ?ns = "n mod 1000000000"
  have d: "dur_secs (duration_of_nanos n) = ?s" "dur_nanos (duration_of_nanos n) = ?ns"
    by (simp_all add: duration_of_nanos_def nanos_per_sec_def)
  consider (s) "0 < ?s" | (ms) "?s = 0" "1000000 \<le> ?ns" | (us) "?s = 0" "?ns < 1000000" "1000 \<le> ?ns"
    | (ns) "?s = 0" "?ns < 1000" by linarith
  then show ?thesis
  proof cases
    case s
    then have "c \<in> set (fmt_decimal ?s ?ns (10 ^ 8) ''s'')" using assms d by (simp add: duration_debug_def)
    from fmt_decimal_chars [OF _ _ this] show ?thesis by auto
  next
    case ms
    then have "c \<in> set (fmt_decimal (?ns div 1000000) (?ns mod 1000000) (10 ^ 5) ''ms'')"
      using assms d by (simp add: duration_debug_def)
    from fmt_decimal_chars [OF _ _ this] show ?thesis by auto
  next
    case us
    then have "c \<in> set (fmt_decimal (?ns div 1000) (?ns mod 1000) (10 ^ 2) micro_s)"
      using assms d by (simp add: duration_debug_def)
    from fmt_decimal_chars [OF _ _ this] show ?thesis by auto
  next
    case ns
    then have "c \<in> set (fmt_decimal ?ns 0 (10 ^ 0) ''ns'')" using assms d by (simp add: duration_debug_def)
    from fmt_decimal_chars [OF _ _ this] show ?thesis by auto
  qed
qed

end
