(* ===== verification/App.thy ===== *)
theory App
  imports Router Metrics
begin

text \<open>
  The application of \<open>src/main.rs\<close>: the handler \<open>hello_world\<close> (lines 100 to 102),
  the closure \<open>|| async move { metric_handle.render() }\<close> (line 65), and the router
  built from them (lines 63 to 65). The metrics handler reads the recorder's state, so a
  handler runs on the current \<open>metrics\<close>.
\<close>

datatype app_handler = HelloWorld | MetricsRender

definition hello_world :: string where
  "hello_world = ''Hello World!''"

fun run_handler :: "metrics \<Rightarrow> app_handler \<Rightarrow> request \<Rightarrow> response" where
  "run_handler m HelloWorld req = str_into_response hello_world"
| "run_handler m MetricsRender req = str_into_response (render m)"

text \<open>
  \<open>Router::new().route("/", get(hello_world)).route("/metrics", get(...))\<close>: each
  \<open>route\<close> may panic, and the first panic ends \<open>main\<close>.
\<close>

definition build_app :: "route_error + app_handler router" where
  "build_app =
     (case route ''/'' (get HelloWorld) router_new of
        Inl e \<Rightarrow> Inl e
      | Inr r \<Rightarrow> route ''/metrics'' (get MetricsRender) r)"

definition app_router :: "app_handler router" where
  "app_router = Router [(''/'', get HelloWorld), (''/metrics'', get MetricsRender)]"

text \<open>One request through the router, the handlers reading metrics \<open>m\<close>.\<close>

definition app_call :: "metrics \<Rightarrow> request \<Rightarrow> string option \<times> response" where
  "app_call m req = dispatch (run_handler m) app_router req"

subsection \<open>Lemmas\<close>

lemma routes_app_router [simp]:
  "routes app_router = [(''/'', get HelloWorld), (''/metrics'', get MetricsRender)]"
  by (simp add: app_router_def)

lemma app_call_root:
  "req_path req = ''/'' \<Longrightarrow>
     app_call m req = (Some ''/'', mr_call (run_handler m) (get HelloWorld) req)"
  by (simp add: app_call_def dispatch_def)

lemma app_call_metrics:
  "req_path req = ''/metrics'' \<Longrightarrow>
     app_call m req = (Some ''/metrics'', mr_call (run_handler m) (get MetricsRender) req)"
  by (simp add: app_call_def dispatch_def)

lemma app_call_other:
  "req_path req \<notin> {''/'', ''/metrics''} \<Longrightarrow> app_call m req = (None, not_found)"
  by (simp add: app_call_def dispatch_def)

lemma app_call_matched:
  "fst (app_call m req) = (if req_path req \<in> {''/'', ''/metrics''} then Some (req_path req) else None)"
  by (simp add: app_call_def dispatch_def)

lemma app_matched_indep: "fst (app_call m req) = fst (app_call m' req)"
  by (simp add: app_call_matched)

lemma app_call_status_cases:
  "status (snd (app_call m req)) \<in> {200, 404, 405}"
  by (auto simp: app_call_def dispatch_def mr_call_get)

end
