(* ===== verification/Tracing.thy ===== *)
theory Tracing
  imports Duration "HOL-Library.Option_ord"
begin

text \<open>
  The vocabulary of \<open>tracing\<close> that the program uses: severity levels, level filters,
  and the events the \<open>TraceLayer::new_for_http()\<close> of \<open>src/main.rs\<close> (lines 81 to 84)
  emits per request. A level is greater when it is more verbose (\<open>ERROR\<close> least,
  \<open>TRACE\<close> greatest), as in \<open>tracing\<close>; a \<open>LevelFilter\<close> is a level or \<open>OFF\<close>, here
  \<open>level option\<close> with \<open>None\<close> for \<open>OFF\<close>, ordered by \<open>Option_ord\<close> so that \<open>OFF\<close> is
  below every level. A filter enables a level at or below it.
\<close>

datatype level = Trace | Debug | Info | Warn | Error

fun level_rank :: "level \<Rightarrow> nat" where
  "level_rank Error = 1"
| "level_rank Warn = 2"
| "level_rank Info = 3"
| "level_rank Debug = 4"
| "level_rank Trace = 5"

lemma level_rank_inj: "level_rank a = level_rank b \<Longrightarrow> a = b"
  by (cases a; cases b) auto

instantiation level :: linorder
begin

definition less_eq_level :: "level \<Rightarrow> level \<Rightarrow> bool" where
  "less_eq_level a b \<longleftrightarrow> level_rank a \<le> level_rank b"

definition less_level :: "level \<Rightarrow> level \<Rightarrow> bool" where
  "less_level a b \<longleftrightarrow> level_rank a < level_rank b"

instance
proof
  fix a b c :: level
  show "(a < b) = (a \<le> b \<and> \<not> b \<le> a)" by (auto simp: less_eq_level_def less_level_def)
  show "a \<le> a" by (simp add: less_eq_level_def)
  show "a \<le> b \<Longrightarrow> b \<le> c \<Longrightarrow> a \<le> c" by (simp add: less_eq_level_def)
  show "a \<le> b \<Longrightarrow> b \<le> a \<Longrightarrow> a = b" by (simp add: less_eq_level_def level_rank_inj)
  show "a \<le> b \<or> b \<le> a" by (auto simp: less_eq_level_def)
qed

end

type_synonym level_filter = "level option"

definition level_enabled :: "level_filter \<Rightarrow> level \<Rightarrow> bool" where
  "level_enabled f l \<longleftrightarrow> Some l \<le> f"

text \<open>
  An event: when, how severe, from which module (its target), the names of its fields
  (a level filter may select on them), the values of its fields other than the message
  as the formatter displays them, in the order the macro records them, and its message
  (which every macro call here records first, before the other fields).
\<close>

record event =
  ev_time :: nanos
  ev_level :: level
  ev_target :: string
  ev_fields :: "string list"
  ev_values :: "(string \<times> string) list"
  ev_message :: string

text \<open>
  The three events of the trace layer as the program configures it:
  \<^item> \<open>DefaultOnRequest\<close>: \<open>DEBUG\<close> "started processing request";
  \<^item> the \<open>on_response\<close> closure of line 82: \<open>INFO\<close> "response generated in {:?}" with
    the latency, from the program's own crate \<open>axum_test\<close>;
  \<^item> \<open>DefaultOnFailure\<close>, for a response that \<open>ServerErrorsAsFailures\<close> classifies as a
    failure (a 5xx status): \<open>ERROR\<close> "response failed".
\<close>

definition crate_target :: string where
  "crate_target = ''axum_test''"

definition on_request_event :: "nanos \<Rightarrow> event" where
  "on_request_event t =
     \<lparr>ev_time = t, ev_level = Debug, ev_target = ''tower_http::trace::on_request'',
      ev_fields = [''message''], ev_values = [], ev_message = ''started processing request''\<rparr>"

definition response_message :: "nanos \<Rightarrow> string" where
  "response_message lat = ''response generated in '' @ duration_debug (duration_of_nanos lat)"

definition on_response_event :: "nanos \<Rightarrow> nanos \<Rightarrow> event" where
  "on_response_event t lat =
     \<lparr>ev_time = t, ev_level = Info, ev_target = crate_target, ev_fields = [''message''],
      ev_values = [], ev_message = response_message lat\<rparr>"

text \<open>
  The fields of \<open>DefaultOnFailure\<close>: the \<open>Display\<close> of \<open>ServerErrorsFailureClass::StatusCode\<close>,
  "Status code: " and the status (its number and canonical reason, the 5xx part of
  \<open>StatusCode::canonical_reason\<close> since only a 5xx is a failure), and the \<open>Display\<close> of
  \<open>Latency\<close> in the default unit, whole milliseconds and " ms".
\<close>

definition server_error_reasons :: "(nat \<times> string) list" where
  "server_error_reasons =
     [(500, ''Internal Server Error''), (501, ''Not Implemented''), (502, ''Bad Gateway''),
      (503, ''Service Unavailable''), (504, ''Gateway Timeout''),
      (505, ''HTTP Version Not Supported''), (506, ''Variant Also Negotiates''),
      (507, ''Insufficient Storage''), (508, ''Loop Detected''), (510, ''Not Extended''),
      (511, ''Network Authentication Required'')]"

definition status_display :: "nat \<Rightarrow> string" where
  "status_display c =
     dec_string c @ '' '' @
       (case map_of server_error_reasons c of Some r \<Rightarrow> r | None \<Rightarrow> ''<unknown status code>'')"

definition latency_millis :: "nanos \<Rightarrow> string" where
  "latency_millis lat = dec_string (lat div 1000000) @ '' ms''"

definition on_failure_event :: "nanos \<Rightarrow> nat \<Rightarrow> nanos \<Rightarrow> event" where
  "on_failure_event t c lat =
     \<lparr>ev_time = t, ev_level = Error, ev_target = ''tower_http::trace::on_failure'',
      ev_fields = [''message'', ''classification'', ''latency''],
      ev_values = [(''classification'', ''Status code: '' @ status_display c),
                   (''latency'', latency_millis lat)],
      ev_message = ''response failed''\<rparr>"

definition is_server_error :: "nat \<Rightarrow> bool" where
  "is_server_error c \<longleftrightarrow> 500 \<le> c \<and> c < 600"

subsection \<open>Lemmas\<close>

lemma level_enabled_OFF [simp]: "\<not> level_enabled None l"
  by (simp add: level_enabled_def)

lemma level_enabled_Some [simp]: "level_enabled (Some f) l \<longleftrightarrow> l \<le> f"
  by (simp add: level_enabled_def)

lemma level_le_Error [simp]: "l \<le> Error \<longleftrightarrow> l = Error"
  by (cases l) (auto simp: less_eq_level_def)

lemma Error_le [simp]: "Error \<le> l"
  by (cases l) (auto simp: less_eq_level_def)

end
