(* ===== verification/Pipeline.thy ===== *)
theory Pipeline
  imports App Tracing
begin

text \<open>
  The request pipeline of \<open>src/main.rs\<close> (lines 78 to 90):
  \<open>.layer(ServiceBuilder::new().layer(TraceLayer...).layer(prometheus_layer))\<close> puts
  the trace layer outside the metrics layer, around every route and the fallback. One
  request goes through three steps, in this order:
  \<^item> \<open>arrive\<close>: the router matches the path; the trace layer notes the start time and
    emits its \<open>on_request\<close> event; the metrics layer raises the pending gauge;
  \<^item> \<open>handle\<close>: the handler (or a fallback) computes the response, the \<open>/metrics\<close>
    handler rendering the metrics as they are at that moment;
  \<^item> \<open>finish\<close>: the metrics layer lowers the gauge and records the counter and the
    latency; the trace layer emits the \<open>on_response\<close> event with the latency and, for a
    5xx, the \<open>on_failure\<close> event.
  Requests run concurrently, each step of each request atomic (the recorder's updates are
  atomic increments): \<open>server_step\<close> lets any request in flight take its next step, and
  \<open>reachable\<close> collects the states of every interleaving. \<open>serve\<close> is one request
  alone. Latencies are the end time minus the start time, saturating at zero as
  \<open>Instant::elapsed\<close> does; both layers measure the same interval here.
\<close>

record flight =
  fl_req :: request
  fl_start :: nanos
  fl_gauge :: gauge_key
  fl_matched :: "string option"
  fl_resp :: "response option"

record exchange =
  ex_req :: request
  ex_matched :: "string option"
  ex_resp :: response
  ex_latency :: nanos

record server =
  srv_metrics :: metrics
  srv_events :: "event list"
  srv_inflight :: "(nat \<times> flight) list"
  srv_done :: "exchange list"
  srv_next :: nat

definition server_init :: server where
  "server_init =
     \<lparr>srv_metrics = metrics_empty, srv_events = [], srv_inflight = [], srv_done = [],
      srv_next = 0\<rparr>"

definition arrive :: "request \<Rightarrow> nanos \<Rightarrow> server \<Rightarrow> server" where
  "arrive req t s =
     (let matched = fst (app_call (srv_metrics s) req);
          (g, m) = metrics_prepare req matched (srv_metrics s)
      in s\<lparr>srv_metrics := m,
           srv_events := srv_events s @ [on_request_event t],
           srv_inflight := srv_inflight s @
             [(srv_next s, \<lparr>fl_req = req, fl_start = t, fl_gauge = g, fl_matched = matched,
                            fl_resp = None\<rparr>)],
           srv_next := Suc (srv_next s)\<rparr>)"

definition handle :: "nat \<Rightarrow> server \<Rightarrow> server option" where
  "handle i s =
     (case map_of (srv_inflight s) i of
        None \<Rightarrow> None
      | Some f \<Rightarrow>
          (case fl_resp f of
             Some _ \<Rightarrow> None
           | None \<Rightarrow>
               Some (s\<lparr>srv_inflight := AList.update i
                   (f\<lparr>fl_resp := Some (snd (app_call (srv_metrics s) (fl_req f)))\<rparr>)
                   (srv_inflight s)\<rparr>)))"

definition finish_events :: "nanos \<Rightarrow> nanos \<Rightarrow> response \<Rightarrow> event list" where
  "finish_events t lat resp =
     on_response_event t lat #
       (if is_server_error (status resp) then [on_failure_event t (status resp) lat] else [])"

definition finish :: "nat \<Rightarrow> nanos \<Rightarrow> server \<Rightarrow> server option" where
  "finish i t s =
     (case map_of (srv_inflight s) i of
        None \<Rightarrow> None
      | Some f \<Rightarrow>
          (case fl_resp f of
             None \<Rightarrow> None
           | Some resp \<Rightarrow>
               (let lat = t - fl_start f
                in Some (s\<lparr>srv_metrics := metrics_on_response (fl_gauge f) resp lat (srv_metrics s),
                           srv_events := srv_events s @ finish_events t lat resp,
                           srv_inflight := AList.delete i (srv_inflight s),
                           srv_done := srv_done s @
                             [\<lparr>ex_req = fl_req f, ex_matched = fl_matched f, ex_resp = resp,
                               ex_latency = lat\<rparr>]\<rparr>))))"

text \<open>One request served alone, from arrival at \<open>t0\<close> to completion at \<open>t1\<close>.\<close>

definition serve :: "request \<Rightarrow> nanos \<Rightarrow> nanos \<Rightarrow> server \<Rightarrow> (response \<times> server) option" where
  "serve req t0 t1 s =
     (let i = srv_next s
      in case handle i (arrive req t0 s) of
           None \<Rightarrow> None
         | Some s1 \<Rightarrow>
             (case finish i t1 s1 of
                None \<Rightarrow> None
              | Some s2 \<Rightarrow> Some (ex_resp (last (srv_done s2)), s2)))"

inductive server_step :: "server \<Rightarrow> server \<Rightarrow> bool" where
  arrive: "server_step s (arrive req t s)"
| handle: "handle i s = Some s' \<Longrightarrow> server_step s s'"
| finish: "finish i t s = Some s' \<Longrightarrow> server_step s s'"

inductive reachable :: "server \<Rightarrow> bool" where
  init: "reachable server_init"
| step: "reachable s \<Longrightarrow> server_step s s' \<Longrightarrow> reachable s'"

inductive_cases server_stepE: "server_step s s'"

text \<open>The labels under which a request is counted.\<close>

definition gauge_of :: "request \<Rightarrow> string option \<Rightarrow> gauge_key" where
  "gauge_of req matched = (method_str (req_method req), endpoint_label req matched)"

definition ex_key :: "exchange \<Rightarrow> series_key" where
  "ex_key e =
     (method_str (req_method (ex_req e)), dec_string (status (ex_resp e)),
      endpoint_label (ex_req e) (ex_matched e))"

definition in_flight_with :: "server \<Rightarrow> gauge_key \<Rightarrow> nat" where
  "in_flight_with s g = length (filter (\<lambda>(i, f). fl_gauge f = g) (srv_inflight s))"

definition done_with :: "server \<Rightarrow> series_key \<Rightarrow> nat" where
  "done_with s k = length (filter (\<lambda>e. ex_key e = k) (srv_done s))"

definition is_response_event :: "event \<Rightarrow> bool" where
  "is_response_event e \<longleftrightarrow> ev_level e = Info \<and> ev_target e = crate_target"

text \<open>
  The invariant of the pipeline: the requests in flight have distinct identifiers below
  the next one, each carries the gauge labels of its request; every counter series
  holds the number of completed requests with its labels (modulo \<open>2^64\<close>, the width
  of the atomic counter); every pending gauge holds the number of requests in flight
  with its labels; and there is one \<open>on_response\<close> event per completed request.
\<close>

definition inflight_ok :: "server \<Rightarrow> bool" where
  "inflight_ok s \<longleftrightarrow>
     distinct (map fst (srv_inflight s)) \<and> (\<forall>i \<in> fst ` set (srv_inflight s). i < srv_next s) \<and>
     (\<forall>(i, f) \<in> set (srv_inflight s). fl_gauge f = gauge_of (fl_req f) (fl_matched f))"

definition totals_ok :: "server \<Rightarrow> bool" where
  "totals_ok s \<longleftrightarrow> (\<forall>k. total_of (srv_metrics s) k = of_nat (done_with s k))"

definition pending_ok :: "server \<Rightarrow> bool" where
  "pending_ok s \<longleftrightarrow> (\<forall>g. pending_of (srv_metrics s) g = int (in_flight_with s g))"

definition events_ok :: "server \<Rightarrow> bool" where
  "events_ok s \<longleftrightarrow> length (filter is_response_event (srv_events s)) = length (srv_done s)"

definition keys_ok :: "server \<Rightarrow> bool" where
  "keys_ok s \<longleftrightarrow>
     metrics_wf (srv_metrics s) \<and> fst ` set (requests_total (srv_metrics s)) = ex_key ` set (srv_done s)"

definition server_inv :: "server \<Rightarrow> bool" where
  "server_inv s \<longleftrightarrow> inflight_ok s \<and> totals_ok s \<and> pending_ok s \<and> events_ok s \<and> keys_ok s"

text \<open>
  The application answers only 200, 404 and 405, so the trace layer never classifies a
  response as a failure, and no event is an \<open>ERROR\<close>.
\<close>

text \<open>
  What the two observers recorded of the completed requests: the histogram of each label
  set holds their latencies, and the trace layer's response lines carry them, both in
  completion order.
\<close>

definition observers_ok :: "server \<Rightarrow> bool" where
  "observers_ok s \<longleftrightarrow>
     (\<forall>k. observations_of (srv_metrics s) k = map ex_latency (filter (\<lambda>e. ex_key e = k) (srv_done s))) \<and>
     map ev_message (filter is_response_event (srv_events s)) =
       map (\<lambda>e. response_message (ex_latency e)) (srv_done s)"

definition no_error_ok :: "server \<Rightarrow> bool" where
  "no_error_ok s \<longleftrightarrow>
     (\<forall>(i, f) \<in> set (srv_inflight s). \<forall>r. fl_resp f = Some r \<longrightarrow> status r \<in> {200, 404, 405}) \<and>
     (\<forall>ev \<in> set (srv_events s). ev_level ev \<noteq> Error)"

subsection \<open>The steps, unfolded\<close>

lemma arrive_sel [simp]:
  "srv_metrics (arrive req t s) =
     snd (metrics_prepare req (fst (app_call (srv_metrics s) req)) (srv_metrics s))"
  "srv_events (arrive req t s) = srv_events s @ [on_request_event t]"
  "srv_inflight (arrive req t s) = srv_inflight s @
     [(srv_next s, \<lparr>fl_req = req, fl_start = t,
        fl_gauge = gauge_of req (fst (app_call (srv_metrics s) req)),
        fl_matched = fst (app_call (srv_metrics s) req), fl_resp = None\<rparr>)]"
  "srv_done (arrive req t s) = srv_done s"
  "srv_next (arrive req t s) = Suc (srv_next s)"
  by (simp_all add: arrive_def Let_def metrics_prepare_def gauge_of_def)

lemma handle_Some:
  "handle i s = Some s' \<Longrightarrow>
     \<exists>f. map_of (srv_inflight s) i = Some f \<and> fl_resp f = None \<and>
       s' = s\<lparr>srv_inflight := AList.update i
              (f\<lparr>fl_resp := Some (snd (app_call (srv_metrics s) (fl_req f)))\<rparr>) (srv_inflight s)\<rparr>"
  by (auto simp: handle_def split: option.splits)

lemma finish_Some:
  "finish i t s = Some s' \<Longrightarrow>
     \<exists>f resp. map_of (srv_inflight s) i = Some f \<and> fl_resp f = Some resp \<and>
       s' = s\<lparr>srv_metrics := metrics_on_response (fl_gauge f) resp (t - fl_start f) (srv_metrics s),
              srv_events := srv_events s @ finish_events t (t - fl_start f) resp,
              srv_inflight := AList.delete i (srv_inflight s),
              srv_done := srv_done s @
                [\<lparr>ex_req = fl_req f, ex_matched = fl_matched f, ex_resp = resp,
                  ex_latency = t - fl_start f\<rparr>]\<rparr>"
  by (auto simp: finish_def Let_def split: option.splits)

lemma response_events [simp]:
  "\<not> is_response_event (on_request_event t)"
  "is_response_event (on_response_event t lat)"
  "\<not> is_response_event (on_failure_event t c l)"
  by (simp_all add: is_response_event_def on_request_event_def on_response_event_def
      on_failure_event_def crate_target_def)

lemma finish_events_response [simp]:
  "length (filter is_response_event (finish_events t lat resp)) = 1"
  by (simp add: finish_events_def)

subsection \<open>Each step keeps the invariant\<close>

lemma server_inv_init: "server_inv server_init"
  by (simp add: server_inv_def inflight_ok_def totals_ok_def pending_ok_def events_ok_def keys_ok_def metrics_wf_def
      server_init_def metrics_empty_def total_of_def pending_of_def done_with_def in_flight_with_def)

lemma arrive_inv:
  assumes "server_inv s"
  shows "server_inv (arrive req t s)"
proof -
  let ?mp = "fst (app_call (srv_metrics s) req)"
  from assms have fl: "inflight_ok s" and tot: "totals_ok s" and pen: "pending_ok s"
    and ev: "events_ok s"
    by (simp_all add: server_inv_def)
  from fl have "srv_next s \<notin> fst ` set (srv_inflight s)" by (auto simp: inflight_ok_def)
  with fl have "inflight_ok (arrive req t s)" by (auto simp: inflight_ok_def)
  moreover from tot have "totals_ok (arrive req t s)"
    by (simp add: totals_ok_def done_with_def)
  moreover have "pending_ok (arrive req t s)"
  proof -
    have "fst (metrics_prepare req ?mp (srv_metrics s)) = gauge_of req ?mp"
      by (simp add: gauge_of_def)
    with pen show ?thesis
      by (auto simp: pending_ok_def in_flight_with_def metrics_prepare_pending)
  qed
  moreover from ev have "events_ok (arrive req t s)" by (simp add: events_ok_def)
  moreover from assms have "keys_ok (arrive req t s)" by (simp add: server_inv_def keys_ok_def)
  ultimately show ?thesis by (simp add: server_inv_def)
qed

lemma handle_inv:
  assumes "server_inv s" and "handle i s = Some s'"
  shows "server_inv s'"
proof -
  from assms(2) obtain f where f: "map_of (srv_inflight s) i = Some f" "fl_resp f = None"
    and s': "s' = s\<lparr>srv_inflight := AList.update i
              (f\<lparr>fl_resp := Some (snd (app_call (srv_metrics s) (fl_req f)))\<rparr>) (srv_inflight s)\<rparr>"
    by (blast dest: handle_Some)
  let ?f' = "f\<lparr>fl_resp := Some (snd (app_call (srv_metrics s) (fl_req f)))\<rparr>"
  from assms(1) have fl: "inflight_ok s" by (simp add: server_inv_def)
  have key: "i \<in> fst ` set (srv_inflight s)" using f(1) by blast
  have "(i, f) \<in> set (srv_inflight s)" using f(1) by (rule map_of_SomeD)
  with fl have gf: "fl_gauge f = gauge_of (fl_req f) (fl_matched f)" by (auto simp: inflight_ok_def)
  have "inflight_ok s'"
    using fl key gf set_update_subset [of i ?f' "srv_inflight s"]
    by (auto simp: inflight_ok_def s' distinct_update dom_update insert_absorb)
  moreover have "in_flight_with s' g = in_flight_with s g" for g
    unfolding in_flight_with_def s' by (simp add: length_filter_update [OF f(1)])
  ultimately show ?thesis
    using assms(1) by (simp add: server_inv_def totals_ok_def pending_ok_def events_ok_def
        keys_ok_def done_with_def s')
qed

lemma finish_inv:
  assumes "server_inv s" and "finish i t s = Some s'"
  shows "server_inv s'"
proof -
  from assms(2) obtain f resp where f: "map_of (srv_inflight s) i = Some f" "fl_resp f = Some resp"
    and s': "s' = s\<lparr>srv_metrics := metrics_on_response (fl_gauge f) resp (t - fl_start f) (srv_metrics s),
              srv_events := srv_events s @ finish_events t (t - fl_start f) resp,
              srv_inflight := AList.delete i (srv_inflight s),
              srv_done := srv_done s @
                [\<lparr>ex_req = fl_req f, ex_matched = fl_matched f, ex_resp = resp,
                  ex_latency = t - fl_start f\<rparr>]\<rparr>"
    by (blast dest: finish_Some)
  from assms(1) have fl: "inflight_ok s" and tot: "totals_ok s" and pen: "pending_ok s"
    and ev: "events_ok s"
    by (simp_all add: server_inv_def)
  have "(i, f) \<in> set (srv_inflight s)" using f(1) by (rule map_of_SomeD)
  with fl have gf: "fl_gauge f = gauge_of (fl_req f) (fl_matched f)" by (auto simp: inflight_ok_def)
  have dist: "distinct (map fst (srv_inflight s))" using fl by (simp add: inflight_ok_def)
  have "inflight_ok s'"
    using fl set_delete_subset [of i "srv_inflight s"] dom_delete_subset [of i "srv_inflight s"]
    by (auto simp: inflight_ok_def s' distinct_delete)
  moreover have "totals_ok s'"
    using tot gf by (auto simp: totals_ok_def s' done_with_def metrics_on_response_total
        ex_key_def gauge_of_def)
  moreover have "pending_ok s'"
  proof -
    have "in_flight_with s g = in_flight_with s' g + (if fl_gauge f = g then 1 else 0)" for g
      unfolding in_flight_with_def s'
      by (simp add: length_filter_delete [OF dist f(1), of "\<lambda>(i, f). fl_gauge f = g"])
    with pen show ?thesis
      by (auto simp: pending_ok_def s' metrics_on_response_pending)
  qed
  moreover from ev have "events_ok s'" by (simp add: events_ok_def s')
  moreover have "keys_ok s'"
    using assms(1) gf by (simp add: server_inv_def keys_ok_def s' ex_key_def gauge_of_def)
  ultimately show ?thesis by (simp add: server_inv_def)
qed

lemma server_step_inv: "server_step s s' \<Longrightarrow> server_inv s \<Longrightarrow> server_inv s'"
  by (induction rule: server_step.induct) (auto intro: arrive_inv handle_inv finish_inv)

lemma reachable_inv: "reachable s \<Longrightarrow> server_inv s"
  by (induction rule: reachable.induct) (auto intro: server_inv_init server_step_inv)

lemma finish_events_no_error:
  "status resp \<in> {200, 404, 405} \<Longrightarrow> ev \<in> set (finish_events t lat resp) \<Longrightarrow> ev_level ev \<noteq> Error"
  by (auto simp: finish_events_def is_server_error_def on_response_event_def)

lemma no_error_ok_reachable: "reachable s \<Longrightarrow> no_error_ok s"
proof (induction rule: reachable.induct)
  case init
  then show ?case by (simp add: no_error_ok_def server_init_def)
next
  case (step s s')
  from step.hyps(2) show ?case
  proof (cases rule: server_step.cases)
    case (arrive req t)
    then show ?thesis using step.IH by (auto simp: no_error_ok_def on_request_event_def)
  next
    case (handle i)
    then obtain f where f: "map_of (srv_inflight s) i = Some f"
      and s': "s' = s\<lparr>srv_inflight := AList.update i
              (f\<lparr>fl_resp := Some (snd (app_call (srv_metrics s) (fl_req f)))\<rparr>) (srv_inflight s)\<rparr>"
      by (blast dest: handle_Some)
    have "status (snd (app_call (srv_metrics s) (fl_req f))) \<in> {200, 404, 405}"
      by (rule app_call_status_cases)
    then show ?thesis
      using step.IH set_update_subset [of i _ "srv_inflight s"]
      by (fastforce simp: no_error_ok_def s')
  next
    case (finish i t)
    then obtain f resp where f: "map_of (srv_inflight s) i = Some f" "fl_resp f = Some resp"
      and s': "srv_events s' = srv_events s @ finish_events t (t - fl_start f) resp"
        "srv_inflight s' = AList.delete i (srv_inflight s)"
      by (fastforce dest: finish_Some)
    have "(i, f) \<in> set (srv_inflight s)" using f(1) by (rule map_of_SomeD)
    with step.IH f(2) have "status resp \<in> {200, 404, 405}" by (auto simp: no_error_ok_def)
    then have "\<forall>ev \<in> set (srv_events s'). ev_level ev \<noteq> Error"
      using step.IH finish_events_no_error by (auto simp: no_error_ok_def s'(1))
    moreover have "set (srv_inflight s') \<subseteq> set (srv_inflight s)"
      using set_delete_subset by (simp add: s'(2))
    ultimately show ?thesis using step.IH by (fastforce simp: no_error_ok_def)
  qed
qed

lemma finish_events_response_only [simp]:
  "filter is_response_event (finish_events t lat resp) = [on_response_event t lat]"
  by (simp add: finish_events_def)

lemma observers_ok_reachable: "reachable s \<Longrightarrow> observers_ok s"
proof (induction rule: reachable.induct)
  case init
  then show ?case
    by (simp add: observers_ok_def server_init_def metrics_empty_def observations_of_def)
next
  case (step s s')
  from step.hyps(2) show ?case
  proof (cases rule: server_step.cases)
    case (arrive req t)
    then show ?thesis using step.IH by (simp add: observers_ok_def)
  next
    case (handle i)
    then show ?thesis using step.IH by (auto simp: observers_ok_def dest!: handle_Some)
  next
    case (finish i t)
    then obtain f resp where f: "map_of (srv_inflight s) i = Some f" "fl_resp f = Some resp"
      and s': "s' = s\<lparr>srv_metrics := metrics_on_response (fl_gauge f) resp (t - fl_start f) (srv_metrics s),
              srv_events := srv_events s @ finish_events t (t - fl_start f) resp,
              srv_inflight := AList.delete i (srv_inflight s),
              srv_done := srv_done s @
                [\<lparr>ex_req = fl_req f, ex_matched = fl_matched f, ex_resp = resp,
                  ex_latency = t - fl_start f\<rparr>]\<rparr>"
      by (blast dest: finish_Some)
    have "(i, f) \<in> set (srv_inflight s)" using f(1) by (rule map_of_SomeD)
    with reachable_inv [OF step.hyps(1)]
    have "fl_gauge f = gauge_of (fl_req f) (fl_matched f)" by (auto simp: server_inv_def inflight_ok_def)
    with step.IH show ?thesis
      by (simp add: observers_ok_def s' metrics_on_response_observations ex_key_def gauge_of_def
          on_response_event_def)
  qed
qed

subsection \<open>One request alone\<close>

text \<open>
  The flight a request starts as, and the exchange it completes as, when it is served
  alone from state \<open>s\<close>.
\<close>

definition new_flight :: "request \<Rightarrow> nanos \<Rightarrow> server \<Rightarrow> flight" where
  "new_flight req t s =
     \<lparr>fl_req = req, fl_start = t, fl_gauge = gauge_of req (fst (app_call (srv_metrics s) req)),
      fl_matched = fst (app_call (srv_metrics s) req), fl_resp = None\<rparr>"

lemma serve_eq:
  assumes "inflight_ok s"
  shows "serve req t0 t1 s =
    (let s1 = arrive req t0 s; resp = snd (app_call (srv_metrics s1) req);
         f = new_flight req t0 s
     in Some (resp, s1\<lparr>srv_metrics := metrics_on_response (fl_gauge f) resp (t1 - t0) (srv_metrics s1),
                 srv_events := srv_events s1 @ finish_events t1 (t1 - t0) resp,
                 srv_inflight := AList.delete (srv_next s) (AList.update (srv_next s)
                    (f\<lparr>fl_resp := Some resp\<rparr>) (srv_inflight s1)),
                 srv_done := srv_done s @
                   [\<lparr>ex_req = req, ex_matched = fl_matched f, ex_resp = resp,
                     ex_latency = t1 - t0\<rparr>]\<rparr>))"
proof -
  have fresh: "map_of (srv_inflight s) (srv_next s) = None"
    using assms by (auto simp: inflight_ok_def map_of_eq_None_iff)
  then have "map_of (srv_inflight (arrive req t0 s)) (srv_next s) = Some (new_flight req t0 s)"
    by (simp add: new_flight_def map_of_append map_add_def)
  then show ?thesis
    by (simp add: serve_def handle_def finish_def Let_def update_conv' new_flight_def)
qed

lemma serve_response:
  "inflight_ok s \<Longrightarrow>
     \<exists>s'. serve req t0 t1 s = Some (snd (app_call (srv_metrics (arrive req t0 s)) req), s')"
  by (simp add: serve_eq Let_def)

lemma serve_done:
  "inflight_ok s \<Longrightarrow> serve req t0 t1 s = Some (r, s') \<Longrightarrow>
     srv_done s' = srv_done s @ [\<lparr>ex_req = req, ex_matched = fst (app_call (srv_metrics s) req),
        ex_resp = r, ex_latency = t1 - t0\<rparr>]"
  by (auto simp: serve_eq Let_def new_flight_def)

text \<open>Serving one request is a run of three steps, so it reaches only reachable states.\<close>

lemma serve_reachable:
  assumes "reachable s" and "serve req t0 t1 s = Some (r, s')"
  shows "reachable s'"
proof -
  let ?i = "srv_next s"
  from assms(2) obtain s1 where h: "handle ?i (arrive req t0 s) = Some s1"
      and f: "finish ?i t1 s1 = Some s'"
    by (auto simp: serve_def Let_def split: option.splits)
  have "reachable (arrive req t0 s)" using assms(1) by (blast intro: reachable.step server_step.arrive)
  then have "reachable s1" using h by (blast intro: reachable.step server_step.handle)
  then show ?thesis using f by (blast intro: reachable.step server_step.finish)
qed

lemma inflight_ok_init: "inflight_ok server_init"
  by (simp add: inflight_ok_def server_init_def)

lemma server_inv_reachable:
  "reachable s \<Longrightarrow> inflight_ok s \<and> totals_ok s \<and> pending_ok s \<and> events_ok s \<and> keys_ok s"
  using reachable_inv by (simp add: server_inv_def)

text \<open>A run of two requests to \<open>/\<close> whose steps interleave: both arrive, the second is
  handled first, then both finish.\<close>

definition root_request :: request where
  "root_request = \<lparr>req_method = GET, req_path = ''/'', req_query = None, req_headers = [],
     req_body = []\<rparr>"

lemma two_interleaved_requests:
  obtains s where "reachable s" "srv_inflight s = []" "length (srv_done s) = 2"
    "done_with s (''GET'', ''200'', ''/'') = 2" "map ex_latency (srv_done s) = [5, 9]"
    "map ex_key (srv_done s) = [(''GET'', ''200'', ''/''), (''GET'', ''200'', ''/'')]"
proof -
  let ?s2 = "arrive root_request 3 (arrive root_request 0 server_init)"
  have r2: "reachable ?s2" by (blast intro: reachable.intros server_step.arrive)
  note defs = handle_def finish_def server_init_def app_call_def dispatch_def mr_call_get
    root_request_def
  obtain s3 where h3: "handle 1 ?s2 = Some s3" by (simp add: defs)
  obtain s4 where h4: "handle 0 s3 = Some s4" using h3 by (auto simp: defs)
  obtain s5 where h5: "finish 1 8 s4 = Some s5" using h3 h4 by (auto simp: defs)
  obtain s6 where h6: "finish 0 9 s5 = Some s6" using h3 h4 h5 by (auto simp: defs)
  have "reachable s6"
    using r2 h3 h4 h5 h6 by (meson reachable.step server_step.handle server_step.finish)
  moreover have "srv_inflight s6 = [] \<and> length (srv_done s6) = 2 \<and>
      done_with s6 (''GET'', ''200'', ''/'') = 2 \<and> map ex_latency (srv_done s6) = [5, 9] \<and>
      map ex_key (srv_done s6) = [(''GET'', ''200'', ''/''), (''GET'', ''200'', ''/'')]"
    using h3 h4 h5 h6
    by (auto simp: defs done_with_def ex_key_def endpoint_label_def dec_string.simps)
  ultimately show ?thesis by (intro that [of s6]) simp_all
qed

text \<open>A request in flight can always take its remaining steps.\<close>

subsection \<open>Properties of the served application\<close>

text \<open>
  C1: a \<open>GET /\<close> request, whatever its query, headers and body, goes through both layers
  and comes back as status 200 with a \<open>text/plain\<close> body \<open>Hello World!\<close> and the
  \<open>content-length: 12\<close> that \<open>RouteFuture\<close> sets; the layers neither alter nor withhold
  the response.
\<close>

theorem serve_hello_world:
  assumes "inflight_ok s" "req_method req = GET" "req_path req = ''/''"
  shows "\<exists>s'. serve req t0 t1 s =
    Some (\<lparr>status = 200, resp_headers = [(''content-type'', ''text/plain; charset=utf-8''),
                                          (''content-length'', ''12'')],
           resp_body = ''Hello World!''\<rparr>, s')"
  using serve_response [OF assms(1), of req t0 t1] assms(2,3)
  by (simp add: app_call_root mr_call_get hello_world_def set_content_length_str dec_string.simps)

theorem serve_hello_world_witness:
  "\<exists>s'. serve \<lparr>req_method = GET, req_path = ''/'', req_query = Some ''a=1'',
        req_headers = [(''x'', ''y'')], req_body = ''z''\<rparr> 0 7 server_init =
    Some (\<lparr>status = 200, resp_headers = [(''content-type'', ''text/plain; charset=utf-8''),
                                          (''content-length'', ''12'')],
           resp_body = ''Hello World!''\<rparr>, s')"
  by (rule serve_hello_world [OF inflight_ok_init]) simp_all

text \<open>
  C2: in every state reachable by any interleaving of concurrent requests, the counter
  \<open>axum_http_requests_total\<close> of each label set equals the number of completed requests
  with those labels (modulo \<open>2^64\<close>): no update is lost.
\<close>

theorem requests_total_counts:
  "reachable s \<Longrightarrow> total_of (srv_metrics s) k = of_nat (done_with s k)"
proof -
  assume "reachable s"
  then have "totals_ok s" by (simp add: server_inv_reachable)
  then show ?thesis unfolding totals_ok_def by blast
qed

theorem requests_total_counts_witness:
  "\<exists>s. reachable s \<and> length (srv_done s) = 2 \<and> total_of (srv_metrics s) (''GET'', ''200'', ''/'') = 2"
proof -
  obtain s where s: "reachable s" "srv_inflight s = []" "length (srv_done s) = 2"
    "done_with s (''GET'', ''200'', ''/'') = 2" "map ex_latency (srv_done s) = [5, 9]"
    "map ex_key (srv_done s) = [(''GET'', ''200'', ''/''), (''GET'', ''200'', ''/'')]"
    by (rule two_interleaved_requests)
  then show ?thesis using requests_total_counts [of s "(''GET'', ''200'', ''/'')"] by auto
qed

text \<open>
  C3: a scrape of \<open>/metrics\<close> answers 200, and its body holds, for every label set of
  a completed request, the counter line with the number of completed requests with those
  labels (modulo \<open>2^64\<close>).
\<close>

theorem scrape_shows_completed:
  assumes "reachable s" "k \<in> ex_key ` set (srv_done s)"
    "req_method req = GET" "req_path req = ''/metrics''"
  shows "\<exists>r s' pre suf. serve req t0 t1 s = Some (r, s') \<and> status r = 200 \<and>
     resp_body r = pre @ metric_line total_name [] (series_labels k)
                           (dec_string (done_with s k mod 2 ^ 64)) @ suf"
proof -
  from assms(1) have fl: "inflight_ok s" and ko: "keys_ok s" and tot: "totals_ok s"
    by (simp_all add: server_inv_reachable)
  let ?m1 = "srv_metrics (arrive req t0 s)"
  obtain s' where sv: "serve req t0 t1 s = Some (snd (app_call ?m1 req), s')"
    using serve_response [OF fl] by blast
  have r: "snd (app_call ?m1 req) = set_content_length (str_into_response (render ?m1))"
    using assms(3,4) by (simp add: app_call_metrics mr_call_get)
  from ko assms(2) have "k \<in> fst ` set (requests_total (srv_metrics s))"
    by (simp add: keys_ok_def)
  then obtain v where kv: "(k, v) \<in> set (requests_total (srv_metrics s))" by force
  have "v = total_of (srv_metrics s) k"
    using ko kv by (simp add: keys_ok_def metrics_wf_def total_of_def al_get_in)
  also have "\<dots> = of_nat (done_with s k)" using tot unfolding totals_ok_def by blast
  finally have "unat v = done_with s k mod 2 ^ 64" by (simp add: unat_of_nat)
  moreover from kv have "(k, v) \<in> set (requests_total ?m1)" by simp
  then obtain pre suf where
    "render ?m1 = pre @ metric_line total_name [] (series_labels k) (dec_string (unat v)) @ suf"
    using render_total_line by blast
  ultimately show ?thesis using sv r by auto
qed

theorem scrape_shows_completed_witness:
  "\<exists>s r s' pre suf.
     serve root_request 0 5 server_init =
       Some (set_content_length (str_into_response ''Hello World!''), s) \<and>
     serve \<lparr>req_method = GET, req_path = ''/metrics'', req_query = None, req_headers = [],
            req_body = []\<rparr> 6 9 s = Some (r, s') \<and> status r = 200 \<and>
     resp_body r = pre @ ''axum_http_requests_total{method=\"GET\",status=\"200\",endpoint=\"/\"} 1''
       @ [CHR 0x0A] @ suf"
proof -
  obtain s where sv: "serve root_request 0 5 server_init =
      Some (snd (app_call (srv_metrics (arrive root_request 0 server_init)) root_request), s)"
    using serve_response [OF inflight_ok_init] by blast
  have resp: "snd (app_call (srv_metrics (arrive root_request 0 server_init)) root_request) =
      set_content_length (str_into_response ''Hello World!'')"
    by (simp add: root_request_def app_call_root mr_call_get hello_world_def)
  have reach: "reachable s" using sv by (blast intro: serve_reachable reachable.init)
  have dn: "srv_done s = [\<lparr>ex_req = root_request, ex_matched = Some ''/'',
      ex_resp = set_content_length (str_into_response ''Hello World!''), ex_latency = 5\<rparr>]"
    using serve_done [OF inflight_ok_init sv] resp
    by (simp add: server_init_def root_request_def app_call_root)
  have key: "(''GET'', ''200'', ''/'') \<in> ex_key ` set (srv_done s)"
    and cnt: "done_with s (''GET'', ''200'', ''/'') = 1"
    by (simp_all add: dn ex_key_def done_with_def root_request_def endpoint_label_def
        dec_string.simps)
  show ?thesis
    using scrape_shows_completed [OF reach key, of "\<lparr>req_method = GET, req_path = ''/metrics'',
        req_query = None, req_headers = [], req_body = []\<rparr>" 6 9] sv resp cnt
    by (simp add: metric_line_def total_name_def series_labels_def label_def dec_string.simps)
qed

text \<open>
  C4: a request to any path other than \<open>/\<close> and \<open>/metrics\<close> is answered 404 with
  an empty body and \<open>content-length: 0\<close> (the server does not fail), and it is still counted, under its method,
  status 404 and its exact path as the endpoint label.
\<close>

theorem serve_not_found:
  assumes "inflight_ok s" "req_path req \<notin> {''/'', ''/metrics''}"
  shows "\<exists>s'. serve req t0 t1 s =
       Some (\<lparr>status = 404, resp_headers = [(''content-length'', ''0'')], resp_body = []\<rparr>, s') \<and>
     total_of (srv_metrics s') (method_str (req_method req), ''404'', req_path req) =
     total_of (srv_metrics s) (method_str (req_method req), ''404'', req_path req) + 1"
  using assms
  by (simp add: serve_eq Let_def new_flight_def app_call_other gauge_of_def endpoint_label_def
      metrics_on_response_total dec_string.simps not_found_def status_response_def
      set_content_length_def)

theorem serve_not_found_witness:
  "\<exists>s'. serve \<lparr>req_method = POST, req_path = ''/favicon.ico'', req_query = None,
        req_headers = [], req_body = []\<rparr> 0 2 server_init =
      Some (\<lparr>status = 404, resp_headers = [(''content-length'', ''0'')], resp_body = []\<rparr>, s') \<and>
     total_of (srv_metrics s') (''POST'', ''404'', ''/favicon.ico'') =
     total_of (srv_metrics server_init) (''POST'', ''404'', ''/favicon.ico'') + 1"
  using serve_not_found [OF inflight_ok_init, of "\<lparr>req_method = POST, req_path = ''/favicon.ico'',
      req_query = None, req_headers = [], req_body = []\<rparr>" 0 2]
  by simp

text \<open>
  C5: in every reachable state the gauge \<open>axum_http_requests_pending\<close> of each method
  and endpoint equals the number of requests with those labels that are in flight; in
  particular it returns to zero when the server is idle.
\<close>

theorem pending_counts_in_flight:
  "reachable s \<Longrightarrow> pending_of (srv_metrics s) g = int (in_flight_with s g)"
proof -
  assume "reachable s"
  then have "pending_ok s" by (simp add: server_inv_reachable)
  then show ?thesis unfolding pending_ok_def by blast
qed

theorem pending_counts_in_flight_witness:
  "reachable (arrive root_request 0 server_init) \<and>
   pending_of (srv_metrics (arrive root_request 0 server_init)) (''GET'', ''/'') = 1"
proof -
  have r: "reachable (arrive root_request 0 server_init)"
    by (blast intro: reachable.intros server_step.arrive)
  have "in_flight_with (arrive root_request 0 server_init) (''GET'', ''/'') = 1"
    by (simp add: in_flight_with_def server_init_def root_request_def gauge_of_def
        app_call_root endpoint_label_def)
  then show ?thesis using r pending_counts_in_flight [OF r, of "(''GET'', ''/'')"] by simp
qed

text \<open>
  C6: the trace layer emits exactly one \<open>INFO\<close> event of the program's crate (the
  "response generated in" line) per completed request, in every interleaving.
\<close>

theorem one_log_event_per_response:
  "reachable s \<Longrightarrow> length (filter is_response_event (srv_events s)) = length (srv_done s)"
  by (simp add: server_inv_reachable [unfolded events_ok_def])

theorem one_log_event_per_response_witness:
  "\<exists>s. reachable s \<and> length (srv_done s) = 2 \<and> length (filter is_response_event (srv_events s)) = 2"
proof -
  obtain s where s: "reachable s" "srv_inflight s = []" "length (srv_done s) = 2"
    "done_with s (''GET'', ''200'', ''/'') = 2" "map ex_latency (srv_done s) = [5, 9]"
    "map ex_key (srv_done s) = [(''GET'', ''200'', ''/''), (''GET'', ''200'', ''/'')]"
    by (rule two_interleaved_requests)
  then show ?thesis using one_log_event_per_response [of s] by auto
qed

text \<open>
  C7: a request to \<open>/\<close> or \<open>/metrics\<close> with a method other than \<open>GET\<close> and
  \<open>HEAD\<close> is answered 405 with an empty body, the header \<open>allow: GET,HEAD\<close> and
  \<open>content-length: 0\<close>.
\<close>

theorem serve_method_not_allowed:
  assumes "inflight_ok s" "req_path req \<in> {''/'', ''/metrics''}"
    "req_method req \<noteq> GET" "req_method req \<noteq> HEAD"
  shows "\<exists>s'. serve req t0 t1 s =
    Some (\<lparr>status = 405, resp_headers = [(''allow'', ''GET,HEAD''), (''content-length'', ''0'')],
           resp_body = []\<rparr>, s')"
  using serve_response [OF assms(1), of req t0 t1] assms(2-4)
  by (auto simp: app_call_root app_call_metrics mr_call_get set_content_length_def dec_string.simps)

theorem serve_method_not_allowed_witness:
  "\<exists>s'. serve \<lparr>req_method = DELETE, req_path = ''/metrics'', req_query = None,
        req_headers = [], req_body = []\<rparr> 0 4 server_init =
    Some (\<lparr>status = 405, resp_headers = [(''allow'', ''GET,HEAD''), (''content-length'', ''0'')],
           resp_body = []\<rparr>, s')"
  by (rule serve_method_not_allowed [OF inflight_ok_init]) simp_all

text \<open>
  C8: \<open>HEAD /\<close> is served by the \<open>GET\<close> handler with the body dropped after the content
  length is set: status 200, the same content type, \<open>content-length: 12\<close> (the length of
  the body a \<open>GET\<close> receives), an empty body.
\<close>

theorem serve_head:
  assumes "inflight_ok s" "req_method req = HEAD" "req_path req = ''/''"
  shows "\<exists>s'. serve req t0 t1 s =
    Some (\<lparr>status = 200, resp_headers = [(''content-type'', ''text/plain; charset=utf-8''),
                                          (''content-length'', ''12'')],
           resp_body = []\<rparr>, s')"
  using serve_response [OF assms(1), of req t0 t1] assms(2,3)
  by (simp add: app_call_root mr_call_get hello_world_def set_content_length_str strip_body_def
      dec_string.simps)

theorem serve_head_witness:
  "\<exists>s'. serve \<lparr>req_method = HEAD, req_path = ''/'', req_query = None,
        req_headers = [], req_body = []\<rparr> 0 4 server_init =
    Some (\<lparr>status = 200, resp_headers = [(''content-type'', ''text/plain; charset=utf-8''),
                                          (''content-length'', ''12'')],
           resp_body = []\<rparr>, s')"
  by (rule serve_head [OF inflight_ok_init]) simp_all

text \<open>
  C19: in every reachable state the latency histogram of each method, status and
  endpoint holds exactly the latencies of the completed requests with those labels, in
  the order they completed.
\<close>

theorem histogram_holds_latencies:
  "reachable s \<Longrightarrow>
     observations_of (srv_metrics s) k = map ex_latency (filter (\<lambda>e. ex_key e = k) (srv_done s))"
proof -
  assume "reachable s"
  then have "observers_ok s" by (rule observers_ok_reachable)
  then show ?thesis unfolding observers_ok_def by blast
qed

theorem histogram_holds_latencies_witness:
  "\<exists>s. reachable s \<and> observations_of (srv_metrics s) (''GET'', ''200'', ''/'') = [5, 9]"
proof -
  obtain s where s: "reachable s" "srv_inflight s = []" "length (srv_done s) = 2"
    "done_with s (''GET'', ''200'', ''/'') = 2" "map ex_latency (srv_done s) = [5, 9]"
    "map ex_key (srv_done s) = [(''GET'', ''200'', ''/''), (''GET'', ''200'', ''/'')]"
    by (rule two_interleaved_requests)
  have "set (map ex_key (srv_done s)) \<subseteq> {(''GET'', ''200'', ''/'')}" using s(6) by simp
  then have "filter (\<lambda>e. ex_key e = (''GET'', ''200'', ''/'')) (srv_done s) = srv_done s"
    by (auto simp: filter_id_conv)
  then have "observations_of (srv_metrics s) (''GET'', ''200'', ''/'') = [5, 9]"
    using histogram_holds_latencies [OF s(1), of "(''GET'', ''200'', ''/'')"] s(5) by simp
  with s(1) show ?thesis by blast
qed

text \<open>
  C20: the response lines of the log, read back (the latency after
  "response generated in "), give the latencies of the completed requests, one line per
  request, in the order they completed.
\<close>

theorem log_lines_read_back:
  "reachable s \<Longrightarrow>
     map (\<lambda>ev. parse_duration_debug (drop (length ''response generated in '') (ev_message ev)))
       (filter is_response_event (srv_events s)) =
     map (\<lambda>e. Some (ex_latency e)) (srv_done s)"
proof -
  assume "reachable s"
  then have "map ev_message (filter is_response_event (srv_events s)) =
      map (\<lambda>e. response_message (ex_latency e)) (srv_done s)"
    using observers_ok_reachable by (simp add: observers_ok_def)
  then have "map (\<lambda>m. parse_duration_debug (drop (length ''response generated in '') m))
      (map ev_message (filter is_response_event (srv_events s))) =
    map (\<lambda>e. parse_duration_debug (drop (length ''response generated in '') (response_message (ex_latency e))))
      (srv_done s)"
    by simp
  then show ?thesis
    by (simp add: response_message_def parse_duration_debug_of_nanos comp_def)
qed

theorem log_lines_read_back_witness:
  "\<exists>s. reachable s \<and>
     map (\<lambda>ev. parse_duration_debug (drop (length ''response generated in '') (ev_message ev)))
       (filter is_response_event (srv_events s)) = [Some 5, Some 9]"
proof -
  obtain s where s: "reachable s" "srv_inflight s = []" "length (srv_done s) = 2"
    "done_with s (''GET'', ''200'', ''/'') = 2" "map ex_latency (srv_done s) = [5, 9]"
    "map ex_key (srv_done s) = [(''GET'', ''200'', ''/''), (''GET'', ''200'', ''/'')]"
    by (rule two_interleaved_requests)
  then show ?thesis using log_lines_read_back [OF s(1)] by (auto simp: comp_def map_map [symmetric])
qed

text \<open>
  C25: in every reachable state the exposition is well formed: each table of the
  recorder has one row per label set, and the counter's sample lines are pairwise
  distinct, so no series is printed twice.
\<close>

theorem exposition_well_formed:
  "reachable s \<Longrightarrow>
     metrics_wf (srv_metrics s) \<and>
     distinct (map (\<lambda>(k, v). metric_line total_name [] (series_labels k) (dec_string (unat v)))
                 (requests_total (srv_metrics s)))"
proof -
  assume "reachable s"
  then have wf: "metrics_wf (srv_metrics s)" using server_inv_reachable by (simp add: keys_ok_def)
  then have d: "distinct (map fst (requests_total (srv_metrics s)))" by (simp add: metrics_wf_def)
  then have "distinct (requests_total (srv_metrics s))" by (simp add: distinct_map)
  moreover have "inj_on (\<lambda>(k, v). metric_line total_name [] (series_labels k) (dec_string (unat v)))
      (set (requests_total (srv_metrics s)))"
    using d by (auto simp: inj_on_def counter_line_inj dest: eq_key_imp_eq_value)
  ultimately show ?thesis using wf by (simp add: distinct_map)
qed

theorem exposition_well_formed_witness:
  "\<exists>s. reachable s \<and> metrics_wf (srv_metrics s) \<and>
     distinct (map (\<lambda>(k, v). metric_line total_name [] (series_labels k) (dec_string (unat v)))
                 (requests_total (srv_metrics s)))"
proof -
  obtain s where s: "reachable s" "srv_inflight s = []" "length (srv_done s) = 2"
    "done_with s (''GET'', ''200'', ''/'') = 2" "map ex_latency (srv_done s) = [5, 9]"
    "map ex_key (srv_done s) = [(''GET'', ''200'', ''/''), (''GET'', ''200'', ''/'')]"
    by (rule two_interleaved_requests)
  show ?thesis using exposition_well_formed [OF s(1)] s(1) by (intro exI [of _ s]) simp
qed

end
