(* ===== verification/LogFilter.thy ===== *)
theory LogFilter
  imports Tracing "HOL-Library.List_Lexorder" "HOL-Library.Char_ord"
begin

text \<open>
  The log filter of \<open>src/main.rs\<close> (lines 37 to 45) and the filtering the file logger
  applies with it (line 56). \<open>EnvFilter::try_from_env("AXUM_TEST_LOG")\<close> reads the
  variable and parses it strictly; on any error the program prints two lines to
  standard output and builds instead a filter from \<open>RUST_LOG\<close>, parsed leniently (a
  bad directive is reported on standard error and skipped), with \<open>ERROR\<close> as the
  default directive. The model follows \<open>tracing-subscriber\<close> 0.3:
  \<^item> \<open>LevelFilter::from_str\<close>: a number 0 to 5 (\<open>OFF\<close> to \<open>TRACE\<close>), a level name in
    any ASCII case, or the empty string for \<open>ERROR\<close>;
  \<^item> \<open>Directive::parse\<close>: either a level alone, or one or two parts, each a target
    (\<open>[\w:-]+\<close>) or a bracketed span part, then optionally \<open>=\<close> and optionally a level
    (\<open>TRACE\<close> when absent); a target that is itself a level filter is dropped;
  \<^item> \<open>Builder::from_directives\<close> (\<open>Directive::make_tables\<close>): a directive with a span name
    or fields is dynamic; the static table holds every directive with no span name and
    no field value, first those that are not dynamic, then the dynamic ones (a
    directive naming fields without values is in both tables); a later directive
    replaces an earlier one with the same target and fields; the default directive is
    added only when both tables are empty;
  \<^item> \<open>EnvFilter::enabled\<close> on an event or span: the most specific static directive whose
    target is a prefix of the target of the metadata (longest target first, then most
    field names) decides; it must name only fields the metadata has when the metadata
    is an event's (\<open>StaticDirective::cares_about\<close> does not check the fields of a span).
  Targets are ASCII (\<open>\w\<close> is read as ASCII letters, digits and underscore). The field
  filters inside a span part are split at commas into \<open>name\<close> or \<open>name=value\<close>; the
  events of the program are all emitted inside the trace layer's \<open>request\<close> span, and
  a dynamic directive is taken to enable them when it names that span (or no span), its
  target is a prefix of the span's target, it has no field value, the span is enabled,
  and its level admits the event. Matching recorded field values is not modelled.
\<close>

subsection \<open>Level filters\<close>

definition level_names :: "(string \<times> level_filter) list" where
  "level_names =
     [(''error'', Some Error), (''warn'', Some Warn), (''info'', Some Info),
      (''debug'', Some Debug), (''trace'', Some Trace), (''off'', None)]"

definition num_levels :: "level_filter list" where
  "num_levels = [None, Some Error, Some Warn, Some Info, Some Debug, Some Trace]"

definition name_level :: "string \<Rightarrow> level_filter option" where
  "name_level s =
     (if s = [] then Some (Some Error)
      else map_option snd (find (\<lambda>(n, _). eq_ignore_ascii_case s n) level_names))"

text \<open>\<open>LevelFilter::from_str\<close>: first as a \<open>usize\<close>, then as a name.\<close>

definition parse_level_filter :: "string \<Rightarrow> level_filter option" where
  "parse_level_filter s =
     (case parse_usize s of
        Some n \<Rightarrow> if n \<le> 5 then Some (num_levels ! n) else name_level s
      | None \<Rightarrow> name_level s)"

text \<open>The level of the directive grammar: a name in any case, or one digit 0 to 5.\<close>

definition regex_level :: "string \<Rightarrow> bool" where
  "regex_level s \<longleftrightarrow>
     list_ex (\<lambda>(n, _). eq_ignore_ascii_case s n) level_names \<or>
     (case s of [c] \<Rightarrow> CHR ''0'' \<le> c \<and> c \<le> CHR ''5'' | _ \<Rightarrow> False)"

text \<open>\<open>Display\<close> of a \<open>LevelFilter\<close>.\<close>

fun level_filter_str :: "level_filter \<Rightarrow> string" where
  "level_filter_str None = ''OFF''"
| "level_filter_str (Some Error) = ''ERROR''"
| "level_filter_str (Some Warn) = ''WARN''"
| "level_filter_str (Some Info) = ''INFO''"
| "level_filter_str (Some Debug) = ''DEBUG''"
| "level_filter_str (Some Trace) = ''TRACE''"

subsection \<open>Directives\<close>

datatype directive = Directive
  (dir_target: "string option") (dir_span: "string option")
  (dir_fields: "(string \<times> string option) list") (dir_level: level_filter)

datatype dpart = TPart string | SPart string

definition is_target_char :: "char \<Rightarrow> bool" where
  "is_target_char c \<longleftrightarrow>
     (let n = (of_char c :: nat)
      in (48 \<le> n \<and> n \<le> 57) \<or> (65 \<le> n \<and> n \<le> 90) \<or> (97 \<le> n \<and> n \<le> 122) \<or>
         c = CHR ''_'' \<or> c = CHR '':'' \<or> c = CHR ''-'')"

text \<open>One part of a directive: a bracketed span part (its inside), or a maximal target.\<close>

definition take_part :: "string \<Rightarrow> (dpart \<times> string) option" where
  "take_part s =
     (case s of
        [] \<Rightarrow> None
      | c # r \<Rightarrow>
          if c = CHR ''[''
          then (if CHR '']'' \<in> set r
                then Some (SPart (takeWhile (\<lambda>x. x \<noteq> CHR '']'') r),
                           tl (dropWhile (\<lambda>x. x \<noteq> CHR '']'') r))
                else None)
          else if is_target_char c
          then Some (TPart (takeWhile is_target_char s), dropWhile is_target_char s)
          else None)"

text \<open>What may follow the parts: nothing, \<open>=\<close>, or \<open>=\<close> and a level.\<close>

definition rest_level :: "string \<Rightarrow> level_filter option" where
  "rest_level r =
     (case r of
        [] \<Rightarrow> Some (Some Trace)
      | c # lv \<Rightarrow>
          if c \<noteq> CHR ''='' then None
          else if lv = [] then Some (Some Trace)
          else if regex_level lv then parse_level_filter lv else None)"

fun last_target :: "dpart list \<Rightarrow> string option" where
  "last_target [] = None"
| "last_target (TPart t # ps) = (case last_target ps of None \<Rightarrow> Some t | x \<Rightarrow> x)"
| "last_target (SPart _ # ps) = last_target ps"

fun last_span :: "dpart list \<Rightarrow> string option" where
  "last_span [] = None"
| "last_span (SPart t # ps) = (case last_span ps of None \<Rightarrow> Some t | x \<Rightarrow> x)"
| "last_span (TPart _ # ps) = last_span ps"

text \<open>
  The span part: brackets trimmed from both ends, then a name up to \<open>{\<close> and the
  field filters between braces.
\<close>

definition trim_brackets :: "string \<Rightarrow> string" where
  "trim_brackets s =
     (let p = (\<lambda>c. c = CHR ''['' \<or> c = CHR '']'') in rev (dropWhile p (rev (dropWhile p s))))"

definition field_filter :: "string \<Rightarrow> string \<times> string option" where
  "field_filter w =
     (takeWhile (\<lambda>c. c \<noteq> CHR ''='') w,
      if CHR ''='' \<in> set w
      then Some (takeWhile (\<lambda>c. c \<noteq> CHR ''='') (tl (dropWhile (\<lambda>c. c \<noteq> CHR ''='') w)))
      else None)"

definition span_part :: "string \<Rightarrow> string option \<times> (string \<times> string option) list" where
  "span_part sp =
     (let cap = trim_brackets sp;
          nm = takeWhile (\<lambda>c. c \<noteq> CHR ''{'') cap;
          r = dropWhile (\<lambda>c. c \<noteq> CHR ''{'') cap;
          fs = (if r \<noteq> [] \<and> CHR ''}'' \<in> set r
                then map field_filter (filter (\<lambda>w. w \<noteq> [])
                       (split_on CHR '','' (takeWhile (\<lambda>c. c \<noteq> CHR ''}'') (tl r))))
                else [])
      in (if nm = [] then None else Some nm, fs))"

definition parse_directive :: "string \<Rightarrow> directive option" where
  "parse_directive s =
     (if regex_level s
      then map_option (Directive None None []) (parse_level_filter s)
      else (case take_part s of
              None \<Rightarrow> None
            | Some (p1, r1) \<Rightarrow>
                (let (ps, r) = (case take_part r1 of
                                  Some (p2, r2) \<Rightarrow> ([p1, p2], r2)
                                | None \<Rightarrow> ([p1], r1))
                 in case rest_level r of
                      None \<Rightarrow> None
                    | Some lvl \<Rightarrow>
                        (let tgt = (case last_target ps of
                                      Some t \<Rightarrow> if parse_level_filter t = None then Some t else None
                                    | None \<Rightarrow> None);
                             (sn, fs) = (case last_span ps of
                                           Some sp \<Rightarrow> span_part sp
                                         | None \<Rightarrow> (None, []))
                         in Some (Directive tgt sn fs lvl)))))"

text \<open>The directives of a variable's value: its non-empty comma-separated pieces.\<close>

definition directive_pieces :: "string \<Rightarrow> string list" where
  "directive_pieces v = filter (\<lambda>w. w \<noteq> []) (split_on CHR '','' v)"

text \<open>\<open>Builder::parse\<close>: every piece must parse.\<close>

definition parse_strict :: "string \<Rightarrow> directive list option" where
  "parse_strict v =
     (if v = [] then Some [] else those (map parse_directive (directive_pieces v)))"

text \<open>\<open>Builder::parse_lossy\<close>: the pieces that parse, and those it reports and skips.\<close>

definition parse_lossy :: "string \<Rightarrow> directive list \<times> string list" where
  "parse_lossy v =
     (List.map_filter parse_directive (directive_pieces v),
      filter (\<lambda>w. parse_directive w = None) (directive_pieces v))"

subsection \<open>The filter\<close>

text \<open>A static directive: its target, the field names it requires, its level.\<close>

type_synonym static_dir = "string option \<times> string list \<times> level_filter"

definition is_static :: "directive \<Rightarrow> bool" where
  "is_static d \<longleftrightarrow> dir_span d = None \<and> list_all (\<lambda>f. snd f = None) (dir_fields d)"

definition is_dynamic :: "directive \<Rightarrow> bool" where
  "is_dynamic d \<longleftrightarrow> dir_span d \<noteq> None \<or> dir_fields d \<noteq> []"

definition to_static :: "directive \<Rightarrow> static_dir" where
  "to_static d = (dir_target d, map fst (dir_fields d), dir_level d)"

text \<open>
  \<open>DirectiveSet::add\<close>: a directive equal in the set's order (same target and
  fields; the level does not count) replaces the one there.
\<close>

definition add_static :: "static_dir \<Rightarrow> static_dir list \<Rightarrow> static_dir list" where
  "add_static d ds = filter (\<lambda>e. (fst e, fst (snd e)) \<noteq> (fst d, fst (snd d))) ds @ [d]"

definition add_dynamic :: "directive \<Rightarrow> directive list \<Rightarrow> directive list" where
  "add_dynamic d ds =
     filter (\<lambda>e. (dir_target e, dir_span e, dir_fields e) \<noteq> (dir_target d, dir_span d, dir_fields d))
       ds @ [d]"

record env_filter =
  ef_statics :: "static_dir list"
  ef_dynamics :: "directive list"

definition from_directives :: "level_filter option \<Rightarrow> directive list \<Rightarrow> env_filter" where
  "from_directives dflt ds =
     (let sts = fold add_static
                  (map to_static (filter (\<lambda>d. \<not> is_dynamic d) ds @
                                  filter (\<lambda>d. is_dynamic d \<and> is_static d) ds)) [];
          dyns = fold add_dynamic (filter is_dynamic ds) []
      in if sts = [] \<and> dyns = []
         then \<lparr>ef_statics = (case dflt of None \<Rightarrow> [] | Some l \<Rightarrow> [(None, [], l)]),
               ef_dynamics = []\<rparr>
         else \<lparr>ef_statics = sts, ef_dynamics = dyns\<rparr>)"

text \<open>
  The order of \<open>StaticDirective\<close>, most specific first: a longer target, then more
  field names, then the target and the field names compared as strings, reversed.
\<close>

definition target_len :: "string option \<Rightarrow> nat" where
  "target_len t = (case t of None \<Rightarrow> 0 | Some s \<Rightarrow> Suc (length s))"

definition more_specific :: "static_dir \<Rightarrow> static_dir \<Rightarrow> bool" where
  "more_specific a b \<longleftrightarrow>
     target_len (fst b) < target_len (fst a) \<or>
     (target_len (fst b) = target_len (fst a) \<and>
      (length (fst (snd b)) < length (fst (snd a)) \<or>
       (length (fst (snd b)) = length (fst (snd a)) \<and>
        (fst b < fst a \<or> (fst b = fst a \<and> fst (snd b) < fst (snd a))))))"

definition target_matches :: "string option \<Rightarrow> string \<Rightarrow> bool" where
  "target_matches t tgt \<longleftrightarrow> (case t of None \<Rightarrow> True | Some s \<Rightarrow> take (length s) tgt = s)"

text \<open>
  Whether a static directive cares about the metadata of a target and, for an event, its
  field names (\<open>None\<close> for a span, whose fields are not checked).
\<close>

definition static_cares :: "string \<Rightarrow> string list option \<Rightarrow> static_dir \<Rightarrow> bool" where
  "static_cares tgt fs d \<longleftrightarrow>
     target_matches (fst d) tgt \<and>
     (case fs of None \<Rightarrow> True | Some ns \<Rightarrow> list_all (\<lambda>n. n \<in> set ns) (fst (snd d)))"

definition static_pick :: "static_dir list \<Rightarrow> string \<Rightarrow> string list option \<Rightarrow> static_dir option" where
  "static_pick ds tgt fs =
     fold (\<lambda>d acc. if static_cares tgt fs d
                   then (case acc of None \<Rightarrow> Some d | Some a \<Rightarrow> if more_specific d a then Some d else acc)
                   else acc) ds None"

definition statics_enabled :: "static_dir list \<Rightarrow> string \<Rightarrow> string list option \<Rightarrow> level \<Rightarrow> bool" where
  "statics_enabled ds tgt fs l \<longleftrightarrow>
     (case static_pick ds tgt fs of None \<Rightarrow> False | Some d \<Rightarrow> Some l \<le> snd (snd d))"

text \<open>
  The span of \<open>DefaultMakeSpan\<close> in which the trace layer emits its events:
  \<open>DEBUG\<close>, named \<open>request\<close>, with the fields \<open>method\<close>, \<open>uri\<close> and \<open>version\<close>.
\<close>

definition span_target :: string where "span_target = ''tower_http::trace::make_span''"

definition span_fields :: "string list" where "span_fields = [''method'', ''uri'', ''version'']"

definition dyn_cares_span :: "directive \<Rightarrow> bool" where
  "dyn_cares_span d \<longleftrightarrow>
     target_matches (dir_target d) span_target \<and>
     (case dir_span d of None \<Rightarrow> True | Some n \<Rightarrow> n = ''request'') \<and>
     list_all (\<lambda>f. fst f \<in> set span_fields) (dir_fields d)"

definition dyn_max :: "directive list \<Rightarrow> level_filter" where
  "dyn_max ds = fold (\<lambda>d m. max (dir_level d) m) ds None"

definition span_enabled :: "env_filter \<Rightarrow> bool" where
  "span_enabled f \<longleftrightarrow>
     (Some Debug \<le> dyn_max (ef_dynamics f) \<and> list_ex dyn_cares_span (ef_dynamics f)) \<or>
     statics_enabled (ef_statics f) span_target None Debug"

definition scope_admits :: "env_filter \<Rightarrow> level \<Rightarrow> bool" where
  "scope_admits f l \<longleftrightarrow>
     span_enabled f \<and>
     list_ex (\<lambda>d. dyn_cares_span d \<and> list_all (\<lambda>x. snd x = None) (dir_fields d) \<and> Some l \<le> dir_level d)
       (ef_dynamics f)"

text \<open>\<open>EnvFilter::enabled\<close> for an event inside the request span.\<close>

definition event_enabled :: "env_filter \<Rightarrow> event \<Rightarrow> bool" where
  "event_enabled f ev \<longleftrightarrow>
     scope_admits f (ev_level ev) \<or>
     statics_enabled (ef_statics f) (ev_target ev) (Some (ev_fields ev)) (ev_level ev)"

text \<open>The file logger (lines 49 to 58) writes the events its filter enables, in order.\<close>

definition log_written :: "env_filter \<Rightarrow> event list \<Rightarrow> event list" where
  "log_written f evs = filter (event_enabled f) evs"

subsection \<open>Resolving the filter in \<open>main\<close>\<close>

datatype from_env_error = EnvNotPresent | DirectiveError

text \<open>\<open>EnvFilter::try_from_env\<close>: the variable must be set, and parse strictly.\<close>

definition try_from_env :: "env \<Rightarrow> string \<Rightarrow> from_env_error + env_filter" where
  "try_from_env e v =
     (case e v of
        None \<Rightarrow> Inl EnvNotPresent
      | Some s \<Rightarrow> (case parse_strict s of
                    None \<Rightarrow> Inl DirectiveError
                  | Some ds \<Rightarrow> Inr (from_directives None ds)))"

text \<open>
  \<open>Builder::from_env_lossy\<close> on \<open>RUST_LOG\<close> (unset reads as empty): the filter and
  the lines reported on standard error for the skipped directives.
\<close>

definition from_env_lossy :: "level_filter \<Rightarrow> env \<Rightarrow> env_filter \<times> string list" where
  "from_env_lossy dflt e =
     (let (ds, bad) = parse_lossy (case e ''RUST_LOG'' of None \<Rightarrow> [] | Some s \<Rightarrow> s)
      in (from_directives (Some dflt) ds,
          map (\<lambda>w. ''ignoring `'' @ w @ ''`: invalid filter directive'') bad))"

text \<open>The \<open>Debug\<close> of the error, as the first \<open>println!\<close> writes it.\<close>

fun from_env_error_debug :: "from_env_error \<Rightarrow> string" where
  "from_env_error_debug EnvNotPresent = ''FromEnvError { kind: Env(NotPresent) }''"
| "from_env_error_debug DirectiveError =
     ''FromEnvError { kind: Parse(ParseError { kind: Other(None) }) }''"

definition quoted :: "string \<Rightarrow> string" where
  "quoted s = CHR 0x22 # s @ [CHR 0x22]"

definition stdout_lines :: "from_env_error \<Rightarrow> string list" where
  "stdout_lines err =
     [''Something goes wrong with '' @ quoted ''AXUM_TEST_LOG'' @ '' env var: ''
        @ from_env_error_debug err,
      ''Enable '' @ quoted ''RUST_LOG'' @ '' directives if available, ERROR level otherwise'']"

record log_setup =
  ls_stdout :: "string list"
  ls_stderr :: "string list"
  ls_filter :: env_filter

text \<open>Lines 37 to 45.\<close>

definition resolve_log_filter :: "env \<Rightarrow> log_setup" where
  "resolve_log_filter e =
     (case try_from_env e ''AXUM_TEST_LOG'' of
        Inr f \<Rightarrow> \<lparr>ls_stdout = [], ls_stderr = [], ls_filter = f\<rparr>
      | Inl err \<Rightarrow>
          (let (f, errs) = from_env_lossy (Some Error) e
           in \<lparr>ls_stdout = stdout_lines err, ls_stderr = errs, ls_filter = f\<rparr>))"

subsection \<open>Lemmas\<close>

lemmas directive_eval = parse_strict_def directive_pieces_def parse_directive_def regex_level_def
  level_names_def eq_ignore_ascii_case_def ascii_lower_def parse_level_filter_def parse_usize_def
  is_digit_def name_level_def take_part_def is_target_char_def rest_level_def char_of_eq_iff
  parse_lossy_def

lemma more_specific_trans:
  "more_specific a b \<Longrightarrow> more_specific b c \<Longrightarrow> more_specific a c"
  unfolding more_specific_def by (auto dest: less_trans)

lemma more_specific_irrefl: "\<not> more_specific a a"
  by (simp add: more_specific_def)

lemma static_pick_fold:
  assumes "case acc of None \<Rightarrow> (\<forall>d \<in> A. \<not> static_cares tgt fs d)
           | Some p \<Rightarrow> p \<in> A \<and> static_cares tgt fs p \<and>
               (\<forall>d \<in> A. static_cares tgt fs d \<longrightarrow> \<not> more_specific d p)"
  shows "case fold (\<lambda>d acc. if static_cares tgt fs d
                   then (case acc of None \<Rightarrow> Some d | Some a \<Rightarrow> if more_specific d a then Some d else acc)
                   else acc) ds acc of
           None \<Rightarrow> (\<forall>d \<in> A \<union> set ds. \<not> static_cares tgt fs d)
         | Some p \<Rightarrow> p \<in> A \<union> set ds \<and> static_cares tgt fs p \<and>
               (\<forall>d \<in> A \<union> set ds. static_cares tgt fs d \<longrightarrow> \<not> more_specific d p)"
  using assms
proof (induction ds arbitrary: acc A)
  case Nil
  then show ?case by (cases acc) auto
next
  case (Cons x xs)
  let ?acc = "if static_cares tgt fs x
              then (case acc of None \<Rightarrow> Some x | Some a \<Rightarrow> if more_specific x a then Some x else acc)
              else acc"
  have "case ?acc of None \<Rightarrow> (\<forall>d \<in> insert x A. \<not> static_cares tgt fs d)
        | Some p \<Rightarrow> p \<in> insert x A \<and> static_cares tgt fs p \<and>
            (\<forall>d \<in> insert x A. static_cares tgt fs d \<longrightarrow> \<not> more_specific d p)"
    using Cons.prems more_specific_irrefl by (cases acc) (auto dest: more_specific_trans)
  moreover have "A \<union> set (x # xs) = insert x A \<union> set xs" by auto
  ultimately show ?case using Cons.IH by (simp only: fold_Cons o_apply)
qed

lemma single_global_enabled:
  "event_enabled \<lparr>ef_statics = [(None, [], l)], ef_dynamics = []\<rparr> ev \<longleftrightarrow> Some (ev_level ev) \<le> l"
  by (simp add: event_enabled_def scope_admits_def statics_enabled_def static_pick_def
      static_cares_def target_matches_def)

lemma no_directive_disabled: "\<not> event_enabled \<lparr>ef_statics = [], ef_dynamics = []\<rparr> ev"
  by (simp add: event_enabled_def scope_admits_def statics_enabled_def static_pick_def)

lemma from_directives_Nil [simp]:
  "from_directives d [] =
     \<lparr>ef_statics = (case d of None \<Rightarrow> [] | Some l \<Rightarrow> [(None, [], l)]), ef_dynamics = []\<rparr>"
  by (simp add: from_directives_def)

lemma from_directives_global [simp]:
  "from_directives d [Directive None None [] l] = \<lparr>ef_statics = [(None, [], l)], ef_dynamics = []\<rparr>"
  by (simp add: from_directives_def is_static_def is_dynamic_def to_static_def add_static_def)

lemma resolve_valid:
  "e ''AXUM_TEST_LOG'' = Some v \<Longrightarrow> parse_strict v = Some ds \<Longrightarrow>
     resolve_log_filter e = \<lparr>ls_stdout = [], ls_stderr = [], ls_filter = from_directives None ds\<rparr>"
  by (simp add: resolve_log_filter_def try_from_env_def)

lemma resolve_fallback:
  "try_from_env e ''AXUM_TEST_LOG'' = Inl err \<Longrightarrow>
     resolve_log_filter e =
       \<lparr>ls_stdout = stdout_lines err, ls_stderr = snd (from_env_lossy (Some Error) e),
        ls_filter = fst (from_env_lossy (Some Error) e)\<rparr>"
  by (simp add: resolve_log_filter_def split: prod.splits)

lemma from_env_lossy_unset:
  "e ''RUST_LOG'' = None \<Longrightarrow>
     from_env_lossy dflt e = (\<lparr>ef_statics = [(None, [], dflt)], ef_dynamics = []\<rparr>, [])"
  by (simp add: from_env_lossy_def parse_lossy_def directive_pieces_def)

lemma from_env_lossy_global:
  "e ''RUST_LOG'' = Some w \<Longrightarrow> fst (parse_lossy w) = [Directive None None [] l] \<Longrightarrow>
     fst (from_env_lossy dflt e) = \<lparr>ef_statics = [(None, [], l)], ef_dynamics = []\<rparr>"
  by (cases "parse_lossy w") (simp add: from_env_lossy_def)

lemma try_from_env_fallback:
  assumes "e v = None \<or> (\<exists>s. e v = Some s \<and> parse_strict s = None)"
  shows "try_from_env e v = Inl (if e v = None then EnvNotPresent else DirectiveError)"
  using assms by (auto simp: try_from_env_def)

lemma resolve_fallback_filter:
  assumes "e ''AXUM_TEST_LOG'' = None \<or> (\<exists>v. e ''AXUM_TEST_LOG'' = Some v \<and> parse_strict v = None)"
    and "e ''RUST_LOG'' = None"
  shows "resolve_log_filter e =
     \<lparr>ls_stdout = stdout_lines (if e ''AXUM_TEST_LOG'' = None then EnvNotPresent else DirectiveError),
      ls_stderr = [], ls_filter = \<lparr>ef_statics = [(None, [], Some Error)], ef_dynamics = []\<rparr>\<rparr>"
  using resolve_fallback [OF try_from_env_fallback [of e, OF assms(1)]] from_env_lossy_unset [of e, OF assms(2)]
  by simp

lemma level_names_no_eq: "(n, l) \<in> set level_names \<Longrightarrow> CHR ''='' \<notin> set n"
  by (auto simp: level_names_def)

lemma regex_level_eq_sign:
  assumes "CHR ''='' \<in> set s" "2 \<le> length s"
  shows "\<not> regex_level s"
proof -
  have "\<not> eq_ignore_ascii_case s n" if "(n, l) \<in> set level_names" for n l
    using eq_ignore_case_char [OF _ assms(1)] level_names_no_eq [OF that] by auto
  moreover have "(case s of [c] \<Rightarrow> CHR ''0'' \<le> c \<and> c \<le> CHR ''5'' | _ \<Rightarrow> False) = False"
    using assms(2) by (cases s rule: remdups_adj.cases) auto
  ultimately show ?thesis by (auto simp: regex_level_def list_ex_iff)
qed

lemma level_filter_str_parse:
  "level_filter_str l \<noteq> [] \<and> regex_level (level_filter_str l) \<and>
   parse_level_filter (level_filter_str l) = Some l"
  by (cases l rule: level_filter_str.cases) (simp_all add: directive_eval)

lemma take_part_target:
  assumes "t \<noteq> []" "list_all is_target_char t" "r = c # r'" "\<not> is_target_char c"
  shows "take_part (t @ r) = Some (TPart t, r)"
proof -
  obtain x xs where t: "t = x # xs" using assms(1) by (cases t) auto
  have "x \<noteq> CHR ''[''" "is_target_char x" using assms(2) t by (auto simp: is_target_char_def Let_def)
  moreover have "takeWhile is_target_char (t @ r) = t" "dropWhile is_target_char (t @ r) = r"
    using assms(2-4) by (simp_all add: list_all_iff)
  ultimately show ?thesis using t by (simp add: take_part_def)
qed

lemma eq_not_target_char [simp]: "\<not> is_target_char CHR ''=''"
  by (simp add: is_target_char_def Let_def)

lemma add_static_absorb:
  "(fst x, fst (snd x)) = (fst y, fst (snd y)) \<Longrightarrow> add_static y (add_static x A) = add_static y A"
  by (simp add: add_static_def)

lemma add_dynamic_absorb:
  "(dir_target x, dir_span x, dir_fields x) = (dir_target y, dir_span y, dir_fields y) \<Longrightarrow>
     add_dynamic y (add_dynamic x A) = add_dynamic y A"
  by (simp add: add_dynamic_def)

lemma static_fields_eq:
  "list_all (\<lambda>f. snd f = None) xs \<Longrightarrow> list_all (\<lambda>f. snd f = None) ys \<Longrightarrow>
     map fst xs = map fst ys \<Longrightarrow> xs = ys"
proof (induction xs arbitrary: ys)
  case Nil
  then show ?case by simp
next
  case (Cons a xs)
  then show ?case by (cases ys) (auto simp: prod_eq_iff)
qed

lemma fold_absorb:
  "(\<And>a. f y (f x a) = f y a) \<Longrightarrow> fold f (A @ [x, y] @ B) a = fold f (A @ [y] @ B) a"
  by simp

lemma fold_absorb_last: "(\<And>a. f y (f x a) = f y a) \<Longrightarrow> fold f (A @ [x, y]) a = fold f (A @ [y]) a"
  by simp

subsection \<open>Properties of the log filter\<close>

text \<open>
  C10: with \<open>AXUM_TEST_LOG\<close> unset or not a valid filter, and \<open>RUST_LOG\<close> unset,
  the program prints the two diagnostic lines (naming the error), reports nothing on
  standard error, and the file logger admits exactly the \<open>ERROR\<close> events.
\<close>

theorem resolve_fallback_error_only:
  assumes "e ''AXUM_TEST_LOG'' = None \<or> (\<exists>v. e ''AXUM_TEST_LOG'' = Some v \<and> parse_strict v = None)"
    and "e ''RUST_LOG'' = None"
  shows "ls_stdout (resolve_log_filter e) =
           stdout_lines (if e ''AXUM_TEST_LOG'' = None then EnvNotPresent else DirectiveError) \<and>
         ls_stderr (resolve_log_filter e) = [] \<and>
         (event_enabled (ls_filter (resolve_log_filter e)) ev \<longleftrightarrow> ev_level ev = Error)"
  by (simp add: resolve_fallback_filter [OF assms] single_global_enabled)

theorem resolve_fallback_error_only_witness:
  "ls_stdout (resolve_log_filter [''AXUM_TEST_LOG'' \<mapsto> ''x!'']) = stdout_lines DirectiveError \<and>
   ls_stderr (resolve_log_filter [''AXUM_TEST_LOG'' \<mapsto> ''x!'']) = [] \<and>
   \<not> event_enabled (ls_filter (resolve_log_filter [''AXUM_TEST_LOG'' \<mapsto> ''x!''])) (on_response_event 9 5)"
  using resolve_fallback_error_only [of "[''AXUM_TEST_LOG'' \<mapsto> ''x!'']" "on_response_event 9 5"]
  by (simp add: directive_eval on_response_event_def)

text \<open>
  C11: with \<open>AXUM_TEST_LOG\<close> set to the empty string, the strict parse succeeds with no
  directive: nothing is printed, there is no fallback, and the logger admits no event at
  all, not even an \<open>ERROR\<close>.
\<close>

theorem resolve_empty_disables_all:
  "e ''AXUM_TEST_LOG'' = Some [] \<Longrightarrow>
     ls_stdout (resolve_log_filter e) = [] \<and> \<not> event_enabled (ls_filter (resolve_log_filter e)) ev"
  by (simp add: resolve_valid parse_strict_def no_directive_disabled)

theorem resolve_empty_disables_all_witness:
  "ls_stdout (resolve_log_filter [''AXUM_TEST_LOG'' \<mapsto> []]) = [] \<and>
   \<not> event_enabled (ls_filter (resolve_log_filter [''AXUM_TEST_LOG'' \<mapsto> []])) (on_failure_event 3 500 2000000)"
  using resolve_empty_disables_all [of "[''AXUM_TEST_LOG'' \<mapsto> []]" "on_failure_event 3 500 2000000"] by simp

text \<open>
  C12: with \<open>AXUM_TEST_LOG\<close> a single level (\<open>info\<close>, \<open>INFO\<close>, \<open>3\<close>, ...), nothing is
  printed and the logger admits exactly the events at that level or more severe.
\<close>

theorem resolve_global_level:
  "e ''AXUM_TEST_LOG'' = Some v \<Longrightarrow> parse_strict v = Some [Directive None None [] l] \<Longrightarrow>
     ls_stdout (resolve_log_filter e) = [] \<and>
     (event_enabled (ls_filter (resolve_log_filter e)) ev \<longleftrightarrow> Some (ev_level ev) \<le> l)"
  by (simp add: resolve_valid single_global_enabled)

theorem resolve_global_level_witness:
  "ls_stdout (resolve_log_filter [''AXUM_TEST_LOG'' \<mapsto> ''INFO'']) = [] \<and>
   event_enabled (ls_filter (resolve_log_filter [''AXUM_TEST_LOG'' \<mapsto> ''INFO''])) (on_response_event 9 5) \<and>
   \<not> event_enabled (ls_filter (resolve_log_filter [''AXUM_TEST_LOG'' \<mapsto> ''INFO''])) (on_request_event 9)"
proof -
  have p: "parse_strict ''INFO'' = Some [Directive None None [] (Some Info)]"
    by (simp add: directive_eval)
  show ?thesis
    using resolve_global_level [OF _ p, of "[''AXUM_TEST_LOG'' \<mapsto> ''INFO'']"]
    by (simp add: on_response_event_def on_request_event_def less_eq_level_def)
qed


text \<open>
  C13: a directive \<open>target=LEVEL\<close>, written with the \<open>Display\<close> of the level, parses back
  to that target and level, for every ASCII target that is not itself a level.
\<close>

theorem parse_directive_target_level:
  assumes "t \<noteq> []" "list_all is_target_char t" "parse_level_filter t = None"
  shows "parse_directive (t @ ''='' @ level_filter_str l) = Some (Directive (Some t) None [] l)"
proof -
  let ?r = "''='' @ level_filter_str l"
  have nr: "\<not> regex_level (t @ ?r)"
    using assms(1) by (intro regex_level_eq_sign) (auto simp: Suc_le_eq)
  have tp: "take_part (t @ ?r) = Some (TPart t, ?r)"
    by (rule take_part_target [OF assms(1,2), where c = "CHR ''=''" and r' = "level_filter_str l"]) simp_all
  have "take_part ?r = None" by (simp add: take_part_def is_target_char_def Let_def)
  moreover have "rest_level ?r = Some l"
    using level_filter_str_parse [of l] by (simp add: rest_level_def)
  ultimately show ?thesis using nr tp assms(3) by (simp add: parse_directive_def)
qed

theorem parse_directive_target_level_witness:
  "parse_directive (''axum_test'' @ ''='' @ level_filter_str (Some Info)) =
     Some (Directive (Some ''axum_test'') None [] (Some Info))"
proof -
  have "parse_level_filter ''axum_test'' = None" by (simp add: directive_eval)
  moreover have "list_all is_target_char ''axum_test''" by (simp add: is_target_char_def Let_def)
  ultimately show ?thesis using parse_directive_target_level [of "''axum_test''" "Some Info"] by simp
qed

text \<open>
  C14: of two static directives for the same target and field names, the later one
  wins: the earlier one leaves no trace in the filter.
\<close>

theorem later_directive_wins:
  assumes "is_static x" "is_static y" "dir_target x = dir_target y"
    "map fst (dir_fields x) = map fst (dir_fields y)"
  shows "from_directives d (ds @ [x, y]) = from_directives d (ds @ [y])"
proof -
  have f: "dir_fields x = dir_fields y"
    using assms(1,2,4) by (simp add: is_static_def static_fields_eq)
  have sp: "dir_span x = dir_span y" using assms(1,2) by (simp add: is_static_def)
  have dd: "is_dynamic y = is_dynamic x" by (simp add: is_dynamic_def f sp)
  have ks: "add_static (to_static y) (add_static (to_static x) a) = add_static (to_static y) a" for a
    using assms(3) f by (intro add_static_absorb) (simp add: to_static_def)
  have kd: "add_dynamic y (add_dynamic x a) = add_dynamic y a" for a
    using assms(3) f sp by (intro add_dynamic_absorb) simp
  show ?thesis
  proof (cases "is_dynamic x")
    case True
    then show ?thesis
      using fold_absorb_last [of add_static "to_static y" "to_static x", OF ks,
          of "map to_static (filter (\<lambda>d. \<not> is_dynamic d) ds) @
              map to_static (filter (\<lambda>d. is_dynamic d \<and> is_static d) ds)" "[]"]
        fold_absorb_last [of add_dynamic y x, OF kd]
      by (simp add: from_directives_def dd assms(1,2) del: fold_append)
  next
    case False
    then show ?thesis
      using fold_absorb [of add_static "to_static y" "to_static x", OF ks]
      by (simp add: from_directives_def dd del: fold_append)
  qed
qed

theorem later_directive_wins_witness:
  "from_directives None [Directive (Some ''axum_test'') None [] (Some Error),
                         Directive (Some ''axum_test'') None [] (Some Info)] =
   from_directives None [Directive (Some ''axum_test'') None [] (Some Info)]"
  using later_directive_wins [of "Directive (Some ''axum_test'') None [] (Some Error)"
      "Directive (Some ''axum_test'') None [] (Some Info)" None "[]"]
  by (simp add: is_static_def)

text \<open>
  C15: the static directive that decides an event is, among the directives that match it,
  one with the longest target (a directive without a target counts as the shortest), and
  among those one with the most field names; there is none exactly when no directive
  matches. So \<open>tower_http=debug\<close> decides over a global \<open>info\<close> for the trace layer's events.
\<close>

theorem static_pick_most_specific:
  "(static_pick ds tgt fs = None \<longleftrightarrow> (\<forall>d \<in> set ds. \<not> static_cares tgt fs d)) \<and>
   (static_pick ds tgt fs = Some p \<longrightarrow>
      p \<in> set ds \<and> static_cares tgt fs p \<and>
      (\<forall>d \<in> set ds. static_cares tgt fs d \<longrightarrow>
         target_len (fst d) \<le> target_len (fst p) \<and>
         (target_len (fst d) = target_len (fst p) \<longrightarrow> length (fst (snd d)) \<le> length (fst (snd p)))))"
proof -
  have "(static_pick ds tgt fs = None \<longleftrightarrow> (\<forall>d \<in> set ds. \<not> static_cares tgt fs d)) \<and>
     (static_pick ds tgt fs = Some p \<longrightarrow>
        p \<in> set ds \<and> static_cares tgt fs p \<and> (\<forall>d \<in> set ds. static_cares tgt fs d \<longrightarrow> \<not> more_specific d p))"
    using static_pick_fold [where acc = None and A = "{}" and tgt = tgt and fs = fs and ds = ds]
    unfolding static_pick_def by (auto split: option.splits)
  then show ?thesis by (auto simp: more_specific_def not_less)
qed

theorem static_pick_most_specific_witness:
  "static_pick [(None, [], Some Info), (Some ''tower_http'', [], Some Debug)]
       ''tower_http::trace::on_request'' (Some [''message'']) = Some (Some ''tower_http'', [], Some Debug) \<and>
   static_cares ''tower_http::trace::on_request'' (Some [''message'']) (None, [], Some Info) \<and>
   target_len (fst (None :: string option, [] :: string list, Some Info)) \<le>
     target_len (fst (Some ''tower_http'', [] :: string list, Some Debug))"
  using static_pick_most_specific [of "[(None, [], Some Info), (Some ''tower_http'', [], Some Debug)]"
      "''tower_http::trace::on_request''" "Some [''message'']" "(Some ''tower_http'', [], Some Debug)"]
  by (simp add: static_pick_def static_cares_def target_matches_def more_specific_def target_len_def)

end
