(* ===== verification/LogFile.thy ===== *)
theory LogFile
  imports LogFilter
begin

text \<open>
  The log file of \<open>src/main.rs\<close> (line 47): \<open>tracing_appender::rolling::daily("./logs",
  "axum_test")\<close> is a rolling appender with \<open>Rotation::DAILY\<close>. Each write goes to the
  file named by the prefix, a dot and the UTC date of the write formatted as
  \<open>[year]-[month]-[day]\<close> (zero-padded to four, two and two digits); when a write
  falls on a later day than the current file's, the appender opens the file of that
  day. Event times are nanoseconds since the Unix epoch, so the date of a write is the
  calendar date of the day count \<open>t div nanos_per_day\<close> since 1970-01-01, in the
  proleptic Gregorian calendar. The date is computed by whole years, then whole
  months; both loops are \<open>function\<close>s whose measure is the days left, resp. the months
  left. A reference calendar (\<open>gregorian_leap\<close>, \<open>days_in_month\<close>, \<open>next_day\<close>: one
  day forward by the Gregorian rules) is not code of the program: the claim about the
  date computation is stated against it.
\<close>

definition nanos_per_day :: nat where
  "nanos_per_day = 86400 * 1000000000"

definition is_leap :: "nat \<Rightarrow> bool" where
  "is_leap y \<longleftrightarrow> (y mod 4 = 0 \<and> y mod 100 \<noteq> 0) \<or> y mod 400 = 0"

definition year_days :: "nat \<Rightarrow> nat" where
  "year_days y = (if is_leap y then 366 else 365)"

text \<open>The length of month \<open>m\<close> (1 to 12) of year \<open>y\<close>.\<close>

definition month_days :: "nat \<Rightarrow> nat \<Rightarrow> nat" where
  "month_days y m =
     (if m = 2 then (if is_leap y then 29 else 28)
      else if m = 4 \<or> m = 6 \<or> m = 9 \<or> m = 11 then 30 else 31)"

text \<open>The year that day \<open>n\<close> of year \<open>y\<close> onwards falls in, and the day within it.\<close>

function year_of :: "nat \<Rightarrow> nat \<Rightarrow> nat \<times> nat" where
  "year_of y n = (if n < year_days y then (y, n) else year_of (Suc y) (n - year_days y))"
  by pat_completeness auto
termination
  by (relation "measure snd") (auto simp: year_days_def)

text \<open>The month that day \<open>n\<close> of month \<open>m\<close> onwards falls in (at most December).\<close>

function month_of :: "nat \<Rightarrow> nat \<Rightarrow> nat \<Rightarrow> nat \<times> nat" where
  "month_of y m n =
     (if 12 \<le> m \<or> n < month_days y m then (m, n) else month_of y (Suc m) (n - month_days y m))"
  by pat_completeness auto
termination
  by (relation "measure (\<lambda>(y, m, n). 12 - m)") auto

declare year_of.simps [simp del] month_of.simps [simp del]

type_synonym date = "nat \<times> nat \<times> nat"

definition date_of_days :: "nat \<Rightarrow> date" where
  "date_of_days n =
     (let (y, r) = year_of 1970 n; (m, d) = month_of y 1 r in (y, m, Suc d))"

text \<open>\<open>[year]-[month]-[day]\<close>: each number zero-padded to its width.\<close>

definition pad :: "nat \<Rightarrow> nat \<Rightarrow> string" where
  "pad w n = replicate (w - length (dec_string n)) CHR ''0'' @ dec_string n"

definition date_str :: "date \<Rightarrow> string" where
  "date_str dt =
     (case dt of (y, m, d) \<Rightarrow> pad 4 y @ ''-'' @ pad 2 m @ ''-'' @ pad 2 d)"

definition log_file_name :: "nanos \<Rightarrow> string" where
  "log_file_name t = ''./logs/axum_test.'' @ date_str (date_of_days (t div nanos_per_day))"

subsection \<open>The inverse: days since the epoch of a date\<close>

fun sum_years :: "nat \<Rightarrow> nat \<Rightarrow> nat" where
  "sum_years y 0 = 0"
| "sum_years y (Suc k) = year_days y + sum_years (Suc y) k"

fun sum_months :: "nat \<Rightarrow> nat \<Rightarrow> nat \<Rightarrow> nat" where
  "sum_months y m 0 = 0"
| "sum_months y m (Suc k) = month_days y m + sum_months y (Suc m) k"

definition days_of_date :: "date \<Rightarrow> nat" where
  "days_of_date dt =
     (case dt of (y, m, d) \<Rightarrow> sum_years 1970 (y - 1970) + sum_months y 1 (m - 1) + (d - 1))"

text \<open>Reading a date back from a file name's suffix.\<close>

definition parse_date :: "string \<Rightarrow> date option" where
  "parse_date s =
     (case split_on CHR ''-'' s of
        [a, b, c] \<Rightarrow> Some (dec_value a, dec_value b, dec_value c)
      | _ \<Rightarrow> None)"

text \<open>
  A reference calendar, independent of the two loops: the Gregorian leap rule and the
  month lengths written out, and the date that follows a date, one day at a time.
\<close>

definition gregorian_leap :: "nat \<Rightarrow> bool" where
  "gregorian_leap y \<longleftrightarrow> y mod 4 = 0 \<and> (y mod 100 \<noteq> 0 \<or> y mod 400 = 0)"

definition days_in_month :: "nat \<Rightarrow> nat \<Rightarrow> nat" where
  "days_in_month y m =
     [31, if gregorian_leap y then 29 else 28, 31, 30, 31, 30, 31, 31, 30, 31, 30, 31] ! (m - 1)"

definition next_day :: "date \<Rightarrow> date" where
  "next_day dt =
     (case dt of (y, m, d) \<Rightarrow>
        if d < days_in_month y m then (y, m, Suc d)
        else if m < 12 then (y, Suc m, 1) else (Suc y, 1, 1))"

subsection \<open>Lemmas\<close>

lemma year_days_pos [simp]: "0 < year_days y"
  by (simp add: year_days_def)

lemma year_of_spec:
  "year_of y n = (y', r) \<Longrightarrow> y \<le> y' \<and> r < year_days y' \<and> sum_years y (y' - y) + r = n"
proof (induction y n rule: year_of.induct)
  case (1 y n)
  show ?case
  proof (cases "n < year_days y")
    case True
    with "1.prems" show ?thesis by (simp add: year_of.simps)
  next
    case False
    with "1.prems" have r: "year_of (Suc y) (n - year_days y) = (y', r)"
      by (simp add: year_of.simps)
    with "1.IH" [OF False r] False have "Suc y \<le> y'" "r < year_days y'"
      "sum_years (Suc y) (y' - Suc y) + r = n - year_days y" by auto
    moreover from this(1) have "y' - y = Suc (y' - Suc y)" by simp
    ultimately show ?thesis using False by simp
  qed
qed

lemma sum_months_year: "sum_months y 1 12 = year_days y"
  by (simp add: numeral_eq_Suc month_days_def year_days_def)

lemma month_of_spec:
  "month_of y m n = (m', r) \<Longrightarrow> 1 \<le> m \<Longrightarrow> m \<le> 12 \<Longrightarrow> n < sum_months y m (13 - m) \<Longrightarrow>
     m \<le> m' \<and> m' \<le> 12 \<and> r < month_days y m' \<and> sum_months y m (m' - m) + r = n"
proof (induction y m n rule: month_of.induct)
  case (1 y m n)
  show ?case
  proof (cases "12 \<le> m \<or> n < month_days y m")
    case True
    then have "m' = m" "r = n" using "1.prems"(1) by (simp_all add: month_of.simps)
    moreover have "n < month_days y m"
      using True "1.prems"(3,4) by (auto simp: numeral_eq_Suc)
    ultimately show ?thesis using "1.prems"(3) by simp
  next
    case False
    with "1.prems" have r: "month_of y (Suc m) (n - month_days y m) = (m', r)"
      by (simp add: month_of.simps)
    from False have "13 - m = Suc (12 - m)" by arith
    then have s: "sum_months y m (13 - m) = month_days y m + sum_months y (Suc m) (13 - Suc m)"
      by simp
    moreover have "month_days y m \<le> n" using False by simp
    ultimately have "n - month_days y m < sum_months y (Suc m) (13 - Suc m)"
      using "1.prems"(4) by linarith
    with "1.IH" [OF False r] False have "Suc m \<le> m'" "m' \<le> 12" "r < month_days y m'"
      "sum_months y (Suc m) (m' - Suc m) + r = n - month_days y m" by auto
    moreover from this(1) have "m' - m = Suc (m' - Suc m)" by simp
    ultimately show ?thesis using False by simp
  qed
qed

lemma date_of_days_spec:
  assumes "date_of_days n = (y, m, d)"
  shows "1970 \<le> y \<and> 1 \<le> m \<and> m \<le> 12 \<and> 1 \<le> d \<and> d \<le> month_days y m \<and>
    sum_years 1970 (y - 1970) + sum_months y 1 (m - 1) + (d - 1) = n"
proof -
  obtain r where yr: "year_of 1970 n = (y, r)"
    using assms by (auto simp: date_of_days_def split: prod.splits)
  obtain d0 where md: "month_of y 1 r = (m, d0)" and d: "d = Suc d0"
    using assms yr by (auto simp: date_of_days_def split: prod.splits)
  from year_of_spec [OF yr] have y: "1970 \<le> y" "r < year_days y" "sum_years 1970 (y - 1970) + r = n"
    by auto
  from y(2) sum_months_year [of y] have "r < sum_months y 1 (13 - 1)" by simp
  from month_of_spec [OF md _ _ this] have "1 \<le> m" "m \<le> 12" "d0 < month_days y m"
    "sum_months y 1 (m - 1) + d0 = r" by auto
  with y d show ?thesis by auto
qed

lemma days_of_date_of_days [simp]: "days_of_date (date_of_days n) = n"
  using date_of_days_spec [of n] by (auto simp: days_of_date_def split: prod.splits)

lemma date_of_days_inj: "date_of_days a = date_of_days b \<Longrightarrow> a = b"
  by (metis days_of_date_of_days)

lemma dec_value_zeros [simp]: "dec_value (replicate k CHR ''0'' @ s) = dec_value s"
proof (induction k)
  case 0
  then show ?case by simp
next
  case (Suc k)
  have "digit_val CHR ''0'' = 0" by (simp add: digit_val_def)
  with Suc show ?case by (simp add: dec_value_def)
qed

lemma dec_value_pad [simp]: "dec_value (pad w n) = n"
  by (simp add: pad_def)

lemma pad_no_char: "\<not> is_digit c \<Longrightarrow> c \<notin> set (pad w n)"
  by (auto simp: pad_def dec_string_no_char is_digit_def)

lemma length_pad: "n < 10 ^ w \<Longrightarrow> 0 < w \<Longrightarrow> length (pad w n) = w"
  using length_dec_string [of n w] by (simp add: pad_def)

lemma pad_digits: "list_all is_digit (pad w n)"
  using dec_string_digits [of n] by (auto simp: pad_def is_digit_def list_all_iff)

lemma pad_not_Nil [simp]: "pad w n \<noteq> []"
  by (simp add: pad_def)

lemma pad_sep_chars: "c \<in> {CHR ''-'', CHR ''T'', CHR '':'', CHR ''.''} \<Longrightarrow> c \<notin> set (pad w n)"
  by (auto simp: pad_no_char is_digit_def)

lemma parse_date_str [simp]: "parse_date (date_str dt) = Some dt"
proof (cases dt)
  case (fields y m d)
  have "split_on CHR ''-'' (pad 4 y @ CHR ''-'' # pad 2 m @ CHR ''-'' # pad 2 d) = [pad 4 y, pad 2 m, pad 2 d]"
    by (simp add: split_on_append_sep split_on_no_sep pad_sep_chars)
  then show ?thesis by (simp add: fields date_str_def parse_date_def)
qed

lemma date_str_inj: "date_str a = date_str b \<Longrightarrow> a = b"
  by (metis option.inject parse_date_str)

lemma log_file_name_eq_iff:
  "log_file_name t1 = log_file_name t2 \<longleftrightarrow> t1 div nanos_per_day = t2 div nanos_per_day"
  by (auto simp: log_file_name_def dest: date_str_inj date_of_days_inj)

lemmas date_eval = log_file_name_def nanos_per_day_def date_of_days_def date_str_def pad_def
  dec_string.simps year_of.simps month_of.simps year_days_def is_leap_def month_days_def
  numeral_2_eq_2 [symmetric]

lemma year_of_sum: "r < year_days (y + k) \<Longrightarrow> year_of y (sum_years y k + r) = (y + k, r)"
proof (induction k arbitrary: y)
  case 0
  then show ?case by (simp add: year_of.simps)
next
  case (Suc k)
  then have "year_of (Suc y) (sum_years (Suc y) k + r) = (Suc y + k, r)" by simp
  then show ?case by (subst year_of.simps) simp
qed

lemma month_of_sum:
  "m + k \<le> 12 \<Longrightarrow> r < month_days y (m + k) \<Longrightarrow> month_of y m (sum_months y m k + r) = (m + k, r)"
proof (induction k arbitrary: m)
  case 0
  then show ?case by (simp add: month_of.simps)
next
  case (Suc k)
  then have "month_of y (Suc m) (sum_months y (Suc m) k + r) = (Suc m + k, r)" by simp
  moreover have "\<not> 12 \<le> m" using Suc.prems(1) by simp
  ultimately show ?case by (subst month_of.simps) simp
qed

lemma sum_months_add: "sum_months y m (k + j) = sum_months y m k + sum_months y (m + k) j"
  by (induction k arbitrary: m) simp_all

lemma sum_years_snoc: "sum_years y (Suc k) = sum_years y k + year_days (y + k)"
  by (induction k arbitrary: y) simp_all

lemma date_of_days_of_date:
  assumes "1970 \<le> y" "1 \<le> m" "m \<le> 12" "1 \<le> d" "d \<le> month_days y m"
  shows "date_of_days (days_of_date (y, m, d)) = (y, m, d)"
proof -
  have "sum_months y 1 12 = sum_months y 1 (m - 1) + sum_months y m 1 + sum_months y (Suc m) (12 - m)"
    using sum_months_add [of y 1 "m - 1" "1 + (12 - m)"] sum_months_add [of y m 1 "12 - m"] assms(2,3)
    by simp
  moreover have "sum_months y m 1 = month_days y m" by simp
  ultimately have "sum_months y 1 (m - 1) + month_days y m \<le> year_days y"
    using sum_months_year [of y] by linarith
  then have "sum_months y 1 (m - 1) + (d - 1) < year_days (1970 + (y - 1970))"
    using assms(1,4,5) by simp
  then have "year_of 1970 (days_of_date (y, m, d)) = (y, sum_months y 1 (m - 1) + (d - 1))"
    using year_of_sum [of "sum_months y 1 (m - 1) + (d - 1)" 1970 "y - 1970"] assms(1)
    by (simp add: days_of_date_def add.assoc)
  moreover have "month_of y 1 (sum_months y 1 (m - 1) + (d - 1)) = (m, d - 1)"
    using month_of_sum [of 1 "m - 1" "d - 1" y] assms(2-5) by simp
  ultimately show ?thesis using assms(4) by (simp add: date_of_days_def)
qed

lemma leap_gregorian: "is_leap y \<longleftrightarrow> gregorian_leap y"
  by (auto simp: is_leap_def gregorian_leap_def)

lemma month_days_ref: "1 \<le> m \<Longrightarrow> m \<le> 12 \<Longrightarrow> days_in_month y m = month_days y m"
proof -
  assume "1 \<le> m" "m \<le> 12"
  then have "m \<in> {1, 2, 3, 4, 5, 6, 7, 8, 9, 10, 11, 12}" by simp presburger
  then show ?thesis
    by (auto simp: days_in_month_def month_days_def leap_gregorian)
qed

lemma month_days_pos: "0 < month_days y m"
  by (simp add: month_days_def)

lemma sum_months_last: "1 \<le> m \<Longrightarrow> sum_months y 1 m = sum_months y 1 (m - 1) + month_days y m"
  using sum_months_add [of y 1 "m - 1" 1] by simp

lemma next_day_count:
  assumes "1970 \<le> y" "1 \<le> m" "m \<le> 12" "1 \<le> d" "d \<le> month_days y m"
    and nd: "next_day (y, m, d) = (y', m', d')"
  shows "1970 \<le> y' \<and> 1 \<le> m' \<and> m' \<le> 12 \<and> 1 \<le> d' \<and> d' \<le> month_days y' m' \<and>
    days_of_date (y', m', d') = Suc (days_of_date (y, m, d))"
proof -
  have dm: "days_in_month y m = month_days y m" using assms(2,3) by (rule month_days_ref)
  consider (day) "d < month_days y m" | (month) "d = month_days y m" "m < 12"
    | (year) "d = month_days y m" "m = 12"
    using assms(3,5) by linarith
  then show ?thesis
  proof cases
    case day
    with nd dm have "(y', m', d') = (y, m, Suc d)" by (simp add: next_day_def)
    with day assms(1-4) show ?thesis by (auto simp: days_of_date_def)
  next
    case month
    with nd dm have "(y', m', d') = (y, Suc m, 1)" by (simp add: next_day_def)
    moreover have "sum_months y 1 m = sum_months y 1 (m - 1) + month_days y m"
      using assms(2) by (rule sum_months_last)
    ultimately show ?thesis using month assms(1,2,4) month_days_pos [of y "Suc m"]
      by (auto simp: days_of_date_def)
  next
    case year
    with nd dm have "(y', m', d') = (Suc y, 1, 1)" by (simp add: next_day_def)
    moreover have "sum_years 1970 (Suc y - 1970) = sum_years 1970 (y - 1970) + year_days y"
    proof -
      have e: "Suc y - 1970 = Suc (y - 1970)" using assms(1) by simp
      show ?thesis using assms(1) by (simp only: e sum_years_snoc) simp
    qed
    moreover have "sum_months y 1 11 + month_days y 12 = year_days y"
      using sum_months_last [of 12 y] sum_months_year [of y] by simp
    ultimately show ?thesis using year assms(1) month_days_pos [of "Suc y" 1] month_days_pos [of y 12]
      by (auto simp: days_of_date_def)
  qed
qed

subsection \<open>Properties of the log file\<close>

text \<open>
  C21: the date the appender computes for the \<open>n\<close>-th day since 1970-01-01, skipping whole
  years and then whole months, is the date reached by stepping \<open>n\<close> days from 1970-01-01
  through the Gregorian calendar, where February has 29 days exactly in the years
  divisible by 4 and not by 100, unless by 400.
\<close>

theorem date_of_days_by_day: "date_of_days n = (next_day ^^ n) (1970, 1, 1)"
proof (induction n)
  case 0
  show ?case by (simp add: date_of_days_def year_of.simps month_of.simps year_days_def is_leap_def
      month_days_def)
next
  case (Suc n)
  obtain y m d where dt: "date_of_days n = (y, m, d)" by (metis prod_cases3)
  obtain y' m' d' where nd: "next_day (y, m, d) = (y', m', d')" by (metis prod_cases3)
  from date_of_days_spec [OF dt] have v: "1970 \<le> y" "1 \<le> m" "m \<le> 12" "1 \<le> d" "d \<le> month_days y m"
    by auto
  from next_day_count [OF v nd] have "date_of_days (Suc n) = (y', m', d')"
    using days_of_date_of_days [of n] dt date_of_days_of_date [of y' m' d'] by auto
  then show ?case using Suc.IH dt nd by simp
qed

text \<open>
  C22: the day of a log file can be read back from its name: the suffix after the
  prefix parses as the date, and the date counts back to the day.
\<close>

theorem log_file_name_roundtrip:
  "map_option days_of_date (parse_date (drop (length ''./logs/axum_test.'') (log_file_name t))) =
     Some (t div nanos_per_day)"
  by (simp add: log_file_name_def)

end
