(* ===== verification/Refinement.thy ===== *)
theory Refinement
  imports Pipeline "HOL-Library.Multiset"
begin

text \<open>
  What the metrics layer promises, stated abstractly, and the proof that the pipeline
  of \<open>src/main.rs\<close> (lines 78 to 90) implements it. The abstract recorder knows only
  two multisets: the label sets of the requests being processed, and the label sets of
  the requests that completed. A request starts under its method and endpoint, and
  completes under the same method and endpoint with a status; nothing else happens.
  The concrete server is mapped to this state by \<open>abs_of\<close>; every concrete step is an
  abstract step or leaves the abstract state unchanged (a simulation), and in every
  reachable state the recorder's tables read exactly the abstract counts (the coupling).
\<close>

record abs_recorder =
  a_pending :: "gauge_key multiset"
  a_done :: "series_key multiset"

definition abs_init :: abs_recorder where
  "abs_init = \<lparr>a_pending = {#}, a_done = {#}\<rparr>"

inductive abs_step :: "abs_recorder \<Rightarrow> abs_recorder \<Rightarrow> bool" where
  a_start: "abs_step A (A\<lparr>a_pending := add_mset g (a_pending A)\<rparr>)"
| a_complete: "g \<in># a_pending A \<Longrightarrow> fst k = fst g \<Longrightarrow> snd (snd k) = snd g \<Longrightarrow>
     abs_step A \<lparr>a_pending = a_pending A - {#g#}, a_done = add_mset k (a_done A)\<rparr>"
| a_skip: "abs_step A A"

inductive abs_reachable :: "abs_recorder \<Rightarrow> bool" where
  init: "abs_reachable abs_init"
| step: "abs_reachable A \<Longrightarrow> abs_step A A' \<Longrightarrow> abs_reachable A'"

text \<open>The abstraction of a server state: its requests in flight and its completed ones.\<close>

definition abs_of :: "server \<Rightarrow> abs_recorder" where
  "abs_of s =
     \<lparr>a_pending = mset (map (\<lambda>(i, f). fl_gauge f) (srv_inflight s)),
      a_done = mset (map ex_key (srv_done s))\<rparr>"

text \<open>The recorder's tables read the abstract counts.\<close>

definition metrics_abs :: "metrics \<Rightarrow> abs_recorder \<Rightarrow> bool" where
  "metrics_abs m A \<longleftrightarrow>
     (\<forall>k. total_of m k = of_nat (count (a_done A) k)) \<and>
     (\<forall>g. pending_of m g = int (count (a_pending A) g))"

subsection \<open>Lemmas\<close>

lemma mset_map_update:
  "map_of xs i = Some f \<Longrightarrow> h (i, f') = h (i, f) \<Longrightarrow>
     mset (map h (AList.update i f' xs)) = mset (map h xs)"
  by (induction xs) auto

lemma mset_map_delete:
  "distinct (map fst xs) \<Longrightarrow> map_of xs i = Some f \<Longrightarrow>
     mset (map h (AList.delete i xs)) = mset (map h xs) - {#h (i, f)#}"
proof (induction xs)
  case Nil
  then show ?case by simp
next
  case (Cons a xs)
  show ?case
  proof (cases "fst a = i")
    case True
    with Cons.prems have "a = (i, f)" "i \<notin> fst ` set xs" by (auto simp: prod_eq_iff)
    then show ?thesis by simp
  next
    case False
    with Cons show ?thesis by (auto simp: add_mset_diff_bothsides)
  qed
qed

lemma count_mset_filter: "count (mset (map h xs)) k = length (filter (\<lambda>x. h x = k) xs)"
  by (induction xs) auto

lemma abs_of_init [simp]: "abs_of server_init = abs_init"
  by (simp add: abs_of_def abs_init_def server_init_def)

lemma metrics_abs_reachable: "reachable s \<Longrightarrow> metrics_abs (srv_metrics s) (abs_of s)"
  using server_inv_reachable [of s]
  by (auto simp: metrics_abs_def abs_of_def count_mset_filter totals_ok_def pending_ok_def
      done_with_def in_flight_with_def split_def simp del: mset_map)

lemma arrive_abs:
  "abs_of (arrive req t s) =
     (abs_of s)\<lparr>a_pending := add_mset (gauge_of req (fst (app_call (srv_metrics s) req)))
                                  (a_pending (abs_of s))\<rparr>"
  by (simp add: abs_of_def)

lemma handle_abs: "handle i s = Some s' \<Longrightarrow> abs_of s' = abs_of s"
  by (auto simp: abs_of_def mset_map_update simp del: mset_map dest!: handle_Some)

lemma finish_abs:
  assumes "reachable s" and "finish i t s = Some s'"
  shows "abs_step (abs_of s) (abs_of s')"
proof -
  from assms(2) obtain f resp where f: "map_of (srv_inflight s) i = Some f" "fl_resp f = Some resp"
    and s': "s' = s\<lparr>srv_metrics := metrics_on_response (fl_gauge f) resp (t - fl_start f) (srv_metrics s),
              srv_events := srv_events s @ finish_events t (t - fl_start f) resp,
              srv_inflight := AList.delete i (srv_inflight s),
              srv_done := srv_done s @
                [\<lparr>ex_req = fl_req f, ex_matched = fl_matched f, ex_resp = resp,
                  ex_latency = t - fl_start f\<rparr>]\<rparr>"
    by (blast dest: finish_Some)
  let ?e = "\<lparr>ex_req = fl_req f, ex_matched = fl_matched f, ex_resp = resp, ex_latency = t - fl_start f\<rparr>"
  have ok: "inflight_ok s" using server_inv_reachable [OF assms(1)] by simp
  have mem: "(i, f) \<in> set (srv_inflight s)" using f(1) by (rule map_of_SomeD)
  with ok have g: "fl_gauge f = gauge_of (fl_req f) (fl_matched f)" by (auto simp: inflight_ok_def)
  have "fl_gauge f \<in># a_pending (abs_of s)" using mem by (force simp: abs_of_def)
  moreover have "fst (ex_key ?e) = fst (fl_gauge f)" "snd (snd (ex_key ?e)) = snd (fl_gauge f)"
    using g by (simp_all add: ex_key_def gauge_of_def)
  ultimately have "abs_step (abs_of s) \<lparr>a_pending = a_pending (abs_of s) - {#fl_gauge f#},
      a_done = add_mset (ex_key ?e) (a_done (abs_of s))\<rparr>"
    by (rule abs_step.a_complete)
  moreover have "abs_of s' = \<lparr>a_pending = a_pending (abs_of s) - {#fl_gauge f#},
      a_done = add_mset (ex_key ?e) (a_done (abs_of s))\<rparr>"
    using ok f(1) by (simp add: abs_of_def s' mset_map_delete inflight_ok_def del: mset_map)
  ultimately show ?thesis by simp
qed

lemma server_step_abs: "reachable s \<Longrightarrow> server_step s s' \<Longrightarrow> abs_step (abs_of s) (abs_of s')"
  by (auto elim!: server_stepE simp: arrive_abs handle_abs intro: abs_step.intros finish_abs)

lemma reachable_abs: "reachable s \<Longrightarrow> abs_reachable (abs_of s)"
  by (induction rule: reachable.induct)
    (auto intro: abs_reachable.intros server_step_abs)

subsection \<open>The pipeline refines the abstract recorder\<close>

text \<open>
  C24: every step of the concurrent pipeline from a reachable state is a step of the
  abstract recorder (a request starts under its method and endpoint, or completes under
  the same method and endpoint with a status, or nothing is recorded), and afterwards
  the counter and the gauge of the concrete recorder read exactly the abstract counts.
\<close>

theorem pipeline_refines_recorder:
  "reachable s \<Longrightarrow> server_step s s' \<Longrightarrow>
     abs_step (abs_of s) (abs_of s') \<and> metrics_abs (srv_metrics s') (abs_of s')"
  by (blast intro: server_step_abs metrics_abs_reachable reachable.step)

theorem pipeline_refines_recorder_witness:
  "abs_step (abs_of server_init) (abs_of (arrive root_request 0 server_init)) \<and>
   metrics_abs (srv_metrics (arrive root_request 0 server_init)) (abs_of (arrive root_request 0 server_init)) \<and>
   a_pending (abs_of (arrive root_request 0 server_init)) = {#(''GET'', ''/'')#}"
proof -
  have "a_pending (abs_of (arrive root_request 0 server_init)) = {#(''GET'', ''/'')#}"
    by (simp add: arrive_abs abs_init_def root_request_def gauge_of_def app_call_root endpoint_label_def)
  then show ?thesis
    using pipeline_refines_recorder [OF reachable.init server_step.arrive, of root_request 0]
    by simp
qed

end
