(* ===== verification/Startup.thy ===== *)
theory Startup
  imports Pipeline LogFilter
begin

text \<open>
  The control flow of \<open>main\<close> in \<open>src/main.rs\<close> (lines 34 to 98): resolve the log
  filter (lines 37 to 45); create the daily appender (47: \<open>RollingFileAppender::new\<close>
  creates \<open>./logs\<close> and opens the file of the day, and \<open>expect\<close>s it to succeed, panicking
  with "initializing rolling file appender failed: " and the \<open>Debug\<close> of the error);
  install the logger (49 to 58, which cannot fail in a process that installs no other
  subscriber); create the recorder (60, which installs the global recorder, likewise
  unable to fail in a fresh process); build the router (63 to 91; \<open>route\<close> may panic);
  parse the listen address and unwrap it (94); bind it (hyper's \<open>Server::bind\<close> panics
  with "error binding to ADDR: ERR" when the socket cannot be bound) and serve. The
  operating system's answers are inputs: for the log file and for the bind, \<open>None\<close> when
  the call succeeds, else the text of its error. A serving process starts from
  \<open>server_init\<close> of \<open>Pipeline\<close>, whose steps are the requests it then serves.

  \<open>"0.0.0.0:3000".parse::<SocketAddr>()\<close> follows the grammar of the standard
  library's address parser for the IPv4 form: four octets separated by dots, each one to
  three digits without a leading zero and at most 255, a colon, and a port of decimal
  digits (leading zeros allowed) below 65536; the whole string must be consumed. The
  bracketed IPv6 form that \<open>SocketAddr\<close> also accepts is not modelled (such strings are
  rejected here); the program parses only the literal above.
\<close>

datatype socket_addr = SocketAddrV4 nat nat nat nat nat

definition parse_octet :: "string \<Rightarrow> nat option" where
  "parse_octet s =
     (if s \<noteq> [] \<and> length s \<le> 3 \<and> list_all is_digit s \<and> \<not> (1 < length s \<and> hd s = CHR ''0'') \<and>
         dec_value s < 256
      then Some (dec_value s) else None)"

definition parse_port :: "string \<Rightarrow> nat option" where
  "parse_port s =
     (if s \<noteq> [] \<and> list_all is_digit s \<and> dec_value s < 65536 then Some (dec_value s) else None)"

definition parse_socket_addr :: "string \<Rightarrow> socket_addr option" where
  "parse_socket_addr s =
     (case split_on CHR '':'' s of
        [a, p] \<Rightarrow>
          (case split_on CHR ''.'' a of
             [o1, o2, o3, o4] \<Rightarrow>
               (case (parse_octet o1, parse_octet o2, parse_octet o3, parse_octet o4, parse_port p) of
                  (Some b1, Some b2, Some b3, Some b4, Some n) \<Rightarrow> Some (SocketAddrV4 b1 b2 b3 b4 n)
                | _ \<Rightarrow> None)
           | _ \<Rightarrow> None)
      | _ \<Rightarrow> None)"

text \<open>\<open>Display\<close> of a \<open>SocketAddrV4\<close>, as the bind panic prints it.\<close>

fun socket_addr_str :: "socket_addr \<Rightarrow> string" where
  "socket_addr_str (SocketAddrV4 b1 b2 b3 b4 n) =
     dec_string b1 @ ''.'' @ dec_string b2 @ ''.'' @ dec_string b3 @ ''.'' @ dec_string b4 @ '':''
       @ dec_string n"






subsection \<open>Lemmas on addresses\<close>

lemma parse_octet_dec_string: "b < 256 \<Longrightarrow> parse_octet (dec_string b) = Some b"
proof -
  assume b: "b < 256"
  have "length (dec_string b) \<le> 3" using b by (intro length_dec_string) simp_all
  moreover have "\<not> (1 < length (dec_string b) \<and> hd (dec_string b) = CHR ''0'')"
    using dec_string_hd_nonzero [of b] by (cases "b = 0") (auto simp: dec_string.simps)
  ultimately show ?thesis using b dec_string_digits [of b] by (simp add: parse_octet_def)
qed

lemma parse_port_dec_string: "n < 65536 \<Longrightarrow> parse_port (dec_string n) = Some n"
  using dec_string_digits [of n] by (simp add: parse_port_def)

lemma no_sep_dec_string: "CHR '':'' \<notin> set (dec_string n)" "CHR ''.'' \<notin> set (dec_string n)"
  by (simp_all add: dec_string_no_char is_digit_def)



subsection \<open>The address parser and the outcome of main\<close>

text \<open>
  C26: for every IPv4 socket address whose octets are below 256 and whose port is below
  65536, parsing its \<open>Display\<close> form gives the address back.
\<close>

theorem socket_addr_roundtrip:
  assumes "b1 < 256" "b2 < 256" "b3 < 256" "b4 < 256" "n < 65536"
  shows "parse_socket_addr (socket_addr_str (SocketAddrV4 b1 b2 b3 b4 n)) = Some (SocketAddrV4 b1 b2 b3 b4 n)"
proof -
  let ?a = "dec_string b1 @ CHR ''.'' # dec_string b2 @ CHR ''.'' # dec_string b3 @ CHR ''.'' # dec_string b4"
  have "CHR '':'' \<notin> set ?a" by (simp add: no_sep_dec_string)
  then have c: "split_on CHR '':'' (?a @ CHR '':'' # dec_string n) = [?a, dec_string n]"
    using split_on_append_sep [of "CHR '':''" ?a "dec_string n"]
    by (simp add: split_on_no_sep no_sep_dec_string)
  have d: "split_on CHR ''.'' ?a = [dec_string b1, dec_string b2, dec_string b3, dec_string b4]"
    by (simp add: split_on_append_sep split_on_no_sep no_sep_dec_string)
  show ?thesis
    using c d assms by (simp add: parse_socket_addr_def parse_octet_dec_string parse_port_dec_string)
qed

theorem socket_addr_roundtrip_witness:
  "parse_socket_addr (socket_addr_str (SocketAddrV4 192 168 1 255 8080)) = Some (SocketAddrV4 192 168 1 255 8080) \<and>
   parse_socket_addr (socket_addr_str (SocketAddrV4 0 0 0 0 3000)) = Some (SocketAddrV4 0 0 0 0 3000)"
  using socket_addr_roundtrip [of 192 168 1 255 8080] socket_addr_roundtrip [of 0 0 0 0 3000] by simp



end
