(* ===== verification/LogLine.thy ===== *)
theory LogLine
  imports LogFile Pipeline
begin

text \<open>
  The text of one log line, as the formatting layer of \<open>src/main.rs\<close> (lines 49 to 58)
  writes it: \<open>tracing_subscriber::fmt::layer()\<close> with the default timer, no target, no
  ANSI colours, in the \<open>compact\<close> format. \<open>Format<Compact, SystemTime>::format_event\<close>
  writes, in order:
  \<^item> the time at which the layer formats the event (the timer reads \<open>SystemTime::now\<close>
    then) in RFC 3339 form with microseconds and \<open>Z\<close> (\<open>DateTime\<close> of
    \<open>tracing-subscriber\<close>: a four-digit year, or \<open>+\<close> and the year after 9999), and a space;
  \<^item> the level, padded to five characters (\<open>" INFO"\<close>, \<open>" WARN"\<close>), and a space;
  \<^item> the names of the spans in scope, each followed by a colon, then a space (\<open>FmtCtx\<close>): the
    \<open>request\<close> span that \<open>DefaultMakeSpan\<close> opens at \<open>DEBUG\<close>, when the layer's filter
    enables it (\<open>LogFilter.span_enabled\<close>); a span the per-layer filter disables is not seen;
  \<^item> the event's fields (\<open>DefaultFields\<close>) in the order the macro records them, the message
    first and without its name, each other field as \<open>name=value\<close> after a space;
  \<^item> the formatted fields of each span in scope, each after a space: for \<open>request\<close>,
    \<open>method=\<close> the method, \<open>uri=\<close> the request target, \<open>version=\<close> the \<open>Debug\<close> of the
    HTTP version;
  \<^item> a newline.
  Only then does the layer ask the appender for its writer (\<open>make_writer\<close>), and the
  appender reads the clock again to choose the file of the day (\<open>LogFile.log_file_name\<close>):
  a write carries two instants, the formatting time \<open>tf\<close> and the writing time \<open>tw\<close>.
  The reader \<open>parse_timestamp\<close> is not code of the program: it states what the timestamp
  determines.
\<close>

datatype http_version = HTTP_09 | HTTP_10 | HTTP_11 | HTTP_2 | HTTP_3

fun version_debug :: "http_version \<Rightarrow> string" where
  "version_debug HTTP_09 = ''HTTP/0.9''"
| "version_debug HTTP_10 = ''HTTP/1.0''"
| "version_debug HTTP_11 = ''HTTP/1.1''"
| "version_debug HTTP_2 = ''HTTP/2.0''"
| "version_debug HTTP_3 = ''HTTP/3.0''"

definition uri_str :: "request \<Rightarrow> string" where
  "uri_str r = req_path r @ (case req_query r of None \<Rightarrow> [] | Some q \<Rightarrow> CHR ''?'' # q)"

definition span_fields_text :: "request \<Rightarrow> http_version \<Rightarrow> string" where
  "span_fields_text r v =
     ''method='' @ method_str (req_method r) @ '' uri='' @ uri_str r @ '' version='' @ version_debug v"

fun level_str :: "level \<Rightarrow> string" where
  "level_str Trace = ''TRACE''"
| "level_str Debug = ''DEBUG''"
| "level_str Info = '' INFO''"
| "level_str Warn = '' WARN''"
| "level_str Error = ''ERROR''"

definition year_str :: "nat \<Rightarrow> string" where
  "year_str y = (if 9999 < y then CHR ''+'' # dec_string y else pad 4 y)"

definition clock_str :: "nanos \<Rightarrow> string" where
  "clock_str t =
     (let r = t div nanos_per_sec mod 86400
      in pad 2 (r div 3600) @ '':'' @ pad 2 (r mod 3600 div 60) @ '':'' @ pad 2 (r mod 60) @
           ''.'' @ pad 6 (t mod nanos_per_sec div 1000) @ ''Z'')"

definition timestamp_str :: "nanos \<Rightarrow> string" where
  "timestamp_str t =
     (case date_of_days (t div nanos_per_sec div 86400) of
        (y, m, d) \<Rightarrow> year_str y @ ''-'' @ pad 2 m @ ''-'' @ pad 2 d @ ''T'' @ clock_str t)"

definition fields_text :: "event \<Rightarrow> string" where
  "fields_text ev = ev_message ev @ concat (map (\<lambda>(n, v). '' '' @ n @ ''='' @ v) (ev_values ev))"

definition format_line :: "nanos \<Rightarrow> (request \<times> http_version) option \<Rightarrow> event \<Rightarrow> string" where
  "format_line tf sp ev =
     timestamp_str tf @ '' '' @ level_str (ev_level ev) @ '' '' @
       (case sp of None \<Rightarrow> [] | Some _ \<Rightarrow> ''request: '') @ fields_text ev @
       (case sp of None \<Rightarrow> [] | Some (r, v) \<Rightarrow> '' '' @ span_fields_text r v) @ [CHR 0x0A]"

text \<open>
  The line the file logger writes for an event of request \<open>r\<close> over version \<open>v\<close>,
  formatted at \<open>tf\<close>; and a write: the file the appender picks at \<open>tw\<close> and the line.
\<close>

definition log_line :: "env_filter \<Rightarrow> request \<Rightarrow> http_version \<Rightarrow> nanos \<Rightarrow> event \<Rightarrow> string" where
  "log_line f r v tf ev = format_line tf (if span_enabled f then Some (r, v) else None) ev"

definition file_write ::
  "env_filter \<Rightarrow> request \<Rightarrow> http_version \<Rightarrow> nanos \<Rightarrow> nanos \<Rightarrow> event \<Rightarrow> string \<times> string" where
  "file_write f r v tf tw ev = (log_file_name tw, log_line f r v tf ev)"

text \<open>Reading a timestamp back: the microseconds since the epoch it denotes.\<close>

definition parse_clock :: "string \<Rightarrow> nat option" where
  "parse_clock s =
     (if s \<noteq> [] \<and> last s = CHR ''Z'' then
        (case split_on CHR '':'' (butlast s) of
           [h, mi, sf] \<Rightarrow>
             (case split_on CHR ''.'' sf of
                [sec, fr] \<Rightarrow>
                  if list_all (\<lambda>w. w \<noteq> [] \<and> list_all is_digit w) [h, mi, sec, fr] \<and> length fr = 6
                  then Some (((dec_value h * 60 + dec_value mi) * 60 + dec_value sec) * 1000000
                             + dec_value fr)
                  else None
              | _ \<Rightarrow> None)
         | _ \<Rightarrow> None)
      else None)"

definition parse_timestamp :: "string \<Rightarrow> nat option" where
  "parse_timestamp s =
     (case split_on CHR ''T'' s of
        [dt, cl] \<Rightarrow>
          (case (parse_date dt, parse_clock cl) of
             (Some d, Some c) \<Rightarrow> Some (days_of_date d * 86400000000 + c)
           | _ \<Rightarrow> None)
      | _ \<Rightarrow> None)"

subsection \<open>Lemmas\<close>

lemma day_index: "t div nanos_per_sec div 86400 = t div nanos_per_day"
  by (simp add: nanos_per_sec_def nanos_per_day_def div_mult2_eq mult.commute)

lemma timestamp_date:
  "fst (date_of_days (t div nanos_per_day)) \<le> 9999 \<Longrightarrow>
     timestamp_str t = date_str (date_of_days (t div nanos_per_day)) @ ''T'' @ clock_str t"
  by (auto simp: timestamp_str_def date_str_def year_str_def day_index split: prod.splits)

lemma length_date_of_days:
  assumes "fst (date_of_days n) \<le> 9999"
  shows "length (date_str (date_of_days n)) = 10"
proof -
  obtain y m d where dt: "date_of_days n = (y, m, d)" by (metis prod_cases3)
  with date_of_days_spec [OF dt] have "m < 10 ^ 2" "d < 10 ^ 2"
    by (auto simp: month_days_def split: if_splits)
  moreover have "y < 10 ^ 4" using assms dt by simp
  ultimately show ?thesis by (simp add: dt date_str_def length_pad)
qed

lemma newline_not_digit [simp]: "\<not> is_digit (CHR 0x0A)"
  by (simp add: is_digit_def)








lemma T_not_in_date: "CHR ''T'' \<notin> set (date_str dt)"
  by (auto simp: date_str_def pad_no_char is_digit_def split: prod.splits)

lemma hms_value: "(r div 3600 * 60 + r mod 3600 div 60) * 60 + r mod 60 = (r :: nat)"
proof -
  have "r mod 3600 mod 60 = r mod 60" by (rule mod_mod_cancel) simp
  then have "r mod 3600 = r mod 3600 div 60 * 60 + r mod 60" by (metis div_mult_mod_eq)
  moreover have "r = r div 3600 * 3600 + r mod 3600" by simp
  moreover have "(r div 3600 * 60 + r mod 3600 div 60) * 60 + r mod 60 =
      r div 3600 * 3600 + r mod 3600 div 60 * 60 + r mod 60" by simp
  ultimately show ?thesis by linarith
qed

lemma mod_billion_split: "t mod 1000000000 = 1000 * (t div 1000 mod 1000000) + (t::nat) mod 1000"
  using mod_mult2_eq [of t 1000 1000000] by simp

lemma micros_value:
  "t div nanos_per_day * 86400000000 + (t div nanos_per_sec mod 86400 * 1000000 + t mod nanos_per_sec div 1000)
     = t div 1000"
proof -
  define a where "a = t div 1000"
  define q where "q = a div 1000000"
  have e1: "t div nanos_per_sec = q" by (simp add: nanos_per_sec_def q_def a_def div_mult2_eq)
  have e2: "t mod nanos_per_sec div 1000 = a mod 1000000" by (simp add: nanos_per_sec_def a_def mod_billion_split)
  have e3: "t div nanos_per_day = q div 86400"
    by (simp add: nanos_per_sec_def nanos_per_day_def q_def a_def div_mult2_eq)
  have "q = q div 86400 * 86400 + q mod 86400" by simp
  moreover have "a = q * 1000000 + a mod 1000000" by (simp add: q_def)
  ultimately show ?thesis unfolding e1 e2 e3 a_def [symmetric] by linarith
qed

lemma parse_clock_str:
  "parse_clock (clock_str t) = Some (t div nanos_per_sec mod 86400 * 1000000 + t mod nanos_per_sec div 1000)"
proof -
  define r where "r = t div nanos_per_sec mod 86400"
  define u where "u = t mod nanos_per_sec div 1000"
  have u: "u < 10 ^ 6" by (simp add: u_def nanos_per_sec_def div_less_iff_less_mult)
  have c: "clock_str t = (pad 2 (r div 3600) @ CHR '':'' # pad 2 (r mod 3600 div 60) @ CHR '':'' #
      pad 2 (r mod 60) @ CHR ''.'' # pad 6 u) @ ''Z''"
    by (simp add: clock_str_def r_def u_def Let_def)
  have "split_on CHR '':'' (pad 2 (r div 3600) @ CHR '':'' # pad 2 (r mod 3600 div 60) @ CHR '':'' #
      pad 2 (r mod 60) @ CHR ''.'' # pad 6 u) = [pad 2 (r div 3600), pad 2 (r mod 3600 div 60),
      pad 2 (r mod 60) @ CHR ''.'' # pad 6 u]"
    by (simp add: split_on_append_sep split_on_no_sep pad_sep_chars)
  moreover have "split_on CHR ''.'' (pad 2 (r mod 60) @ CHR ''.'' # pad 6 u) = [pad 2 (r mod 60), pad 6 u]"
    by (simp add: split_on_append_sep split_on_no_sep pad_sep_chars)
  moreover have "butlast (clock_str t) = pad 2 (r div 3600) @ CHR '':'' # pad 2 (r mod 3600 div 60) @
      CHR '':'' # pad 2 (r mod 60) @ CHR ''.'' # pad 6 u" "last (clock_str t) = CHR ''Z''"
      "clock_str t \<noteq> []"
    unfolding c by (simp_all add: butlast_append)
  ultimately show ?thesis
    using u pad_digits [of 2] pad_digits [of 6 u] hms_value [of r]
    by (simp add: parse_clock_def length_pad r_def u_def)
qed

lemma replicate_numeral_Cons: "replicate (numeral k) x = x # replicate (pred_numeral k) x"
  by (simp add: numeral_eq_Suc)

lemmas line_eval = log_line_def format_line_def timestamp_str_def clock_str_def year_str_def
  nanos_per_sec_def Let_def fields_text_def span_fields_text_def uri_str_def date_eval
  replicate_numeral_Cons

subsection \<open>Properties of the log lines\<close>

text \<open>
  C28: the line of a write carries the date of the moment it was formatted, the file the
  date of the moment it was written; the line's date is the file's date exactly when both
  fall on the same UTC day (for years up to 9999). A line formatted just before midnight
  and written just after goes into the next day's file under the previous day's date.
\<close>

theorem line_date_and_file:
  assumes "fst (date_of_days (tf div nanos_per_day)) \<le> 9999"
    and "fst (date_of_days (tw div nanos_per_day)) \<le> 9999"
  shows "take 10 (snd (file_write f r v tf tw ev)) = date_str (date_of_days (tf div nanos_per_day)) \<and>
    fst (file_write f r v tf tw ev) = ''./logs/axum_test.'' @ date_str (date_of_days (tw div nanos_per_day)) \<and>
    (take 10 (snd (file_write f r v tf tw ev)) = drop 17 (fst (file_write f r v tf tw ev)) \<longleftrightarrow>
       tf div nanos_per_day = tw div nanos_per_day)"
proof -
  have l: "take 10 (snd (file_write f r v tf tw ev)) = date_str (date_of_days (tf div nanos_per_day))"
    using length_date_of_days [OF assms(1)]
    by (simp add: file_write_def log_line_def format_line_def timestamp_date [OF assms(1)])
  moreover have "fst (file_write f r v tf tw ev) =
      ''./logs/axum_test.'' @ date_str (date_of_days (tw div nanos_per_day))"
    by (simp add: file_write_def log_file_name_def)
  ultimately show ?thesis by (auto dest: date_str_inj date_of_days_inj)
qed

theorem line_date_and_file_witness:
  "fst (date_of_days (86399999999999 div nanos_per_day)) \<le> 9999 \<and>
   fst (date_of_days (86400000000000 div nanos_per_day)) \<le> 9999 \<and>
   file_write \<lparr>ef_statics = [(None, [], Some Info)], ef_dynamics = []\<rparr> root_request HTTP_11
     86399999999999 86400000000000 (on_response_event 86399999999990 5) =
     (''./logs/axum_test.1970-01-02'',
      ''1970-01-01T23:59:59.999999Z  INFO response generated in 5ns'' @ [CHR 0x0A]) \<and>
   take 10 (snd (file_write \<lparr>ef_statics = [(None, [], Some Info)], ef_dynamics = []\<rparr> root_request HTTP_11
     86399999999999 86400000000000 (on_response_event 86399999999990 5))) \<noteq>
   drop 17 (fst (file_write \<lparr>ef_statics = [(None, [], Some Info)], ef_dynamics = []\<rparr> root_request HTTP_11
     86399999999999 86400000000000 (on_response_event 86399999999990 5)))"
proof -
  let ?f = "\<lparr>ef_statics = [(None, [], Some Info)], ef_dynamics = []\<rparr> :: env_filter"
  have y: "fst (date_of_days (86399999999999 div nanos_per_day)) \<le> 9999"
    "fst (date_of_days (86400000000000 div nanos_per_day)) \<le> 9999"
    by (simp_all add: date_eval)
  have d: "(86399999999999::nat) div nanos_per_day \<noteq> 86400000000000 div nanos_per_day"
    by (simp add: nanos_per_day_def)
  have "\<not> span_enabled ?f"
    by (simp add: span_enabled_def statics_enabled_def static_pick_def static_cares_def
        target_matches_def dyn_max_def less_eq_level_def)
  then have w: "file_write ?f root_request HTTP_11 86399999999999 86400000000000
      (on_response_event 86399999999990 5) =
      (''./logs/axum_test.1970-01-02'',
       ''1970-01-01T23:59:59.999999Z  INFO response generated in 5ns'' @ [CHR 0x0A])"
    by (simp add: file_write_def line_eval on_response_event_def response_message_def
        duration_debug_def duration_of_nanos_def fmt_decimal_def)
  show ?thesis
    using y w d line_date_and_file [OF y, of ?f root_request HTTP_11 "on_response_event 86399999999990 5"]
    by blast
qed



text \<open>
  C30: the timestamp of a line determines the instant of the event to the microsecond:
  reading it back gives the nanoseconds since the epoch divided by 1000 (for years up to
  9999).
\<close>

theorem timestamp_roundtrip:
  assumes "fst (date_of_days (t div nanos_per_day)) \<le> 9999"
  shows "parse_timestamp (timestamp_str t) = Some (t div 1000)"
proof -
  have "CHR ''T'' \<notin> set (clock_str t)"
    by (auto simp: clock_str_def Let_def pad_sep_chars)
  then have "split_on CHR ''T'' (timestamp_str t) = [date_str (date_of_days (t div nanos_per_day)), clock_str t]"
    using split_on_append_sep [OF T_not_in_date] by (simp add: timestamp_date [OF assms] split_on_no_sep)
  then show ?thesis by (simp add: parse_timestamp_def parse_clock_str micros_value)
qed

theorem timestamp_roundtrip_witness:
  "fst (date_of_days (86401001234567 div nanos_per_day)) \<le> 9999 \<and>
   timestamp_str 86401001234567 = ''1970-01-02T00:00:01.001234Z'' \<and>
   parse_timestamp (timestamp_str 86401001234567) = Some 86401001234"
proof -
  have y: "fst (date_of_days (86401001234567 div nanos_per_day)) \<le> 9999" by (simp add: date_eval)
  have "timestamp_str 86401001234567 = ''1970-01-02T00:00:01.001234Z''" by (simp add: line_eval)
  with y show ?thesis using timestamp_roundtrip [OF y] by simp
qed

end
