(* ===== verification/Spec2Isabelle.thy ===== *)
theory Spec2Isabelle
  imports Prelude Http Router Metrics Duration App Tracing Pipeline LogFilter LogFile Refinement
    Startup LogLine
begin
text \<open>
  A verification library for the axum example server of this repository
  (\<open>src/src/main.rs\<close>). The program is one \<open>main\<close> and one handler: it resolves a log
  filter from the environment (lines 37 to 45), installs a daily file logger (47 to 58),
  creates a Prometheus recorder and its layer (60), builds an axum router with two routes,
  \<open>GET /\<close> answering \<open>"Hello World!"\<close> (\<open>hello_world\<close>, 100 to 102) and
  \<open>GET /metrics\<close> answering the Prometheus text of the metrics recorded so far (63 to 65),
  wraps every route in a trace layer outside a metrics layer (78 to 90), and serves the
  result on port 3000 (94 to 97). The work happens in the libraries it composes, so each
  theory models one of them as the program configures it:
  \<^item> \<open>Prelude\<close>: association lists with a default (the recorder's tables), splitting and
    joining strings, decimal printing and \<open>parse::<usize>\<close>, with their lemmas;
  \<^item> \<open>Http\<close>: methods, requests and responses as records, \<open>IntoResponse\<close> of a string
    and of a status, \<open>set_content_length\<close> (the \<open>content-length\<close> header that axum's
    route future adds when the handler set none, with the body's exact size), and the body
    stripped from the answer to \<open>HEAD\<close>;
  \<^item> \<open>Router\<close>: \<open>Router::new\<close>, \<open>route\<close> (its panics as \<open>route_error\<close> values), \<open>get\<close>,
    the merge of method routers, and \<open>dispatch\<close>: the matched path and the response, 405
    with \<open>allow: GET,HEAD\<close> for another method, 404 from the default fallback; every
    answer passes through the route future (\<open>content-length\<close>, then \<open>HEAD\<close> stripping);
  \<^item> \<open>Metrics\<close>: the state of the \<open>axum-prometheus\<close> recorder (counter
    \<open>axum_http_requests_total\<close> as 64-bit words, gauge \<open>axum_http_requests_pending\<close>,
    histogram \<open>axum_http_requests_duration_seconds\<close>), the layer's two callbacks
    \<open>metrics_prepare\<close> and \<open>metrics_on_response\<close>, and \<open>render\<close>, the exposition text
    the handle returns;
  \<^item> \<open>Duration\<close>: \<open>Debug\<close> of \<open>std::time::Duration\<close>, the \<open>{:?}\<close> of the latency that
    the \<open>on_response\<close> closure of line 83 logs (the digit loop of \<open>fmt_decimal\<close> is a
    \<open>function\<close> whose measure is the remaining precision, at most nine digits);
  \<^item> \<open>App\<close>: the two handlers and the router of \<open>main\<close>;
  \<^item> \<open>Tracing\<close>: levels (a linear order instantiating \<open>linorder\<close>), level filters, and
    the three events of the trace layer as configured, with their field names in the order
    the \<open>event!\<close> macro records them (the message first) and their displayed values (the
    failure's status text and latency in milliseconds);
  \<^item> \<open>Pipeline\<close>: the server state (recorder, event log, requests in flight, completed
    exchanges), the three steps of one request (\<open>arrive\<close>, \<open>handle\<close>, \<open>finish\<close>), the
    step relation \<open>server_step\<close> over any interleaving of concurrent requests, its
    reachable states, and \<open>serve\<close>, one request alone;
  \<^item> \<open>LogFilter\<close>: \<open>EnvFilter\<close> of \<open>tracing-subscriber\<close> as lines 37 to 45 build it
    (\<open>LevelFilter::from_str\<close>, \<open>Directive::parse\<close>, the strict and the lenient parse,
    the static and dynamic tables as \<open>make_tables\<close> splits the directives, \<open>enabled\<close> on
    an event and on the \<open>request\<close> span, field names being checked for events only), the
    resolution \<open>resolve_log_filter\<close> with its standard output, and \<open>log_written\<close>, the
    events the file logger of lines 47 to 58 writes;
  \<^item> \<open>LogFile\<close>: the daily rolling appender of line 47: the UTC date of a write
    (whole years, then whole months), its \<open>[year]-[month]-[day]\<close> text and the file
    name \<open>./logs/axum_test.DATE\<close>; beside them a reference Gregorian calendar
    (\<open>gregorian_leap\<close>, \<open>days_in_month\<close>, \<open>next_day\<close>) against which the date is checked;
  \<^item> \<open>Refinement\<close>: the contract of the metrics layer as an abstract recorder (two
    multisets: label sets of the requests in flight and of the completed ones, with a
    step relation \<open>abs_step\<close>), the abstraction \<open>abs_of\<close> of a server state and the
    coupling \<open>metrics_abs\<close> between the recorder's tables and the abstract counts;
  \<^item> \<open>Startup\<close>: the control flow of \<open>main\<close> (lines 34 to 98) as \<open>main_run\<close>, whose
    outcome is a panic message or a serving process: the panic of \<open>daily\<close> when the
    appender cannot create its directory or file, the panics of \<open>route\<close> and \<open>unwrap\<close>, and
    hyper's \<open>bind\<close>, with the IPv4 grammar of \<open>parse::<SocketAddr>\<close> (line 94) and the
    \<open>Display\<close> of an address (installing the recorder and the global logger cannot fail
    in a fresh process, so they are not branches);
  \<^item> \<open>LogLine\<close>: the text of a log line as the \<open>compact\<close> formatter of lines 49 to 58 writes
    it (timestamp with microseconds, padded level, the \<open>request\<close> span's name and fields
    when the filter enables that span, the event's message and fields, a newline), a reader
    of its timestamp, and \<open>file_write\<close>: the formatter reads the clock (\<open>tf\<close>) before the
    appender reads it again (\<open>tw\<close>) to pick the file.

  What the lemmas show. \<open>Router\<close>: dispatch on each branch, \<open>route\<close> keeps paths
  distinct and panics on a second handler for a path. \<open>Metrics\<close>: each callback's effect
  on each table, that the tables stay well formed, that label escaping is inverted by
  unescaping, and that every counter row is printed by \<open>render\<close>. \<open>Duration\<close>: the
  rounding branch of \<open>fmt_decimal\<close> never runs for an exact nanosecond count, and the
  printed latency parses back to itself. \<open>Pipeline\<close>: one invariant (\<open>server_inv\<close>)
  preserved by every step, hence by every interleaving (rule induction on
  \<open>reachable\<close>), from which the counters are exact (modulo \<open>2^64\<close>), the pending gauge
  equals the requests in flight, the histogram holds the latencies of the completed
  requests, and the response lines carry them, one per completed request; that no event
  is ever an \<open>ERROR\<close>; and the exact response of each route, headers included.
  \<open>LogFilter\<close>: the resolution on each branch (unset, invalid, empty, valid), the round
  trip of a \<open>target=LEVEL\<close> directive, that a later directive replaces an earlier one,
  and that the fold choosing the deciding directive returns a most specific one, and
  none exactly when no directive matches. \<open>LogFile\<close>: the date loops compute a valid
  date whose day count is the input, the date of day \<open>n\<close> is \<open>next_day\<close> applied \<open>n\<close>
  times to 1970-01-01 (the appender's calendar is the Gregorian one), and the date text
  parses back, so a file name determines the day. \<open>Refinement\<close>: every concrete step is
  an abstract step under \<open>abs_of\<close> (a simulation) and the tables read the abstract counts
  in every reachable state. \<open>Startup\<close>: printing an address and parsing it back is the
  identity, and \<open>main\<close> panics exactly when the appender or the bind fails.
  \<open>LogLine\<close>: a line begins with the date it was formatted on and lands in the file of
  the date it was written on, the two differing when midnight falls between the two
  clock reads; every event is exactly one line (no request can forge a line); the
  timestamp reads back as the instant to the microsecond. This theory: what the log
  file receives while requests are served, under each configuration.
  The claims of the development are the theorems after the text blocks naming C1 to C30
  in \<open>Pipeline\<close>, \<open>Router\<close>, \<open>Duration\<close>, \<open>LogFilter\<close>, \<open>LogFile\<close>, \<open>Refinement\<close>,
  \<open>Startup\<close>, \<open>LogLine\<close> and this theory.

  Bounds: the latency loop runs at most nine times (the precision of a nanosecond
  count); counters are 64-bit words, so their exactness is modulo \<open>2^64\<close>; no fuel is
  needed anywhere, every recursion being structural or measured (the calendar loops by
  the days left and the months left). The line and file lemmas assume years up to 9999,
  the range in which the date text has four digits.

  Not modelled: the socket I/O of hyper's listener (lines 95 to 97: accepting connections
  and reading requests; the bind's outcome is an input of \<open>main_run\<close>, and a serving
  process is the step relation of \<open>Pipeline\<close>), hence also the \<open>ERROR\<close> event hyper logs
  when accepting a connection fails (the claims about the log speak of the events of
  the trace layer), the bracketed IPv6 form of \<open>SocketAddr\<close> (the program parses only
  an IPv4 literal), the sum line of the histogram (an \<open>f64\<close> sum of seconds printed in
  Rust's shortest round-trip form, which would need IEEE arithmetic that the library
  theories used here do not provide), the order of the series in the exposition (the
  exporter iterates hash maps; \<open>render\<close> prints them in the order of its tables, and the
  claims about it speak of membership, not order), the two clock reads of the trace and
  metrics layers for one latency (both record the same value here), the life of the
  span that the trace layer opens per request beyond what a line shows of it (its name
  and fields, and whether the filter enables it; the request an event belongs to and its
  HTTP version are inputs of \<open>log_line\<close>, since the events of \<open>Pipeline\<close> do not record
  them), the commented-out layers of lines 66 to 77 and 85 to 87 (dead code), the
  \<open>use\<close> declarations of lines 1 to 31 (no behaviour), and of the filter: targets beyond
  ASCII, the validation of a field value as a regular expression when a directive is
  parsed, and matching recorded span fields by their contents (a dynamic directive
  naming a field's contents is taken to match nothing: deciding it needs the request of
  each event, which the events of \<open>Pipeline\<close> do not carry, and a regular-expression
  matcher for the value). What remains of the program beyond these is I/O or library
  internals with no effect the claims could observe.
\<close>

section \<open>The logger and the served application\<close>

text \<open>
  What the file logger writes while the application serves requests: the events of
  every interleaving (\<open>Pipeline\<close>) filtered by the filter resolved at start-up
  (\<open>LogFilter\<close>).
\<close>

lemma response_events_logged:
  assumes "\<forall>ev. is_response_event ev \<longrightarrow> event_enabled f ev" and "reachable s"
  shows "length (filter is_response_event (log_written f (srv_events s))) = length (srv_done s)"
proof -
  have "filter is_response_event (log_written f evs) = filter is_response_event evs" for evs
    using assms(1) by (induction evs) (auto simp: log_written_def)
  then show ?thesis using server_inv_reachable [OF assms(2)] by (simp add: events_ok_def)
qed

lemma global_admits_responses:
  "Some Info \<le> l \<Longrightarrow> is_response_event ev \<Longrightarrow>
     event_enabled \<lparr>ef_statics = [(None, [], l)], ef_dynamics = []\<rparr> ev"
  by (simp add: single_global_enabled is_response_event_def)

text \<open>
  C16: with \<open>AXUM_TEST_LOG\<close> unset or invalid and \<open>RUST_LOG\<close> unset, the log file
  stays empty however many requests are served: the fallback admits only \<open>ERROR\<close>,
  and the application never answers a 5xx, so the trace layer never emits one.
\<close>

theorem default_log_stays_empty:
  assumes "e ''AXUM_TEST_LOG'' = None \<or> (\<exists>v. e ''AXUM_TEST_LOG'' = Some v \<and> parse_strict v = None)"
    and "e ''RUST_LOG'' = None" and "reachable s"
  shows "log_written (ls_filter (resolve_log_filter e)) (srv_events s) = []"
  using no_error_ok_reachable [OF assms(3)]
  by (auto simp: resolve_fallback_filter [OF assms(1,2)] log_written_def single_global_enabled
      filter_empty_conv no_error_ok_def)

theorem default_log_stays_empty_witness:
  "\<exists>s. reachable s \<and> length (srv_done s) = 2 \<and>
     log_written (ls_filter (resolve_log_filter Map.empty)) (srv_events s) = []"
proof -
  obtain s where s: "reachable s" "srv_inflight s = []" "length (srv_done s) = 2"
    "done_with s (''GET'', ''200'', ''/'') = 2" "map ex_latency (srv_done s) = [5, 9]"
    "map ex_key (srv_done s) = [(''GET'', ''200'', ''/''), (''GET'', ''200'', ''/'')]"
    by (rule two_interleaved_requests)
  then show ?thesis using default_log_stays_empty [of Map.empty s] by auto
qed

text \<open>
  C17: with \<open>AXUM_TEST_LOG\<close> a single level at least \<open>INFO\<close>, the log holds exactly one
  "response generated in" line per completed request, in every interleaving.
\<close>

theorem level_filter_logs_each_response:
  assumes "e ''AXUM_TEST_LOG'' = Some v" and "parse_strict v = Some [Directive None None [] l]"
    and "Some Info \<le> l" and "reachable s"
  shows "length (filter is_response_event (log_written (ls_filter (resolve_log_filter e)) (srv_events s)))
           = length (srv_done s)"
  using assms(3) by (intro response_events_logged [OF _ assms(4)])
    (simp add: resolve_valid [of e, OF assms(1,2)] global_admits_responses)

theorem level_filter_logs_each_response_witness:
  "\<exists>s. reachable s \<and> length (srv_done s) = 2 \<and>
     length (filter is_response_event
       (log_written (ls_filter (resolve_log_filter [''AXUM_TEST_LOG'' \<mapsto> ''info''])) (srv_events s))) = 2"
proof -
  obtain s where s: "reachable s" "srv_inflight s = []" "length (srv_done s) = 2"
    "done_with s (''GET'', ''200'', ''/'') = 2" "map ex_latency (srv_done s) = [5, 9]"
    "map ex_key (srv_done s) = [(''GET'', ''200'', ''/''), (''GET'', ''200'', ''/'')]"
    by (rule two_interleaved_requests)
  have "parse_strict ''info'' = Some [Directive None None [] (Some Info)]"
    by (simp add: directive_eval)
  then show ?thesis
    using s level_filter_logs_each_response [of "[''AXUM_TEST_LOG'' \<mapsto> ''info'']" "''info''" "Some Info" s]
    by auto
qed

text \<open>
  C18: an invalid \<open>AXUM_TEST_LOG\<close> does not by itself mean error-only logging: with
  \<open>RUST_LOG\<close> a level at least \<open>INFO\<close>, the program prints its diagnostic and the log
  still gets one response line per completed request.
\<close>

theorem rust_log_fallback_logs_responses:
  assumes "e ''AXUM_TEST_LOG'' = Some v" and "parse_strict v = None"
    and "e ''RUST_LOG'' = Some w" and "fst (parse_lossy w) = [Directive None None [] l]"
    and "Some Info \<le> l" and "reachable s"
  shows "ls_stdout (resolve_log_filter e) = stdout_lines DirectiveError \<and>
    length (filter is_response_event (log_written (ls_filter (resolve_log_filter e)) (srv_events s)))
      = length (srv_done s)"
proof -
  have t: "try_from_env e ''AXUM_TEST_LOG'' = Inl DirectiveError"
    using assms(1,2) by (simp add: try_from_env_def)
  have "ls_filter (resolve_log_filter e) = \<lparr>ef_statics = [(None, [], l)], ef_dynamics = []\<rparr>"
    using resolve_fallback [OF t] from_env_lossy_global [of e, OF assms(3,4)] by simp
  then show ?thesis
    using assms(5) resolve_fallback [OF t]
    by (simp add: response_events_logged [OF _ assms(6)] global_admits_responses)
qed

theorem rust_log_fallback_logs_responses_witness:
  "\<exists>s. reachable s \<and> length (srv_done s) = 2 \<and>
     ls_stdout (resolve_log_filter [''AXUM_TEST_LOG'' \<mapsto> ''x!'', ''RUST_LOG'' \<mapsto> ''info'']) =
       stdout_lines DirectiveError \<and>
     length (filter is_response_event (log_written
       (ls_filter (resolve_log_filter [''AXUM_TEST_LOG'' \<mapsto> ''x!'', ''RUST_LOG'' \<mapsto> ''info'']))
       (srv_events s))) = 2"
proof -
  obtain s where s: "reachable s" "srv_inflight s = []" "length (srv_done s) = 2"
    "done_with s (''GET'', ''200'', ''/'') = 2" "map ex_latency (srv_done s) = [5, 9]"
    "map ex_key (srv_done s) = [(''GET'', ''200'', ''/''), (''GET'', ''200'', ''/'')]"
    by (rule two_interleaved_requests)
  have "parse_strict ''x!'' = None" "fst (parse_lossy ''info'') = [Directive None None [] (Some Info)]"
    by (simp_all add: directive_eval)
  then show ?thesis
    using s rust_log_fallback_logs_responses
      [of "[''AXUM_TEST_LOG'' \<mapsto> ''x!'', ''RUST_LOG'' \<mapsto> ''info'']" "''x!''" "''info''" "Some Info" s]
    by auto
qed

end
